(* ===== verification/Rust_Str.thy ===== *)
theory Rust_Str
  imports Prelude
begin

text \<open>
  The parts of Rust's \<open>str\<close>, \<open>char\<close> and number parsing the program uses.

  A \<open>String\<close> is its UTF-8 bytes (an Isabelle \<open>char\<close> is a byte), so \<open>as_bytes\<close> is the
  identity, \<open>len\<close> is \<open>length\<close> and \<open>Ord\<close> is the bytewise lexicographic order of
  \<open>HOL-Library.List_Lexorder\<close>.  \<open>chars\<close> decodes scalar values, \<open>of_chars\<close> encodes them.
  An \<open>OsStr\<close> of a Unix path is an arbitrary byte string; \<open>from_utf8\<close> is \<open>to_str\<close> on it and
  \<open>to_string_lossy\<close> replaces each maximal invalid part by U+FFFD.
\<close>

abbreviation byte :: "char \<Rightarrow> nat" where
  "byte c \<equiv> of_char c"

lemma byte_less [simp]: "byte c < 256"
  using of_char_mod_256 [of c, where 'a = nat] by simp

lemma byte_char_of [simp]: "byte (char_of n) = n mod 256" for n :: nat
  by simp

lemma char_of_byte [simp]: "char_of (byte c) = c"
  by simp

lemma byte_eq_iff [simp]: "byte c = byte d \<longleftrightarrow> c = d"
  by (metis char_of_byte)

section \<open>UTF-8\<close>

definition is_scalar :: "nat \<Rightarrow> bool" where
  "is_scalar n = (n < 0xD800 \<or> (0xE000 \<le> n \<and> n < 0x110000))"

definition is_cont :: "nat \<Rightarrow> bool" where
  "is_cont b = (0x80 \<le> b \<and> b < 0xC0)"

text \<open>Which second bytes may follow a lead byte of three or four.\<close>

definition second3 :: "nat \<Rightarrow> nat \<Rightarrow> bool" where
  "second3 b c =
    (if b = 0xE0 then 0xA0 \<le> c \<and> c < 0xC0
     else if b = 0xED then 0x80 \<le> c \<and> c < 0xA0
     else is_cont c)"

definition second4 :: "nat \<Rightarrow> nat \<Rightarrow> bool" where
  "second4 b c =
    (if b = 0xF0 then 0x90 \<le> c \<and> c < 0xC0
     else if b = 0xF4 then 0x80 \<le> c \<and> c < 0x90
     else is_cont c)"

text \<open>
  The first item of a byte string: its scalar value, or \<open>None\<close> for an invalid part, and how
  many bytes after the first one it takes.
\<close>

definition decode1 :: "nat \<Rightarrow> nat list \<Rightarrow> nat option \<times> nat" where
  "decode1 b cs =
    (if b < 0x80 then (Some b, 0)
     else if 0xC2 \<le> b \<and> b < 0xE0 then
       (case cs of
          c1 # _ \<Rightarrow> if is_cont c1 then (Some ((b - 0xC0) * 64 + (c1 - 0x80)), 1) else (None, 0)
        | [] \<Rightarrow> (None, 0))
     else if 0xE0 \<le> b \<and> b < 0xF0 then
       (case cs of
          c1 # ds \<Rightarrow> if second3 b c1 then
            (case ds of
               c2 # _ \<Rightarrow> if is_cont c2
                 then (Some ((b - 0xE0) * 4096 + (c1 - 0x80) * 64 + (c2 - 0x80)), 2)
                 else (None, 1)
             | [] \<Rightarrow> (None, 1)) else (None, 0)
        | [] \<Rightarrow> (None, 0))
     else if 0xF0 \<le> b \<and> b < 0xF5 then
       (case cs of
          c1 # ds \<Rightarrow> if second4 b c1 then
            (case ds of
               c2 # es \<Rightarrow> if is_cont c2 then
                 (case es of
                    c3 # _ \<Rightarrow> if is_cont c3
                      then (Some ((b - 0xF0) * 262144 + (c1 - 0x80) * 4096
                              + (c2 - 0x80) * 64 + (c3 - 0x80)), 3)
                      else (None, 2)
                  | [] \<Rightarrow> (None, 2)) else (None, 1)
             | [] \<Rightarrow> (None, 1)) else (None, 0)
        | [] \<Rightarrow> (None, 0))
     else (None, 0))"

function utf8_decode :: "nat list \<Rightarrow> nat option list" where
  "utf8_decode [] = []"
| "utf8_decode (b # cs) =
    (case decode1 b cs of (r, k) \<Rightarrow> r # utf8_decode (drop k cs))"
  by pat_completeness auto
termination by (relation "measure length") auto

definition encode_char :: "nat \<Rightarrow> nat list" where
  "encode_char n =
    (if n < 0x80 then [n]
     else if n < 0x800 then [0xC0 + n div 64, 0x80 + n mod 64]
     else if n < 0x10000 then [0xE0 + n div 4096, 0x80 + n div 64 mod 64, 0x80 + n mod 64]
     else [0xF0 + n div 262144, 0x80 + n div 4096 mod 64, 0x80 + n div 64 mod 64,
           0x80 + n mod 64])"

definition bytes :: "string \<Rightarrow> nat list" where
  "bytes s = map of_char s"

definition of_bytes :: "nat list \<Rightarrow> string" where
  "of_bytes bs = map char_of bs"

definition push_char :: "nat \<Rightarrow> string" where
  "push_char n = of_bytes (encode_char n)"

definition of_chars :: "nat list \<Rightarrow> string" where
  "of_chars ns = concat (map push_char ns)"

definition chars :: "string \<Rightarrow> nat list" where
  "chars s = map (\<lambda>r. case r of Some n \<Rightarrow> n | None \<Rightarrow> 0xFFFD) (utf8_decode (bytes s))"

definition utf8_valid :: "string \<Rightarrow> bool" where
  "utf8_valid s = list_all (\<lambda>r. r \<noteq> None) (utf8_decode (bytes s))"

definition from_utf8 :: "string \<Rightarrow> string option" where
  "from_utf8 s = (if utf8_valid s then Some s else None)"

definition to_string_lossy :: "string \<Rightarrow> string" where
  "to_string_lossy s = of_chars (chars s)"

lemma of_bytes_bytes [simp]: "of_bytes (bytes s) = s"
  by (simp add: of_bytes_def bytes_def comp_def)

lemma bytes_append [simp]: "bytes (s @ t) = bytes s @ bytes t"
  by (simp add: bytes_def)

lemma of_bytes_append [simp]: "of_bytes (s @ t) = of_bytes s @ of_bytes t"
  by (simp add: of_bytes_def)

lemma bytes_of_bytes: "\<forall>b \<in> set bs. b < 256 \<Longrightarrow> bytes (of_bytes bs) = bs"
  by (simp add: of_bytes_def bytes_def comp_def map_idI)

lemma of_chars_append [simp]: "of_chars (s @ t) = of_chars s @ of_chars t"
  by (simp add: of_chars_def)

lemma of_chars_Nil [simp]: "of_chars [] = []"
  by (simp add: of_chars_def)

lemma of_chars_Cons: "of_chars (n # ns) = push_char n @ of_chars ns"
  by (simp add: of_chars_def)

lemma encode_char_bytes: "n < 0x110000 \<Longrightarrow> \<forall>b \<in> set (encode_char n). b < 256"
  by (auto simp: encode_char_def)

lemma is_scalar_less: "is_scalar n \<Longrightarrow> n < 0x110000"
  by (auto simp: is_scalar_def)

lemma bytes_push_char: "is_scalar n \<Longrightarrow> bytes (push_char n) = encode_char n"
  using encode_char_bytes [OF is_scalar_less] by (simp add: push_char_def bytes_of_bytes)

text \<open>
  The three multi-byte shapes, by their six-bit groups: how they are encoded and decoded.
\<close>

lemma six_bits: "\<exists>a b. n = a * 64 + b \<and> b < 64" for n :: nat
  by (intro exI [of _ "n div 64"] exI [of _ "n mod 64"]) simp

lemma six_bits_div: "b < 64 \<Longrightarrow> (a * 64 + b) div 64 = a" for a b :: nat
  by simp

lemma six_bits_mod: "b < 64 \<Longrightarrow> (a * 64 + b) mod 64 = b" for a b :: nat
  by simp

lemma encode_two:
  "2 \<le> a \<Longrightarrow> a < 32 \<Longrightarrow> b < 64 \<Longrightarrow> encode_char (a * 64 + b) = [0xC0 + a, 0x80 + b]"
  by (simp add: encode_char_def)

lemma encode_three:
  assumes "a < 16" "b < 64" "c < 64" "a = 0 \<Longrightarrow> 32 \<le> b"
  shows "encode_char (a * 4096 + b * 64 + c) = [0xE0 + a, 0x80 + b, 0x80 + c]"
proof -
  have e: "a * 4096 + b * 64 + c = (a * 64 + b) * 64 + c" by simp
  have "(a * 4096 + b * 64 + c) div 64 = a * 64 + b" "(a * 4096 + b * 64 + c) mod 64 = c"
    by (simp_all only: e six_bits_div six_bits_mod assms)
  moreover have "(a * 4096 + b * 64 + c) div 4096 = a"
    using assms div_mult_self3 [of 4096 a "b * 64 + c"] by (simp add: add.assoc)
  ultimately show ?thesis using assms by (cases "a = 0") (simp_all add: encode_char_def)
qed

lemma encode_four:
  assumes "a < 5" "b < 64" "c < 64" "d < 64" "a = 0 \<Longrightarrow> 16 \<le> b"
  shows "encode_char (a * 262144 + b * 4096 + c * 64 + d) =
    [0xF0 + a, 0x80 + b, 0x80 + c, 0x80 + d]"
proof -
  let ?n = "a * 262144 + b * 4096 + c * 64 + d"
  have e: "?n = (a * 4096 + b * 64 + c) * 64 + d" "?n = (a * 64 + b) * 4096 + (c * 64 + d)"
    "?n = a * 262144 + (b * 4096 + c * 64 + d)" by simp_all
  have "?n div 64 = a * 4096 + b * 64 + c" "?n mod 64 = d"
    by (simp_all only: e(1) six_bits_div six_bits_mod assms)
  moreover have "(a * 4096 + b * 64 + c) mod 64 = c"
    using assms six_bits_mod [of c "a * 64 + b"] by (simp add: algebra_simps)
  moreover have "?n div 4096 = a * 64 + b" unfolding e(2) using assms by simp
  moreover have "?n div 262144 = a" unfolding e(3) using assms by simp
  ultimately show ?thesis using assms by (cases "a = 0") (simp_all add: encode_char_def)
qed

lemma decode1_two:
  "2 \<le> a \<Longrightarrow> a < 32 \<Longrightarrow> b < 64 \<Longrightarrow>
    decode1 (0xC0 + a) ((0x80 + b) # bs) = (Some (a * 64 + b), 1)"
  by (simp add: decode1_def is_cont_def)

lemma decode1_three:
  "a < 16 \<Longrightarrow> b < 64 \<Longrightarrow> c < 64 \<Longrightarrow> (a = 0 \<Longrightarrow> 32 \<le> b) \<Longrightarrow> (a = 13 \<Longrightarrow> b < 32) \<Longrightarrow>
    decode1 (0xE0 + a) ((0x80 + b) # (0x80 + c) # bs) = (Some (a * 4096 + b * 64 + c), 2)"
  by (auto simp: decode1_def is_cont_def second3_def)

lemma decode1_four:
  "a < 5 \<Longrightarrow> b < 64 \<Longrightarrow> c < 64 \<Longrightarrow> d < 64 \<Longrightarrow> (a = 0 \<Longrightarrow> 16 \<le> b) \<Longrightarrow> (a = 4 \<Longrightarrow> b < 16) \<Longrightarrow>
    decode1 (0xF0 + a) ((0x80 + b) # (0x80 + c) # (0x80 + d) # bs) =
      (Some (a * 262144 + b * 4096 + c * 64 + d), 3)"
  by (auto simp: decode1_def is_cont_def second4_def)

text \<open>A scalar value is of exactly one of the four shapes.\<close>

lemma scalar_shapes:
  assumes "is_scalar n"
  obtains (one) "n < 0x80"
  | (two) a b where "n = a * 64 + b" "2 \<le> a" "a < 32" "b < 64"
  | (three) a b c where "n = a * 4096 + b * 64 + c" "a < 16" "b < 64" "c < 64"
      "a = 0 \<Longrightarrow> 32 \<le> b" "a = 13 \<Longrightarrow> b < 32"
  | (four) a b c d where "n = a * 262144 + b * 4096 + c * 64 + d" "a < 5" "b < 64" "c < 64"
      "d < 64" "a = 0 \<Longrightarrow> 16 \<le> b" "a = 4 \<Longrightarrow> b < 16"
proof -
  obtain n1 d where n1: "n = n1 * 64 + d" "d < 64" using six_bits by blast
  obtain n2 c where n2: "n1 = n2 * 64 + c" "c < 64" using six_bits by blast
  obtain n3 b where n3: "n2 = n3 * 64 + b" "b < 64" using six_bits by blast
  consider "n < 0x80" | "0x80 \<le> n" "n < 0x800" | "0x800 \<le> n" "n < 0x10000"
    | "0x10000 \<le> n" "n < 0x110000"
    using is_scalar_less [OF assms] by linarith
  then show ?thesis
  proof cases
    case 1
    then show ?thesis by (rule one)
  next
    case 2
    with n1 show ?thesis by (intro two [of n1 d]) auto
  next
    case 3
    with n1 n2 assms show ?thesis by (intro three [of n2 c d]) (auto simp: is_scalar_def)
  next
    case 4
    with n1 n2 n3 show ?thesis by (intro four [of n3 b c d]) auto
  qed
qed

text \<open>Decoding reads back an encoded scalar value and leaves the rest.\<close>

lemma utf8_decode_encode:
  assumes "is_scalar n"
  shows "utf8_decode (encode_char n @ bs) = Some n # utf8_decode bs"
  using assms
proof (cases rule: scalar_shapes)
  case one
  then show ?thesis by (simp add: encode_char_def decode1_def)
next
  case (two a b)
  then show ?thesis by (simp add: encode_two decode1_two)
next
  case (three a b c)
  then show ?thesis by (simp add: encode_three decode1_three)
next
  case (four a b c d)
  then show ?thesis by (simp add: encode_four decode1_four)
qed

text \<open>Conversely a valid item is the encoding of the scalar value it decodes to.\<close>

lemma decode1_Some:
  assumes "decode1 b cs = (Some n, k)"
  shows "is_scalar n \<and> b # take k cs = encode_char n"
proof -
  consider (one) "b < 0x80" | (two) "0xC2 \<le> b" "b < 0xE0" | (three) "0xE0 \<le> b" "b < 0xF0"
    | (four) "0xF0 \<le> b" "b < 0xF5"
    using assms by (auto simp: decode1_def split: if_splits)
  then show ?thesis
  proof cases
    case one
    with assms show ?thesis by (auto simp: decode1_def is_scalar_def encode_char_def)
  next
    case two
    then obtain x where x: "b = 0xC0 + x" "2 \<le> x" "x < 32" by (auto dest!: le_Suc_ex)
    from two assms obtain y ds where y: "cs = (0x80 + y) # ds" "y < 64"
      by (auto simp: decode1_def is_cont_def split: list.splits if_splits dest!: le_Suc_ex)
    from assms x y have "n = x * 64 + y" "k = 1" by (auto simp: decode1_two)
    with x y show ?thesis by (auto simp: encode_two is_scalar_def)
  next
    case three
    then obtain x where x: "b = 0xE0 + x" "x < 16" by (auto dest!: le_Suc_ex)
    from three assms obtain y z ds where y: "cs = (0x80 + y) # (0x80 + z) # ds" "y < 64" "z < 64"
        "x = 0 \<Longrightarrow> 32 \<le> y" "x = 13 \<Longrightarrow> y < 32"
      unfolding x
      by (auto simp: decode1_def is_cont_def second3_def split: list.splits if_splits
        dest!: le_Suc_ex)
    from assms x y have "n = x * 4096 + y * 64 + z" "k = 2" by (auto simp: decode1_three)
    moreover have "is_scalar (x * 4096 + y * 64 + z)"
      using x y by (cases "x < 13"; cases "x = 13") (auto simp: is_scalar_def)
    ultimately show ?thesis using x y by (simp add: encode_three)
  next
    case four
    then obtain x where x: "b = 0xF0 + x" "x < 5" by (auto dest!: le_Suc_ex)
    from four assms obtain y z w ds where y: "cs = (0x80 + y) # (0x80 + z) # (0x80 + w) # ds"
        "y < 64" "z < 64" "w < 64" "x = 0 \<Longrightarrow> 16 \<le> y" "x = 4 \<Longrightarrow> y < 16"
      unfolding x
      by (auto simp: decode1_def is_cont_def second4_def split: list.splits if_splits
        dest!: le_Suc_ex)
    from assms x y have "n = x * 262144 + y * 4096 + z * 64 + w" "k = 3"
      by (auto simp: decode1_four)
    moreover have "is_scalar (x * 262144 + y * 4096 + z * 64 + w)"
      using x y by (cases "x = 0"; cases "x = 4") (auto simp: is_scalar_def)
    ultimately show ?thesis using x y by (simp add: encode_four)
  qed
qed

lemma utf8_decode_valid_encode:
  "list_all (\<lambda>r. r \<noteq> None) (utf8_decode bs) \<Longrightarrow>
    concat (map encode_char (map the (utf8_decode bs))) = bs \<and>
    list_all is_scalar (map the (utf8_decode bs))"
proof (induction bs rule: utf8_decode.induct)
  case 1
  then show ?case by simp
next
  case (2 b cs)
  obtain r k where d: "decode1 b cs = (r, k)" by fastforce
  with "2.prems" obtain n where r: "r = Some n" by auto
  from decode1_Some d r have "is_scalar n" "encode_char n = b # take k cs" by auto
  with "2.IH" "2.prems" d r show ?case by simp
qed

text \<open>A valid string is what its characters encode to, and conversely.\<close>

lemma utf8_valid_chars:
  "utf8_valid s \<Longrightarrow> chars s = map the (utf8_decode (bytes s))"
  by (auto simp: chars_def utf8_valid_def list_all_iff)

lemma of_chars_chars [simp]: "utf8_valid s \<Longrightarrow> of_chars (chars s) = s"
proof -
  assume v: "utf8_valid s"
  let ?ns = "map the (utf8_decode (bytes s))"
  have "concat (map encode_char ?ns) = bytes s"
    using v utf8_decode_valid_encode by (simp add: utf8_valid_def)
  moreover have "of_chars ?ns = of_bytes (concat (map encode_char ?ns))"
    by (simp add: of_chars_def push_char_def of_bytes_def map_concat comp_def)
  ultimately show ?thesis using v by (simp add: utf8_valid_chars)
qed

lemma utf8_decode_scalar: "Some n \<in> set (utf8_decode bs) \<Longrightarrow> is_scalar n"
proof (induction bs rule: utf8_decode.induct)
  case 1
  then show ?case by simp
next
  case (2 b cs)
  obtain r k where d: "decode1 b cs = (r, k)" by fastforce
  with "2.prems" consider "r = Some n" | "Some n \<in> set (utf8_decode (drop k cs))" by auto
  then show ?case using decode1_Some d "2.IH" [OF d [symmetric]] by cases auto
qed

lemma chars_scalar: "list_all is_scalar (chars s)"
  using utf8_decode_scalar
  by (auto simp: chars_def list_all_iff is_scalar_def split: option.split)

lemma utf8_decode_of_chars:
  "list_all is_scalar ns \<Longrightarrow> utf8_decode (bytes (of_chars ns)) = map Some ns"
  by (induction ns) (simp_all add: of_chars_Cons bytes_push_char utf8_decode_encode, simp add: bytes_def)

lemma chars_of_chars [simp]: "list_all is_scalar ns \<Longrightarrow> chars (of_chars ns) = ns"
  by (simp add: chars_def utf8_decode_of_chars comp_def)

lemma utf8_valid_of_chars: "list_all is_scalar ns \<Longrightarrow> utf8_valid (of_chars ns)"
  by (simp add: utf8_valid_def utf8_decode_of_chars list_all_iff)

end
