(* ===== verification/Rust_Text.thy ===== *)
theory Rust_Text
  imports Rust_Str
begin

text \<open>
  The \<open>str\<close> methods and the number and address formats the program uses, over \<open>Rust_Str\<close>:
  searching and trimming, ASCII case, \<open>parse\<close> and \<open>Display\<close> of unsigned integers with their
  round trip, the sixteen-digit hexadecimal format and its injectivity, \<open>Ipv4Addr\<close>.
\<close>

section \<open>Searching and splitting\<close>

text \<open>
  The separators are ASCII characters, so they are found bytewise: a byte below 0x80 never
  occurs inside a multi-byte character.
\<close>

fun split_once :: "char \<Rightarrow> string \<Rightarrow> (string \<times> string) option" where
  "split_once c [] = None"
| "split_once c (x # xs) =
    (if x = c then Some ([], xs)
     else map_option (\<lambda>(a, b). (x # a, b)) (split_once c xs))"

definition rsplit_once :: "char \<Rightarrow> string \<Rightarrow> (string \<times> string) option" where
  "rsplit_once c s = map_option (\<lambda>(b, a). (rev a, rev b)) (split_once c (rev s))"

definition strip_prefix :: "string \<Rightarrow> string \<Rightarrow> string option" where
  "strip_prefix p s = (if take (length p) s = p then Some (drop (length p) s) else None)"

fun split_on :: "char \<Rightarrow> string \<Rightarrow> string list" where
  "split_on c [] = [[]]"
| "split_on c (x # xs) =
    (if x = c then [] # split_on c xs
     else (case split_on c xs of p # ps \<Rightarrow> (x # p) # ps | [] \<Rightarrow> [[x]]))"

definition CR :: char where "CR = CHR 0x0D"
definition LF :: char where "LF = CHR 0x0A"

definition crlf :: string where "crlf = [CR, LF]"

fun split_crlf :: "string \<Rightarrow> string list" where
  "split_crlf [] = [[]]"
| "split_crlf (x # xs) =
    (case xs of
       y # ys \<Rightarrow> if x = CR \<and> y = LF then [] # split_crlf ys
         else (case split_crlf xs of p # ps \<Rightarrow> (x # p) # ps | [] \<Rightarrow> [[x]])
     | [] \<Rightarrow> [[x]])"

definition trim_matches :: "(char \<Rightarrow> bool) \<Rightarrow> string \<Rightarrow> string" where
  "trim_matches p s = rev (dropWhile p (rev (dropWhile p s)))"

text \<open>\<open>trim\<close> removes characters with Unicode's \<open>White_Space\<close> property.\<close>

definition is_whitespace :: "nat \<Rightarrow> bool" where
  "is_whitespace n =
    ((9 \<le> n \<and> n \<le> 13) \<or> n = 0x20 \<or> n = 0x85 \<or> n = 0xA0 \<or> n = 0x1680
     \<or> (0x2000 \<le> n \<and> n \<le> 0x200A) \<or> n = 0x2028 \<or> n = 0x2029 \<or> n = 0x202F
     \<or> n = 0x205F \<or> n = 0x3000)"

definition trim :: "string \<Rightarrow> string" where
  "trim s = of_chars (rev (dropWhile is_whitespace (rev (dropWhile is_whitespace (chars s)))))"

lemma split_once_Some: "split_once c s = Some (a, b) \<Longrightarrow> s = a @ c # b \<and> c \<notin> set a"
  by (induction c s arbitrary: a rule: split_once.induct) (auto split: if_splits)

lemma split_once_None: "split_once c s = None \<longleftrightarrow> c \<notin> set s"
  by (induction c s rule: split_once.induct) auto

lemma split_once_append: "c \<notin> set a \<Longrightarrow> split_once c (a @ c # b) = Some (a, b)"
  by (induction a) auto

lemma rsplit_once_Some: "rsplit_once c s = Some (a, b) \<Longrightarrow> s = a @ c # b \<and> c \<notin> set b"
  using split_once_Some [of c "rev s" "rev b" "rev a"] unfolding rsplit_once_def
  by (auto simp: rev_swap)

lemma rsplit_once_append: "c \<notin> set b \<Longrightarrow> rsplit_once c (a @ c # b) = Some (a, b)"
  by (simp add: rsplit_once_def split_once_append)

lemma strip_prefix_Some: "strip_prefix p s = Some r \<longleftrightarrow> s = p @ r"
  by (auto simp: strip_prefix_def) (metis append_take_drop_id)

lemma strip_prefix_append [simp]: "strip_prefix p (p @ r) = Some r"
  by (simp add: strip_prefix_Some)

lemma split_on_nonempty: "split_on c s \<noteq> []"
  by (induction c s rule: split_on.induct) (auto split: list.splits)

lemma split_on_plain: "c \<notin> set s \<Longrightarrow> split_on c s = [s]"
  by (induction c s rule: split_on.induct) auto

lemma split_on_prefix: "c \<notin> set s \<Longrightarrow> split_on c (s @ c # t) = s # split_on c t"
  by (induction s) auto

section \<open>ASCII case and digits\<close>

definition ascii_lower :: "char \<Rightarrow> char" where
  "ascii_lower c = (if 65 \<le> byte c \<and> byte c \<le> 90 then char_of (byte c + 32) else c)"

definition to_ascii_lowercase :: "string \<Rightarrow> string" where
  "to_ascii_lowercase s = map ascii_lower s"

definition eq_ignore_ascii_case :: "string \<Rightarrow> string \<Rightarrow> bool" where
  "eq_ignore_ascii_case s t = (to_ascii_lowercase s = to_ascii_lowercase t)"

definition is_ascii_digit :: "char \<Rightarrow> bool" where
  "is_ascii_digit c = (48 \<le> byte c \<and> byte c \<le> 57)"

definition is_ascii_alphanumeric :: "char \<Rightarrow> bool" where
  "is_ascii_alphanumeric c =
    (is_ascii_digit c \<or> (65 \<le> byte c \<and> byte c \<le> 90) \<or> (97 \<le> byte c \<and> byte c \<le> 122))"

lemma byte_ascii_lower: "byte (ascii_lower c) = (if 65 \<le> byte c \<and> byte c \<le> 90 then byte c + 32 else byte c)"
  by (simp add: ascii_lower_def)

lemma ascii_lower_idem [simp]: "ascii_lower (ascii_lower c) = ascii_lower c"
  by (subst (1) ascii_lower_def) (auto simp: byte_ascii_lower)

lemma eq_ignore_ascii_case_refl [simp]: "eq_ignore_ascii_case s s"
  by (simp add: eq_ignore_ascii_case_def)

lemma eq_ignore_ascii_case_sym: "eq_ignore_ascii_case s t = eq_ignore_ascii_case t s"
  by (auto simp: eq_ignore_ascii_case_def)

section \<open>Unsigned integers: \<open>parse\<close> and \<open>Display\<close>\<close>

text \<open>
  \<open>parse_digits m acc s\<close> is the loop of \<open>from_str_radix\<close> with its checked multiply and add:
  an accumulator above the largest value \<open>m\<close> of the type is an error.  \<open>parse_uint\<close> takes one
  leading plus sign, as \<open>from_str_radix\<close> does, and no minus sign.
\<close>

fun parse_digits :: "nat \<Rightarrow> nat \<Rightarrow> string \<Rightarrow> nat option" where
  "parse_digits m acc [] = Some acc"
| "parse_digits m acc (c # cs) =
    (if is_ascii_digit c
     then (let v = acc * 10 + (byte c - 48) in if m < v then None else parse_digits m v cs)
     else None)"

definition parse_uint :: "nat \<Rightarrow> string \<Rightarrow> nat option" where
  "parse_uint m s =
    (let digits = (case s of c # cs \<Rightarrow> if c = CHR ''+'' \<and> cs \<noteq> [] then cs else s | [] \<Rightarrow> [])
     in if digits = [] then None else parse_digits m 0 digits)"

definition parse_word :: "string \<Rightarrow> 'a::len word option" where
  "parse_word s = map_option word_of_nat (parse_uint (2 ^ LENGTH('a) - 1) s)"

definition digit_char :: "nat \<Rightarrow> char" where
  "digit_char d = char_of (48 + d)"

fun show_nat :: "nat \<Rightarrow> string" where
  "show_nat n = (if n < 10 then [digit_char n] else show_nat (n div 10) @ [digit_char (n mod 10)])"

declare show_nat.simps [simp del]

definition show_word :: "'a::len word \<Rightarrow> string" where
  "show_word w = show_nat (unat w)"

lemma byte_digit_char: "d < 10 \<Longrightarrow> byte (digit_char d) = 48 + d"
  by (simp add: digit_char_def)

lemma is_digit_digit_char: "d < 10 \<Longrightarrow> is_ascii_digit (digit_char d)"
  by (simp add: is_ascii_digit_def byte_digit_char)

lemma parse_digits_append:
  "parse_digits m a (s @ t) = Option.bind (parse_digits m a s) (\<lambda>b. parse_digits m b t)"
  by (induction m a s rule: parse_digits.induct) (auto simp: Let_def)

lemma parse_digits_le: "a \<le> m \<Longrightarrow> parse_digits m a s = Some b \<Longrightarrow> b \<le> m"
  by (induction m a s rule: parse_digits.induct) (auto simp: Let_def split: if_splits)

lemma parse_uint_le: "parse_uint m s = Some b \<Longrightarrow> b \<le> m"
  by (auto simp: parse_uint_def Let_def split: if_splits dest: parse_digits_le [rotated])

lemma parse_digits_show: "parse_digits m 0 (show_nat n) = (if n \<le> m then Some n else None)"
proof (induction n rule: show_nat.induct)
  case (1 n)
  show ?case
  proof (cases "n < 10")
    case True
    then show ?thesis
      by (subst show_nat.simps) (auto simp: is_digit_digit_char byte_digit_char)
  next
    case False
    have split: "n div 10 * 10 + n mod 10 = n" by simp
    from False 1 show ?thesis
      by (subst show_nat.simps)
        (auto simp: parse_digits_append is_digit_digit_char byte_digit_char split)
  qed
qed

lemma show_nat_not_Nil [simp]: "show_nat n \<noteq> []"
  by (subst show_nat.simps) simp

lemma show_nat_digits: "c \<in> set (show_nat n) \<Longrightarrow> is_ascii_digit c"
proof (induction n rule: show_nat.induct)
  case (1 n)
  then show ?case by (subst (asm) (2) show_nat.simps) (auto simp: is_digit_digit_char split: if_splits)
qed

lemma parse_uint_show: "parse_uint m (show_nat n) = (if n \<le> m then Some n else None)"
proof -
  obtain c cs where s: "show_nat n = c # cs" by (cases "show_nat n") auto
  have "is_ascii_digit c" using show_nat_digits [of c n] s by simp
  then have "c \<noteq> CHR ''+''" by (auto simp: is_ascii_digit_def)
  then have "parse_uint m (show_nat n) = parse_digits m 0 (show_nat n)"
    by (simp add: parse_uint_def s)
  then show ?thesis by (simp add: parse_digits_show)
qed

lemma parse_word_show [simp]: "parse_word (show_word w) = Some w"
  for w :: "'a::len word"
proof -
  have "unat w < 2 ^ LENGTH('a)" by simp
  then have "unat w \<le> 2 ^ LENGTH('a) - 1" by linarith
  then show ?thesis by (simp add: parse_word_def show_word_def parse_uint_show)
qed

lemma parse_word_Nil [simp]: "parse_word [] = None"
  by (simp add: parse_word_def parse_uint_def)

lemma show_nat_inj: "show_nat m = show_nat n \<Longrightarrow> m = n"
  by (metis max.cobounded1 max.cobounded2 option.inject parse_digits_show)

text \<open>What a successful parse has consumed: digits after an optional plus sign.\<close>

lemma parse_digits_Some: "parse_digits m a s = Some b \<Longrightarrow> c \<in> set s \<Longrightarrow> is_ascii_digit c"
  by (induction m a s rule: parse_digits.induct) (auto simp: Let_def split: if_splits)

lemma parse_uint_chars:
  "parse_uint m s = Some b \<Longrightarrow> c \<in> set s \<Longrightarrow> is_ascii_digit c \<or> c = CHR ''+''"
  by (auto simp: parse_uint_def Let_def split: if_splits list.splits dest: parse_digits_Some)

section \<open>The format \<open>{:016x}\<close>\<close>

definition hex_digit :: "nat \<Rightarrow> char" where
  "hex_digit d = (if d < 10 then char_of (48 + d) else char_of (87 + d))"

fun hex_pad :: "nat \<Rightarrow> nat \<Rightarrow> string" where
  "hex_pad 0 n = []"
| "hex_pad (Suc k) n = hex_pad k (n div 16) @ [hex_digit (n mod 16)]"

definition hex16 :: "u64 \<Rightarrow> string" where
  "hex16 w = hex_pad 16 (unat w)"

lemma length_hex_pad [simp]: "length (hex_pad k n) = k"
  by (induction k n rule: hex_pad.induct) auto

lemma length_hex16 [simp]: "length (hex16 w) = 16"
  by (simp add: hex16_def)

lemma byte_hex_digit: "d < 16 \<Longrightarrow> byte (hex_digit d) = (if d < 10 then 48 + d else 87 + d)"
  by (simp add: hex_digit_def)

lemma hex_digit_inj: "d < 16 \<Longrightarrow> e < 16 \<Longrightarrow> hex_digit d = hex_digit e \<Longrightarrow> d = e"
  by (drule arg_cong [where f = byte]) (simp add: byte_hex_digit del: byte_eq_iff split: if_splits)

lemma hex_pad_inj: "m < 16 ^ k \<Longrightarrow> n < 16 ^ k \<Longrightarrow> hex_pad k m = hex_pad k n \<Longrightarrow> m = n"
proof (induction k arbitrary: m n)
  case 0
  then show ?case by simp
next
  case (Suc k)
  then have "m div 16 = n div 16"
    by (intro Suc.IH) (auto simp: less_mult_imp_div_less mult.commute)
  moreover have "m mod 16 = n mod 16" using Suc.prems hex_digit_inj by simp
  ultimately show ?case by (metis div_mult_mod_eq)
qed

lemma hex16_inj: "hex16 v = hex16 w \<Longrightarrow> v = w"
proof -
  assume eq: "hex16 v = hex16 w"
  have "unat x < 2 ^ LENGTH(64)" for x :: u64 by (rule unsigned_less)
  then have "unat x < 16 ^ 16" for x :: u64 by simp
  with hex_pad_inj eq have "unat v = unat w" unfolding hex16_def by blast
  then show ?thesis by (simp add: unat_inj_eq)
qed

section \<open>\<open>Ipv4Addr\<close> and \<open>SocketAddrV4\<close>\<close>

type_synonym ipv4 = "u8 \<times> u8 \<times> u8 \<times> u8"

text \<open>
  An octet is one to three digits, no leading zero unless it is the digit zero alone, at
  most 255 and with no sign.
\<close>

definition parse_octet :: "string \<Rightarrow> u8 option" where
  "parse_octet s =
    (if s = [] \<or> 3 < length s \<or> (hd s = CHR ''0'' \<and> 1 < length s) then None
     else map_option word_of_nat (parse_digits 255 0 s))"

definition parse_ipv4 :: "string \<Rightarrow> ipv4 option" where
  "parse_ipv4 s =
    (case split_on CHR ''.'' s of
       [a, b, c, d] \<Rightarrow>
         (case (parse_octet a, parse_octet b, parse_octet c, parse_octet d) of
            (Some a', Some b', Some c', Some d') \<Rightarrow> Some (a', b', c', d')
          | _ \<Rightarrow> None)
     | _ \<Rightarrow> None)"

fun show_ipv4 :: "ipv4 \<Rightarrow> string" where
  "show_ipv4 (a, b, c, d) =
    show_word a @ ''.'' @ show_word b @ ''.'' @ show_word c @ ''.'' @ show_word d"

record socket_addr_v4 =
  addr_ip :: ipv4
  addr_port :: u16

definition show_socket_addr :: "socket_addr_v4 \<Rightarrow> string" where
  "show_socket_addr a = show_ipv4 (addr_ip a) @ '':'' @ show_word (addr_port a)"

end
