(* ===== verification/Filesystem.thy ===== *)
theory Filesystem
  imports Rust_Text
begin

text \<open>
  What the program sees of the operating system's file tree: Unix paths and the answers of
  \<open>canonicalize\<close>, \<open>metadata\<close>, \<open>symlink_metadata\<close> and \<open>read_dir\<close>.  The answers are the fields
  of a record \<open>file_system\<close>, a parameter of every definition that reads the disk; nothing is
  assumed about them here, so a reading may fail at any path.

  A \<open>path\<close> is the list of the components of an absolute path (byte strings without a slash),
  the form in which \<open>Path\<close> compares paths.  Paths written in the configuration are raw
  strings until they are resolved.
\<close>

type_synonym path = "string list"

section \<open>Paths\<close>

text \<open>\<open>as_os_str\<close> of an absolute path and of a path relative to a root.\<close>

fun join_slash :: "string list \<Rightarrow> string" where
  "join_slash [] = []"
| "join_slash [c] = c"
| "join_slash (c # cs) = c @ ''/'' @ join_slash cs"

definition abs_os_str :: "path \<Rightarrow> string" where
  "abs_os_str p = ''/'' @ join_slash p"

definition rel_os_str :: "string list \<Rightarrow> string" where
  "rel_os_str p = join_slash p"

definition path_join :: "path \<Rightarrow> string \<Rightarrow> path" where
  "path_join p name = p @ [name]"

definition path_starts_with :: "path \<Rightarrow> path \<Rightarrow> bool" where
  "path_starts_with p root = (take (length root) p = root)"

definition path_strip_prefix :: "path \<Rightarrow> path \<Rightarrow> string list option" where
  "path_strip_prefix p root =
    (if path_starts_with p root then Some (drop (length root) p) else None)"

definition path_file_name :: "path \<Rightarrow> string option" where
  "path_file_name p = (if p = [] then None else Some (last p))"

definition path_parent :: "path \<Rightarrow> path option" where
  "path_parent p = (if p = [] then None else Some (butlast p))"

text \<open>
  \<open>rsplit_file_at_dot\<close> of the standard library: a name without a dot has no extension, a name
  whose only dot comes first is all stem.
\<close>

definition path_extension :: "path \<Rightarrow> string option" where
  "path_extension p =
    (case path_file_name p of
       None \<Rightarrow> None
     | Some name \<Rightarrow>
        (case rsplit_once CHR ''.'' name of
           None \<Rightarrow> None
         | Some (before, after) \<Rightarrow> if before = [] then None else Some after))"

definition path_file_stem :: "path \<Rightarrow> string option" where
  "path_file_stem p =
    (case path_file_name p of
       None \<Rightarrow> None
     | Some name \<Rightarrow>
        (case rsplit_once CHR ''.'' name of
           None \<Rightarrow> Some name
         | Some (before, after) \<Rightarrow> if before = [] then Some name else Some before))"

lemma path_strip_prefix_join [simp]: "path_strip_prefix (root @ rel) root = Some rel"
  by (simp add: path_strip_prefix_def path_starts_with_def)

lemma path_starts_with_iff: "path_starts_with p root \<longleftrightarrow> (\<exists>rel. p = root @ rel)"
  by (auto simp: path_starts_with_def) (metis append_take_drop_id)

section \<open>Files\<close>

type_synonym io_error = string

text \<open>Times are nanoseconds since the Unix epoch, durations nanoseconds.\<close>

type_synonym sys_time = int
type_synonym duration = nat

definition from_secs :: "u64 \<Rightarrow> duration" where
  "from_secs s = unat s * 1000000000"

datatype file_type = File | Dir | Symlink | Other

record metadata =
  md_type :: file_type
  md_len :: u64
  md_modified :: "sys_time option"

text \<open>
  \<open>fs_read_dir d\<close> lists the names in \<open>d\<close> in the order the system gives them, with \<open>None\<close> for
  an entry that could not be read; \<open>fs_now p\<close> is the clock when \<open>p\<close> is looked at.
\<close>

record file_system =
  fs_resolve :: "string \<Rightarrow> io_error + path"
  fs_stat :: "string \<Rightarrow> io_error + metadata"
  fs_canonicalize :: "path \<Rightarrow> path option"
  fs_metadata :: "path \<Rightarrow> io_error + metadata"
  fs_symlink_metadata :: "path \<Rightarrow> io_error + metadata"
  fs_read_dir :: "path \<Rightarrow> (string option) list option"
  fs_now :: "path \<Rightarrow> sys_time"

definition is_dir :: "metadata \<Rightarrow> bool" where
  "is_dir m = (md_type m = Dir)"

definition is_file :: "metadata \<Rightarrow> bool" where
  "is_file m = (md_type m = File)"

definition is_symlink :: "metadata \<Rightarrow> bool" where
  "is_symlink m = (md_type m = Symlink)"

end
