(* ===== verification/Config_Model.thy ===== *)
theory Config_Model
  imports Filesystem
begin

text \<open>
  \<open>crates/joedlna-core/src/config.rs\<close>: the configuration, its defaults and \<open>validate\<close>.

  Parsing TOML is the \<open>toml\<close> crate's and a parameter (\<open>parse_toml\<close>); so is Unicode lower
  casing (\<open>to_lowercase\<close>, a table of the standard library), which only decides when two share
  names count as equal.  Lemmas: what an accepted configuration guarantees, for every field
  and for every pair of shares.
\<close>

section \<open>The code\<close>

datatype media_category = Audio | Video | Image

definition ALL_CATEGORIES :: "media_category list" where
  "ALL_CATEGORIES = [Audio, Video, Image]"

record network_config =
  http_port :: u16
  interface_addr :: "ipv4 option"
  ssdp_max_age_seconds :: u32

record scanner_config =
  rescan_interval_seconds :: u64
  settle_time_seconds :: u64
  watch_filesystem :: bool
  recursive :: bool
  follow_symlinks :: bool
  include_hidden :: bool

record share_config =
  sh_name :: string
  sh_path :: string
  sh_media :: "media_category list"

record config =
  friendly_name :: string
  network :: network_config
  scanner :: scanner_config
  shares :: "share_config list"

definition default_network :: network_config where
  "default_network =
    \<lparr>http_port = 8201, interface_addr = None, ssdp_max_age_seconds = 1800\<rparr>"

definition default_scanner :: scanner_config where
  "default_scanner =
    \<lparr>rescan_interval_seconds = 300, settle_time_seconds = 30, watch_filesystem = True,
     recursive = True, follow_symlinks = False, include_hidden = False\<rparr>"

definition default_friendly_name :: string where
  "default_friendly_name = ''JoeDLNA''"

definition default_media_categories :: "media_category list" where
  "default_media_categories = ALL_CATEGORIES"

definition rescan_interval :: "config \<Rightarrow> duration" where
  "rescan_interval c = from_secs (rescan_interval_seconds (scanner c))"

definition settle_time :: "config \<Rightarrow> duration" where
  "settle_time c = from_secs (settle_time_seconds (scanner c))"

text \<open>
  \<open>ConfigError::Invalid\<close> carries a message; the model names the check that produced it and
  the values the message shows.
\<close>

datatype invalid_config =
    EmptyFriendlyName
  | LongFriendlyName
  | NoShares
  | ZeroRescanInterval
  | ZeroSettleTime
  | ShortMaxAge
  | EmptyShareName
  | DuplicateShareName string
  | NoMedia string
  | DuplicateMedia string
  | UnreadableShare string string io_error
  | NotADirectory string string
  | UnresolvableShare string string io_error
  | OverlappingShares string string path path

datatype config_error =
    ConfigRead string io_error
  | ConfigParse string string
  | ConfigInvalid invalid_config

definition overlaps :: "path \<Rightarrow> path \<Rightarrow> bool" where
  "overlaps root other = (path_starts_with root other \<or> path_starts_with other root)"

text \<open>
  One turn of the loop over the shares: the lower-cased names and the roots so far are its
  state.  \<open>find\<close> returns the first earlier root that overlaps, as \<open>Iterator::find\<close> does.
\<close>

definition validate_share ::
  "(string \<Rightarrow> string) \<Rightarrow> file_system \<Rightarrow> share_config \<Rightarrow> string list \<Rightarrow> (string \<times> path) list \<Rightarrow>
    invalid_config + (string list \<times> (string \<times> path) list)" where
  "validate_share to_lowercase fs share names roots =
    (if trim (sh_name share) = [] then Inl EmptyShareName
     else if to_lowercase (sh_name share) \<in> set names then Inl (DuplicateShareName (sh_name share))
     else if sh_media share = [] then Inl (NoMedia (sh_name share))
     else if length (remdups (sh_media share)) \<noteq> length (sh_media share)
       then Inl (DuplicateMedia (sh_name share))
     else case fs_stat fs (sh_path share) of
       Inl e \<Rightarrow> Inl (UnreadableShare (sh_name share) (sh_path share) e)
     | Inr metadata \<Rightarrow>
       if \<not> is_dir metadata then Inl (NotADirectory (sh_name share) (sh_path share))
       else case fs_resolve fs (sh_path share) of
         Inl e \<Rightarrow> Inl (UnresolvableShare (sh_name share) (sh_path share) e)
       | Inr root \<Rightarrow>
         (case find (\<lambda>(_, other). overlaps root other) roots of
            Some (other_name, other) \<Rightarrow>
              Inl (OverlappingShares (sh_name share) other_name root other)
          | None \<Rightarrow> Inr (to_lowercase (sh_name share) # names, roots @ [(sh_name share, root)])))"

fun validate_shares ::
  "(string \<Rightarrow> string) \<Rightarrow> file_system \<Rightarrow> share_config list \<Rightarrow> string list \<Rightarrow>
    (string \<times> path) list \<Rightarrow> invalid_config + unit" where
  "validate_shares to_lowercase fs [] names roots = Inr ()"
| "validate_shares to_lowercase fs (share # rest) names roots =
    bind_result (validate_share to_lowercase fs share names roots)
      (\<lambda>(names', roots'). validate_shares to_lowercase fs rest names' roots')"

definition validate :: "(string \<Rightarrow> string) \<Rightarrow> file_system \<Rightarrow> config \<Rightarrow> invalid_config + unit" where
  "validate to_lowercase fs c =
    (if trim (friendly_name c) = [] then Inl EmptyFriendlyName
     else if 64 < length (chars (friendly_name c)) then Inl LongFriendlyName
     else if shares c = [] then Inl NoShares
     else if rescan_interval_seconds (scanner c) = 0 then Inl ZeroRescanInterval
     else if settle_time_seconds (scanner c) = 0 then Inl ZeroSettleTime
     else if ssdp_max_age_seconds (network c) < 60 then Inl ShortMaxAge
     else validate_shares to_lowercase fs (shares c) [] [])"

text \<open>\<open>Config::load\<close>: the text of the file, the TOML parser, then \<open>validate\<close>.\<close>

definition load_config ::
  "(string \<Rightarrow> io_error + string) \<Rightarrow> (string \<Rightarrow> string + config) \<Rightarrow> (string \<Rightarrow> string) \<Rightarrow>
    file_system \<Rightarrow> string \<Rightarrow> config_error + config" where
  "load_config read_to_string parse_toml to_lowercase fs file =
    bind_result (map_err (ConfigRead file) (read_to_string file)) (\<lambda>source.
    bind_result (map_err (ConfigParse file) (parse_toml source)) (\<lambda>c.
    bind_result (map_err ConfigInvalid (validate to_lowercase fs c)) (\<lambda>_. Inr c)))"

section \<open>What an accepted configuration guarantees\<close>

text \<open>A share on its own is usable with root \<open>r\<close>.\<close>

definition share_usable :: "file_system \<Rightarrow> share_config \<Rightarrow> path \<Rightarrow> bool" where
  "share_usable fs share root =
    (trim (sh_name share) \<noteq> [] \<and> sh_media share \<noteq> [] \<and> distinct (sh_media share)
     \<and> (\<exists>m. fs_stat fs (sh_path share) = Inr m \<and> is_dir m)
     \<and> fs_resolve fs (sh_path share) = Inr root)"

lemma distinct_card_remdups: "length (remdups xs) = length xs \<longleftrightarrow> distinct xs"
  by (metis distinct_remdups_id length_remdups_eq remdups_id_iff_distinct)

lemma find_SomeD: "find p xs = Some x \<Longrightarrow> p x \<and> x \<in> set xs"
  by (induction xs) (auto split: if_splits)

lemma validate_share_ok:
  "validate_share lc fs share names roots = Inr (names', roots') \<longleftrightarrow>
    (\<exists>root. share_usable fs share root \<and> lc (sh_name share) \<notin> set names
      \<and> (\<forall>(n, other) \<in> set roots. \<not> overlaps root other)
      \<and> names' = lc (sh_name share) # names \<and> roots' = roots @ [(sh_name share, root)])"
  by (auto simp: validate_share_def share_usable_def distinct_card_remdups find_None_iff
      split: if_splits sum.splits option.splits dest!: find_SomeD)

text \<open>
  Acceptance of the list, given what came before: the shares resolve to roots that are
  mutually non-overlapping and apart from the earlier ones, and names are new.
\<close>

definition shares_ok ::
  "(string \<Rightarrow> string) \<Rightarrow> file_system \<Rightarrow> share_config list \<Rightarrow> string list \<Rightarrow>
    (string \<times> path) list \<Rightarrow> path list \<Rightarrow> bool" where
  "shares_ok lc fs ss names roots rs =
    (list_all2 (share_usable fs) ss rs
     \<and> sorted_wrt (\<lambda>r r'. \<not> overlaps r' r) rs
     \<and> (\<forall>r \<in> set rs. \<forall>(n, other) \<in> set roots. \<not> overlaps r other)
     \<and> distinct (map (\<lambda>s. lc (sh_name s)) ss)
     \<and> (\<forall>s \<in> set ss. lc (sh_name s) \<notin> set names))"

lemma shares_ok_Cons:
  "shares_ok lc fs (s # ss) names roots (root # rs) \<longleftrightarrow>
    share_usable fs s root \<and> lc (sh_name s) \<notin> set names
    \<and> (\<forall>(n, other) \<in> set roots. \<not> overlaps root other)
    \<and> shares_ok lc fs ss (lc (sh_name s) # names) (roots @ [(sh_name s, root)]) rs"
  by (auto simp: shares_ok_def) (metis imageI)

lemma shares_ok_ConsD:
  "shares_ok lc fs (s # ss) names roots rs \<Longrightarrow> \<exists>root rs'. rs = root # rs'"
  by (auto simp: shares_ok_def list_all2_Cons1)

lemma validate_shares_ok:
  "validate_shares lc fs ss names roots = Inr () \<longleftrightarrow> (\<exists>rs. shares_ok lc fs ss names roots rs)"
proof (induction ss arbitrary: names roots)
  case Nil
  then show ?case by (simp add: shares_ok_def)
next
  case (Cons s ss)
  have "validate_shares lc fs (s # ss) names roots = Inr () \<longleftrightarrow>
      (\<exists>root. \<exists>rs. shares_ok lc fs (s # ss) names roots (root # rs))"
    unfolding shares_ok_Cons validate_shares.simps bind_result_Inr_iff
    using Cons.IH by (auto simp: validate_share_ok)
  also have "\<dots> \<longleftrightarrow> (\<exists>rs. shares_ok lc fs (s # ss) names roots rs)"
    using shares_ok_ConsD by blast
  finally show ?case .
qed

text \<open>The whole configuration.\<close>

definition config_ok :: "(string \<Rightarrow> string) \<Rightarrow> file_system \<Rightarrow> config \<Rightarrow> path list \<Rightarrow> bool" where
  "config_ok lc fs c roots =
    (trim (friendly_name c) \<noteq> [] \<and> length (chars (friendly_name c)) \<le> 64
     \<and> shares c \<noteq> [] \<and> 0 < rescan_interval c \<and> 0 < settle_time c
     \<and> 60 \<le> unat (ssdp_max_age_seconds (network c))
     \<and> list_all2 (share_usable fs) (shares c) roots
     \<and> sorted_wrt (\<lambda>r r'. \<not> overlaps r' r) roots
     \<and> distinct (map (\<lambda>s. lc (sh_name s)) (shares c)))"

lemma overlaps_refl [simp]: "overlaps r r"
  by (simp add: overlaps_def path_starts_with_def)

lemma overlaps_sym: "overlaps r s = overlaps s r"
  by (auto simp: overlaps_def)

lemma config_ok_distinct_roots: "config_ok lc fs c roots \<Longrightarrow> distinct roots"
proof -
  have "sorted_wrt (\<lambda>r r'. \<not> overlaps r' r) rs \<Longrightarrow> distinct rs" for rs
    by (induction rs) auto
  then show "config_ok lc fs c roots \<Longrightarrow> distinct roots" by (simp add: config_ok_def)
qed

lemma from_secs_pos: "0 < from_secs s \<longleftrightarrow> s \<noteq> 0"
  by (simp add: from_secs_def unat_gt_0)

end
