(* ===== verification/Ordering.thy ===== *)
theory Ordering
  imports Prelude
begin

text \<open>
  Rust's \<open>Ordering\<close>, \<open>cmp\<close>, \<open>then_with\<close> and the comparison sort \<open>sort_unstable_by\<close>.  The
  locale \<open>total_cmp\<close> is the contract the standard library asks of a comparator, the locale
  \<open>strict_cmp\<close> adds that only equal elements compare equal.  Under it the result of a sort
  does not depend on the order the elements came in nor on the sorting algorithm, which is
  what makes a listing built from an unordered \<open>HashMap\<close> deterministic.
\<close>

datatype cmp_result = Less | Equal | Greater

definition cmp :: "'a::linorder \<Rightarrow> 'a \<Rightarrow> cmp_result" where
  "cmp a b = (if a < b then Less else if a = b then Equal else Greater)"

fun then_with :: "cmp_result \<Rightarrow> cmp_result \<Rightarrow> cmp_result" where
  "then_with Less _ = Less"
| "then_with Equal r = r"
| "then_with Greater _ = Greater"

fun reverse_cmp :: "cmp_result \<Rightarrow> cmp_result" where
  "reverse_cmp Less = Greater"
| "reverse_cmp Equal = Equal"
| "reverse_cmp Greater = Less"

text \<open>Comparing by one key and then another is comparing the pairs lexicographically.\<close>

lemma then_with_cmp: "then_with (cmp a b) (cmp c d) = cmp (a, c) (b, d)"
  by (auto simp: cmp_def)

lemma cmp_le: "cmp a b \<noteq> Greater \<longleftrightarrow> a \<le> b"
  by (auto simp: cmp_def)

lemma cmp_Greater: "cmp a b = Greater \<longleftrightarrow> b < a"
  by (auto simp: cmp_def)

lemma cmp_Equal_iff: "cmp a b = Equal \<longleftrightarrow> a = b"
  by (auto simp: cmp_def)

lemma cmp_reverse: "cmp b a = reverse_cmp (cmp a b)"
  by (auto simp: cmp_def)

section \<open>Sorting by a comparator\<close>

text \<open>
  \<open>sort_by c xs\<close> stands for \<open>xs.sort_unstable_by(c)\<close>.  The library's algorithm is not under
  the repository; insertion sort is one algorithm that meets its documented contract, and
  \<open>sort_by_unique\<close> below shows that for the comparators of this program every other one
  gives the same list.
\<close>

fun insert_by :: "('a \<Rightarrow> 'a \<Rightarrow> cmp_result) \<Rightarrow> 'a \<Rightarrow> 'a list \<Rightarrow> 'a list" where
  "insert_by c x [] = [x]"
| "insert_by c x (y # ys) = (if c x y = Greater then y # insert_by c x ys else x # y # ys)"

fun sort_by :: "('a \<Rightarrow> 'a \<Rightarrow> cmp_result) \<Rightarrow> 'a list \<Rightarrow> 'a list" where
  "sort_by c [] = []"
| "sort_by c (x # xs) = insert_by c x (sort_by c xs)"

definition sorted_by :: "('a \<Rightarrow> 'a \<Rightarrow> cmp_result) \<Rightarrow> 'a list \<Rightarrow> bool" where
  "sorted_by c xs = sorted_wrt (\<lambda>x y. c x y \<noteq> Greater) xs"

lemma mset_insert_by [simp]: "mset (insert_by c x ys) = add_mset x (mset ys)"
  by (induction ys) auto

lemma mset_sort_by [simp]: "mset (sort_by c xs) = mset xs"
  by (induction xs) auto

lemma set_insert_by [simp]: "set (insert_by c x ys) = insert x (set ys)"
  by (induction ys) auto

lemma set_sort_by [simp]: "set (sort_by c xs) = set xs"
  by (induction xs) auto

lemma length_sort_by [simp]: "length (sort_by c xs) = length xs"
  by (metis mset_sort_by size_mset)

lemma distinct_sort_by [simp]: "distinct (sort_by c xs) = distinct xs"
  by (metis mset_sort_by mset_eq_imp_distinct_iff)

locale total_cmp =
  fixes c :: "'a \<Rightarrow> 'a \<Rightarrow> cmp_result" and D :: "'a set"
  assumes c_swap: "x \<in> D \<Longrightarrow> y \<in> D \<Longrightarrow> c y x = reverse_cmp (c x y)"
    and c_trans: "x \<in> D \<Longrightarrow> y \<in> D \<Longrightarrow> z \<in> D \<Longrightarrow>
      c x y \<noteq> Greater \<Longrightarrow> c y z \<noteq> Greater \<Longrightarrow> c x z \<noteq> Greater"
begin

lemma c_total: "x \<in> D \<Longrightarrow> y \<in> D \<Longrightarrow> c x y = Greater \<Longrightarrow> c y x \<noteq> Greater"
  using c_swap [of x y] by simp

lemma sorted_insert_by:
  "x \<in> D \<Longrightarrow> set ys \<subseteq> D \<Longrightarrow> sorted_by c ys \<Longrightarrow> sorted_by c (insert_by c x ys)"
proof (induction ys)
  case Nil
  then show ?case by (simp add: sorted_by_def)
next
  case (Cons y ys)
  show ?case
  proof (cases "c x y = Greater")
    case True
    with Cons have "sorted_by c (insert_by c x ys)" by (simp add: sorted_by_def)
    with True Cons.prems show ?thesis using c_total [of x y] by (auto simp: sorted_by_def)
  next
    case False
    with Cons.prems show ?thesis using c_trans [of x y] by (auto simp: sorted_by_def)
  qed
qed

lemma sorted_sort_by: "set xs \<subseteq> D \<Longrightarrow> sorted_by c (sort_by c xs)"
proof (induction xs)
  case Nil
  then show ?case by (simp add: sorted_by_def)
next
  case (Cons x xs)
  then show ?case by (simp add: sorted_insert_by)
qed

end

locale strict_cmp = total_cmp +
  assumes c_Equal: "x \<in> D \<Longrightarrow> y \<in> D \<Longrightarrow> c x y = Equal \<Longrightarrow> x = y"
begin

lemma c_antisym:
  "x \<in> D \<Longrightarrow> y \<in> D \<Longrightarrow> c x y \<noteq> Greater \<Longrightarrow> c y x \<noteq> Greater \<Longrightarrow> x = y"
  using c_swap [of x y] c_Equal [of x y] by (cases "c x y") auto

lemma sorted_unique:
  "mset xs = mset ys \<Longrightarrow> set xs \<subseteq> D \<Longrightarrow> sorted_by c xs \<Longrightarrow> sorted_by c ys \<Longrightarrow> xs = ys"
proof (induction xs arbitrary: ys)
  case Nil
  then show ?case by simp
next
  case (Cons x xs)
  from Cons.prems(1) obtain y ys' where ys: "ys = y # ys'" by (cases ys) auto
  from Cons.prems(1) have set_eq: "set (x # xs) = set ys" by (rule mset_eq_setD)
  have "x = y"
  proof (rule ccontr)
    assume "x \<noteq> y"
    with set_eq ys have "y \<in> set xs" and "x \<in> set ys'" by auto
    with Cons.prems ys have "c x y \<noteq> Greater" and "c y x \<noteq> Greater"
      by (auto simp: sorted_by_def)
    with \<open>y \<in> set xs\<close> Cons.prems(2) \<open>x \<noteq> y\<close> show False using c_antisym [of x y] by auto
  qed
  with Cons ys show ?case by (auto simp: sorted_by_def)
qed

lemma sort_by_unique:
  "set xs \<subseteq> D \<Longrightarrow> mset ys = mset xs \<Longrightarrow> sorted_by c ys \<Longrightarrow> ys = sort_by c xs"
  using sorted_unique [of "sort_by c xs" ys] by (simp add: sorted_sort_by)

lemma sort_by_perm: "set xs \<subseteq> D \<Longrightarrow> mset xs = mset ys \<Longrightarrow> sort_by c xs = sort_by c ys"
  by (rule sort_by_unique [symmetric]) (auto simp: sorted_sort_by dest: mset_eq_setD)

lemma sort_by_sorted: "set xs \<subseteq> D \<Longrightarrow> sorted_by c xs \<Longrightarrow> sort_by c xs = xs"
  by (rule sort_by_unique [symmetric]) auto

end

text \<open>A comparison by a key into a linear order meets the contract on any set.\<close>

lemma total_cmp_key: "total_cmp (\<lambda>x y. cmp (k x) (k y)) D"
  by unfold_locales (auto simp: cmp_def split: if_splits)

lemma strict_cmp_key: "inj_on k D \<Longrightarrow> strict_cmp (\<lambda>x y. cmp (k x) (k y)) D"
  by (intro strict_cmp.intro total_cmp_key)
    (auto simp: strict_cmp_axioms_def cmp_Equal_iff dest: inj_onD)

end
