(* ===== verification/Stores.thy ===== *)
theory Stores
  imports Ordering "HOL-Library.AList"
begin

text \<open>
  The two keyed collections of the program, \<open>std::collections::HashMap\<close> and \<open>BTreeMap\<close>, and
  the contract their clients rely on.

  A hash map is the list of its pairs in whatever order an iteration would visit them; a
  B-tree map is the list of its pairs in increasing key order.  The locale \<open>keyed_store\<close> says
  what a lookup returns after each update and that an iteration visits every key once.
  Theories of clients (the catalog, the event subscriptions, the bookmarks) use only the
  facts of the interpretations \<open>hm\<close> and \<open>bt\<close> at the end.
\<close>

locale keyed_store =
  fixes get :: "'m \<Rightarrow> 'k \<Rightarrow> 'v option"
    and put :: "'k \<Rightarrow> 'v \<Rightarrow> 'm \<Rightarrow> 'm"
    and del :: "'k \<Rightarrow> 'm \<Rightarrow> 'm"
    and items :: "'m \<Rightarrow> ('k \<times> 'v) list"
    and nil :: "'m"
    and wf :: "'m \<Rightarrow> bool"
  assumes wf_nil: "wf nil"
    and wf_put: "wf m \<Longrightarrow> wf (put k v m)"
    and wf_del: "wf m \<Longrightarrow> wf (del k m)"
    and get_nil: "get nil k = None"
    and get_put: "wf m \<Longrightarrow> get (put k v m) k' = (if k' = k then Some v else get m k')"
    and get_del: "wf m \<Longrightarrow> get (del k m) k' = (if k' = k then None else get m k')"
    and items_get: "wf m \<Longrightarrow> (k, v) \<in> set (items m) \<longleftrightarrow> get m k = Some v"
    and items_distinct: "wf m \<Longrightarrow> distinct (map fst (items m))"
begin

lemmas wf_rules = wf_nil wf_put wf_del

lemmas get_rules = get_nil get_put get_del

lemma distinct_items: "wf m \<Longrightarrow> distinct (items m)"
  by (metis items_distinct distinct_map)

lemma get_put_same: "wf m \<Longrightarrow> get (put k v m) k = Some v"
  by (simp add: get_put)

lemma get_put_other: "wf m \<Longrightarrow> k' \<noteq> k \<Longrightarrow> get (put k v m) k' = get m k'"
  by (simp add: get_put)

lemma get_ext_set_items: "wf m \<Longrightarrow> wf m' \<Longrightarrow> get m = get m' \<longleftrightarrow> set (items m) = set (items m')"
  by (auto simp: fun_eq_iff items_get set_eq_iff) (metis option.exhaust)

text \<open>
  Two stores that answer every lookup alike hold the same pairs, whatever order each
  iterates in: anything computed from the multiset of pairs agrees on them.
\<close>

lemma get_ext_mset_items:
  "wf m \<Longrightarrow> wf m' \<Longrightarrow> get m = get m' \<longleftrightarrow> mset (items m) = mset (items m')"
  using distinct_items get_ext_set_items set_eq_iff_mset_eq_distinct by metis

lemma mset_items_put_new:
  assumes "wf m" and "get m k = None"
  shows "mset (items (put k v m)) = add_mset (k, v) (mset (items m))"
proof -
  have notin: "(k, v) \<notin> set (items m)" using assms by (simp add: items_get)
  have "set (items (put k v m)) = set ((k, v) # items m)"
    using assms by (auto simp: items_get get_put wf_put split: if_splits)
  moreover have "distinct ((k, v) # items m)" using assms notin by (simp add: distinct_items)
  moreover have "distinct (items (put k v m))" using assms by (simp add: distinct_items wf_put)
  ultimately show ?thesis by (metis mset.simps(2) set_eq_iff_mset_eq_distinct)
qed

lemma length_items_put_new:
  "wf m \<Longrightarrow> get m k = None \<Longrightarrow> length (items (put k v m)) = Suc (length (items m))"
  by (metis mset_items_put_new size_add_mset size_mset)

lemma mset_vals_put_new:
  "wf m \<Longrightarrow> get m k = None \<Longrightarrow>
    mset (map snd (items (put k v m))) = add_mset v (mset (map snd (items m)))"
  by (simp add: mset_items_put_new)

end

locale retaining_store = keyed_store +
  fixes retain :: "('k \<Rightarrow> 'v \<Rightarrow> bool) \<Rightarrow> 'm \<Rightarrow> 'm"
  assumes wf_retain: "wf m \<Longrightarrow> wf (retain p m)"
    and get_retain: "wf m \<Longrightarrow> get (retain p m) k =
      (case get m k of Some v \<Rightarrow> if p k v then Some v else None | None \<Rightarrow> None)"
begin

lemma get_retain_Some: "wf m \<Longrightarrow> get (retain p m) k = Some v \<longleftrightarrow> get m k = Some v \<and> p k v"
  by (auto simp: get_retain split: option.splits)

lemma retain_submap: "wf m \<Longrightarrow> get (retain p m) k = Some v \<Longrightarrow> get m k = Some v"
  by (simp add: get_retain_Some)

end

section \<open>HashMap\<close>

type_synonym ('k, 'v) hash_map = "('k \<times> 'v) list"

definition hm_ok :: "('k, 'v) hash_map \<Rightarrow> bool" where
  "hm_ok m = distinct (map fst m)"

abbreviation hm_get :: "('k, 'v) hash_map \<Rightarrow> 'k \<Rightarrow> 'v option" where
  "hm_get \<equiv> map_of"

abbreviation hm_insert :: "'k \<Rightarrow> 'v \<Rightarrow> ('k, 'v) hash_map \<Rightarrow> ('k, 'v) hash_map" where
  "hm_insert \<equiv> AList.update"

abbreviation hm_remove :: "'k \<Rightarrow> ('k, 'v) hash_map \<Rightarrow> ('k, 'v) hash_map" where
  "hm_remove \<equiv> AList.delete"

definition hm_retain :: "('k \<Rightarrow> 'v \<Rightarrow> bool) \<Rightarrow> ('k, 'v) hash_map \<Rightarrow> ('k, 'v) hash_map" where
  "hm_retain p m = filter (\<lambda>(k, v). p k v) m"

text \<open>\<open>m.entry(k).or_default()\<close> keeps a present value and stores the default otherwise.\<close>

definition hm_or_default :: "'k \<Rightarrow> 'v \<Rightarrow> ('k, 'v) hash_map \<Rightarrow> ('k, 'v) hash_map" where
  "hm_or_default k d m = (case hm_get m k of Some _ \<Rightarrow> m | None \<Rightarrow> hm_insert k d m)"

text \<open>\<open>PartialEq\<close> of hash maps: as many pairs, and every pair of one found in the other.\<close>

definition hm_eq :: "('k, 'v) hash_map \<Rightarrow> ('k, 'v) hash_map \<Rightarrow> bool" where
  "hm_eq m m' = (length m = length m' \<and> (\<forall>(k, v) \<in> set m. hm_get m' k = Some v))"

interpretation hm: retaining_store hm_get hm_insert hm_remove "\<lambda>m. m" "[]" hm_ok hm_retain
proof unfold_locales
  fix m :: "('k, 'v) hash_map" and k k' v and p :: "'k \<Rightarrow> 'v \<Rightarrow> bool"
  show "hm_ok ([] :: ('k, 'v) hash_map)" by (simp add: hm_ok_def)
  show "hm_get ([] :: ('k, 'v) hash_map) k = None" by simp
  show "hm_get (hm_insert k v m) k' = (if k' = k then Some v else hm_get m k')"
    by (simp add: update_conv')
  show "hm_get (hm_remove k m) k' = (if k' = k then None else hm_get m k')"
    by (simp add: delete_conv')
  assume ok: "hm_ok m"
  then show "hm_ok (hm_insert k v m)" by (simp add: hm_ok_def distinct_update)
  from ok show "hm_ok (hm_remove k m)" by (simp add: hm_ok_def distinct_delete)
  from ok show "(k, v) \<in> set m \<longleftrightarrow> hm_get m k = Some v" by (simp add: hm_ok_def)
  from ok show "distinct (map fst m)" by (simp add: hm_ok_def)
  from ok show "hm_ok (hm_retain p m)"
    by (auto simp: hm_ok_def hm_retain_def distinct_map_filter)
  from ok show "hm_get (hm_retain p m) k =
      (case hm_get m k of Some v \<Rightarrow> if p k v then Some v else None | None \<Rightarrow> None)"
    by (induction m) (auto simp: hm_ok_def hm_retain_def map_of_eq_None_iff split: option.splits)
qed

lemma hm_get_insert [simp]:
  "hm_get (hm_insert k v m) k' = (if k' = k then Some v else hm_get m k')"
  by (simp add: update_conv')

lemma hm_ok_insert [simp]: "hm_ok m \<Longrightarrow> hm_ok (hm_insert k v m)"
  by (rule hm.wf_put)

lemma hm_get_or_default:
  "hm_get (hm_or_default k d m) k' =
    (if k' = k then (case hm_get m k of Some v \<Rightarrow> Some v | None \<Rightarrow> Some d) else hm_get m k')"
  by (auto simp: hm_or_default_def split: option.splits)

lemma hm_ok_or_default [simp]: "hm_ok m \<Longrightarrow> hm_ok (hm_or_default k d m)"
  by (simp add: hm_or_default_def split: option.splits)

text \<open>On proper hash maps \<open>==\<close> is equality of the finite functions they stand for.\<close>

lemma hm_eq_iff:
  assumes "hm_ok m" and "hm_ok m'"
  shows "hm_eq m m' \<longleftrightarrow> hm_get m = hm_get m'"
proof
  assume eq: "hm_eq m m'"
  then have sub: "set m \<subseteq> set m'"
    using hm.items_get [OF assms(2)] by (auto simp: hm_eq_def)
  have "card (set m) = card (set m')"
    using eq assms hm.distinct_items by (metis hm_eq_def distinct_card)
  with sub have "set m = set m'" by (simp add: card_subset_eq)
  then show "hm_get m = hm_get m'" using hm.get_ext_set_items [OF assms] by simp
next
  assume "hm_get m = hm_get m'"
  then have "mset m = mset m'" using hm.get_ext_mset_items [OF assms] by simp
  then have "length m = length m'" by (rule mset_eq_length)
  moreover have "\<forall>(k, v) \<in> set m. hm_get m' k = Some v"
    using hm.items_get [OF assms(1)] \<open>hm_get m = hm_get m'\<close> by auto
  ultimately show "hm_eq m m'" by (simp add: hm_eq_def)
qed

section \<open>BTreeMap\<close>

type_synonym ('k, 'v) btree_map = "('k \<times> 'v) list"

definition bt_ok :: "('k::linorder, 'v) btree_map \<Rightarrow> bool" where
  "bt_ok m = sorted_wrt (<) (map fst m)"

abbreviation bt_get :: "('k, 'v) btree_map \<Rightarrow> 'k \<Rightarrow> 'v option" where
  "bt_get \<equiv> map_of"

fun bt_insert :: "'k::linorder \<Rightarrow> 'v \<Rightarrow> ('k, 'v) btree_map \<Rightarrow> ('k, 'v) btree_map" where
  "bt_insert k v [] = [(k, v)]"
| "bt_insert k v ((k', v') # m) =
    (if k < k' then (k, v) # (k', v') # m
     else if k = k' then (k, v) # m
     else (k', v') # bt_insert k v m)"

definition bt_remove :: "'k \<Rightarrow> ('k, 'v) btree_map \<Rightarrow> ('k, 'v) btree_map" where
  "bt_remove k m = filter (\<lambda>(k', v). k' \<noteq> k) m"

lemma set_bt_insert: "fst ` set (bt_insert k v m) = insert k (fst ` set m)"
  by (induction m rule: bt_insert.induct) auto

lemma bt_ok_distinct: "bt_ok m \<Longrightarrow> distinct (map fst m)"
  by (simp add: bt_ok_def strict_sorted_iff)

lemma bt_ok_Nil: "bt_ok []"
  by (simp add: bt_ok_def)

lemma bt_get_insert: "bt_get (bt_insert k v m) k' = (if k' = k then Some v else bt_get m k')"
  by (induction k v m rule: bt_insert.induct) auto

lemma bt_ok_insert: "bt_ok m \<Longrightarrow> bt_ok (bt_insert k v m)"
  by (induction k v m rule: bt_insert.induct)
    (auto simp: bt_ok_def set_bt_insert intro: order.strict_trans)

lemma bt_get_remove: "bt_get (bt_remove k m) k' = (if k' = k then None else bt_get m k')"
  by (induction m) (auto simp: bt_remove_def)

lemma bt_ok_remove: "bt_ok m \<Longrightarrow> bt_ok (bt_remove k m)"
  by (induction m) (auto simp: bt_ok_def bt_remove_def)

interpretation bt: keyed_store bt_get bt_insert bt_remove "\<lambda>m. m" "[]" bt_ok
  by unfold_locales
    (simp_all add: bt_get_insert bt_get_remove bt_ok_insert bt_ok_remove bt_ok_distinct bt_ok_Nil)

text \<open>A B-tree map is its contents: two that answer every lookup alike are equal.\<close>

lemma bt_ext: "bt_ok m \<Longrightarrow> bt_ok m' \<Longrightarrow> bt_get m = bt_get m' \<Longrightarrow> m = m'"
proof -
  assume ok: "bt_ok m" "bt_ok m'" and eq: "bt_get m = bt_get m'"
  from eq have set_eq: "set m = set m'" using bt.get_ext_set_items [OF ok] by simp
  have sorted: "sorted (map fst m)" "distinct (map fst m)" "sorted (map fst m')"
      "distinct (map fst m')"
    using ok by (simp_all add: bt_ok_def strict_sorted_iff)
  then have "inj_on fst (set m \<union> set m')" using set_eq by (simp add: distinct_map)
  from map_sorted_distinct_set_unique [OF this sorted set_eq] show ?thesis .
qed

end
