(* ===== verification/Catalog.thy ===== *)
theory Catalog
  imports Media_Kind Object_Id Stores
begin

text \<open>
  The catalog of \<open>crates/joedlna-core/src/catalog.rs\<close>: its data, the lookups request handlers
  use, \<open>insert_entry\<close>, the ordering of children and the content fingerprints.  The directory
  walk that fills it is in \<open>Scan\<close>.

  A catalog is kept as two hash maps, as in the code: entries by identifier and, per container,
  the identifiers of its children.  \<open>catalog_wf\<close> says how the two agree; the record's other
  fields are the counters and the update identifier.
\<close>

section \<open>The data\<close>

datatype entry_kind = Container | Media media_kind_info

record entry =
  e_id :: string
  e_parent_id :: string
  e_title :: string
  e_path :: path
  e_kind :: entry_kind
  e_size :: u64
  e_modified_seconds :: u64

record catalog =
  entries :: "(string, entry) hash_map"
  children :: "(string, string list) hash_map"
  update_id :: u32
  file_count :: nat
  total_bytes :: u64

record catalog_scan =
  scan_catalog :: catalog
  unsettled_files :: nat

datatype scan_error =
    ResolveShare string string io_error
  | IdCollision path path

definition empty_catalog :: catalog where
  "empty_catalog =
    \<lparr>entries = [], children = [(ROOT_ID, [])], update_id = 0, file_count = 0, total_bytes = 0\<rparr>"

section \<open>Lookups\<close>

definition catalog_entry :: "catalog \<Rightarrow> string \<Rightarrow> entry option" where
  "catalog_entry c i = hm_get (entries c) i"

definition catalog_children :: "catalog \<Rightarrow> string \<Rightarrow> entry list option" where
  "catalog_children c i =
    map_option (\<lambda>ids. List.map_filter (hm_get (entries c)) ids) (hm_get (children c) i)"

definition child_count :: "catalog \<Rightarrow> string \<Rightarrow> nat" where
  "child_count c i = (case hm_get (children c) i of None \<Rightarrow> 0 | Some ids \<Rightarrow> length ids)"

definition has_same_content :: "catalog \<Rightarrow> catalog \<Rightarrow> bool" where
  "has_same_content c d = (hm_eq (entries c) (entries d) \<and> hm_eq (children c) (children d))"

section \<open>Insertion\<close>

definition insert_entry :: "entry \<Rightarrow> catalog \<Rightarrow> scan_error + catalog" where
  "insert_entry e c =
    (case hm_get (entries c) (e_id e) of
       Some previous \<Rightarrow> Inl (IdCollision (e_path previous) (e_path e))
     | None \<Rightarrow>
        (let siblings = (case hm_get (children c) (e_parent_id e) of Some ids \<Rightarrow> ids | None \<Rightarrow> []);
             kids = hm_insert (e_parent_id e) (siblings @ [e_id e]) (children c);
             kids' = (if e_kind e = Container then hm_or_default (e_id e) [] kids else kids)
         in Inr (c\<lparr>children := kids', entries := hm_insert (e_id e) e (entries c)\<rparr>)))"

section \<open>Order of children\<close>

definition entry_rank :: "entry_kind \<Rightarrow> nat" where
  "entry_rank k = (case k of Container \<Rightarrow> 0 | Media _ \<Rightarrow> 1)"

definition entry_cmp :: "entry \<Rightarrow> entry \<Rightarrow> cmp_result" where
  "entry_cmp left right =
    then_with (then_with (cmp (entry_rank (e_kind left)) (entry_rank (e_kind right)))
        (cmp (e_title left) (e_title right)))
      (cmp (e_id left) (e_id right))"

text \<open>
  \<open>self.entries[left]\<close> panics for an identifier without an entry, so sorting is \<open>None\<close> when a
  list of at least two children (the shortest a comparison is made on) names one.
\<close>

definition child_cmp :: "(string, entry) hash_map \<Rightarrow> string \<Rightarrow> string \<Rightarrow> cmp_result" where
  "child_cmp m left right = entry_cmp (the (hm_get m left)) (the (hm_get m right))"

definition sort_child_ids :: "(string, entry) hash_map \<Rightarrow> string list \<Rightarrow> string list option" where
  "sort_child_ids m ids =
    (if length ids < 2 then Some ids
     else if list_all (\<lambda>i. hm_get m i \<noteq> None) ids then Some (sort_by (child_cmp m) ids)
     else None)"

fun sort_all ::
  "(string, entry) hash_map \<Rightarrow> (string, string list) hash_map \<Rightarrow>
    (string, string list) hash_map option" where
  "sort_all m [] = Some []"
| "sort_all m ((p, ids) # rest) =
    Option.bind (sort_child_ids m ids) (\<lambda>ids'.
    Option.bind (sort_all m rest) (\<lambda>rest'. Some ((p, ids') # rest')))"

definition sort_children :: "catalog \<Rightarrow> catalog option" where
  "sort_children c =
    map_option (\<lambda>kids. c\<lparr>children := kids\<rparr>) (sort_all (entries c) (children c))"

section \<open>Fingerprints\<close>

fun hash_entries :: "u64 \<Rightarrow> entry list \<Rightarrow> u64" where
  "hash_entries h [] = h"
| "hash_entries h (e # es) =
    hash_entries
      (hash_value (hash_value (hash_value (hash_value (hash_value h (e_id e)) (e_parent_id e))
        (e_title e)) (to_le_bytes (e_modified_seconds e))) (to_le_bytes (e_size e))) es"

definition id_cmp :: "entry \<Rightarrow> entry \<Rightarrow> cmp_result" where
  "id_cmp left right = cmp (e_id left) (e_id right)"

definition content_fingerprint :: "catalog \<Rightarrow> u32" where
  "content_fingerprint c =
    fold_update_id (hash_entries FNV_OFFSET (sort_by id_cmp (map snd (entries c))))"

fun hash_children :: "(string, entry) hash_map \<Rightarrow> u64 \<Rightarrow> string list \<Rightarrow> u64" where
  "hash_children m h [] = h"
| "hash_children m h (i # ids) =
    (let h1 = hash_value h i in
     hash_children m
       (case hm_get m i of
          None \<Rightarrow> h1
        | Some e \<Rightarrow> hash_value (hash_value (hash_value h1 (e_title e))
            (to_le_bytes (e_modified_seconds e))) (to_le_bytes (e_size e))) ids)"

definition object_update_id :: "catalog \<Rightarrow> string \<Rightarrow> u32" where
  "object_update_id c i =
    (case hm_get (children c) i of
       None \<Rightarrow> update_id c
     | Some ids \<Rightarrow> fold_update_id (hash_children (entries c) (hash_value FNV_OFFSET i) ids))"

section \<open>Well-formedness\<close>

text \<open>
  What ties the two maps together: keys are the entries' own identifiers, exactly the root
  and the containers have a list of children, and a list of children names, without
  repetition, exactly the entries whose parent is that container.
\<close>

definition is_container :: "catalog \<Rightarrow> string \<Rightarrow> bool" where
  "is_container c p =
    (p = ROOT_ID \<or> (\<exists>e. hm_get (entries c) p = Some e \<and> e_kind e = Container))"

definition catalog_wf :: "catalog \<Rightarrow> bool" where
  "catalog_wf c =
    (hm_ok (entries c) \<and> hm_ok (children c)
     \<and> (\<forall>k e. hm_get (entries c) k = Some e \<longrightarrow>
          e_id e = k \<and> k \<noteq> ROOT_ID \<and> is_container c (e_parent_id e))
     \<and> (\<forall>p. hm_get (children c) p \<noteq> None \<longleftrightarrow> is_container c p)
     \<and> (\<forall>p ids. hm_get (children c) p = Some ids \<longrightarrow>
          distinct ids \<and>
          (\<forall>k. k \<in> set ids \<longleftrightarrow> (\<exists>e. hm_get (entries c) k = Some e \<and> e_parent_id e = p))))"

text \<open>Following parents from an entry leads to the root: no orphan and no cycle.\<close>

inductive rooted :: "catalog \<Rightarrow> string \<Rightarrow> bool" for c where
  rooted_top: "hm_get (entries c) k = Some e \<Longrightarrow> e_parent_id e = ROOT_ID \<Longrightarrow> rooted c k"
| rooted_below: "hm_get (entries c) k = Some e \<Longrightarrow> rooted c (e_parent_id e) \<Longrightarrow> rooted c k"

definition all_rooted :: "catalog \<Rightarrow> bool" where
  "all_rooted c = (\<forall>k e. hm_get (entries c) k = Some e \<longrightarrow> rooted c k)"

definition is_media :: "entry \<Rightarrow> bool" where
  "is_media e = (case e_kind e of Container \<Rightarrow> False | Media _ \<Rightarrow> True)"

abbreviation stored :: "catalog \<Rightarrow> entry list" where
  "stored c \<equiv> map snd (entries c)"

text \<open>The counters tell how many media entries there are and their bytes, at most \<open>u64::MAX\<close>.\<close>

definition counts_ok :: "catalog \<Rightarrow> bool" where
  "counts_ok c =
    (file_count c = length (filter is_media (stored c))
     \<and> unat (total_bytes c) =
         min (sum_list (map (\<lambda>e. unat (e_size e)) (filter is_media (stored c)))) (2 ^ 64 - 1))"

definition catalog_inv :: "catalog \<Rightarrow> bool" where
  "catalog_inv c = (catalog_wf c \<and> all_rooted c \<and> counts_ok c)"

lemma catalog_wf_entries: "catalog_wf c \<Longrightarrow> hm_ok (entries c)"
  and catalog_wf_children: "catalog_wf c \<Longrightarrow> hm_ok (children c)"
  by (simp_all add: catalog_wf_def)

lemma catalog_wf_entry:
  "catalog_wf c \<Longrightarrow> hm_get (entries c) k = Some e \<Longrightarrow>
    e_id e = k \<and> k \<noteq> ROOT_ID \<and> is_container c (e_parent_id e)"
  unfolding catalog_wf_def by blast

lemma catalog_wf_container:
  "catalog_wf c \<Longrightarrow> hm_get (children c) p \<noteq> None \<longleftrightarrow> is_container c p"
  unfolding catalog_wf_def by blast

lemma catalog_wf_ids:
  "catalog_wf c \<Longrightarrow> hm_get (children c) p = Some ids \<Longrightarrow>
    distinct ids \<and>
    (\<forall>k. k \<in> set ids \<longleftrightarrow> (\<exists>e. hm_get (entries c) k = Some e \<and> e_parent_id e = p))"
  unfolding catalog_wf_def by blast

lemma empty_catalog_inv: "catalog_inv empty_catalog"
proof -
  have "catalog_wf empty_catalog"
    unfolding catalog_wf_def by (simp add: empty_catalog_def hm_ok_def is_container_def)
  then show ?thesis
    by (simp add: catalog_inv_def all_rooted_def counts_ok_def) (simp add: empty_catalog_def)
qed

subsection \<open>Insertion keeps it\<close>

lemma insert_entry_ok:
  assumes "insert_entry e c = Inr c'"
  shows "hm_get (entries c) (e_id e) = None"
    and "entries c' = hm_insert (e_id e) e (entries c)"
    and "file_count c' = file_count c" "total_bytes c' = total_bytes c"
    and "update_id c' = update_id c"
  using assms by (auto simp: insert_entry_def Let_def split: option.splits)

lemma insert_entry_children:
  assumes "insert_entry e c = Inr c'" and "is_container c (e_parent_id e)" and "catalog_wf c"
    and "e_id e \<noteq> e_parent_id e" and "e_id e \<noteq> ROOT_ID"
  shows "hm_get (children c') p =
    (if p = e_parent_id e then map_option (\<lambda>ids. ids @ [e_id e]) (hm_get (children c) p)
     else if p = e_id e then (if e_kind e = Container then Some [] else None)
     else hm_get (children c) p)"
proof -
  obtain ids where ids: "hm_get (children c) (e_parent_id e) = Some ids"
    using catalog_wf_container [OF assms(3)] assms(2) by blast
  have "\<not> is_container c (e_id e)"
    using insert_entry_ok(1) [OF assms(1)] assms(5) by (simp add: is_container_def)
  then have "hm_get (children c) (e_id e) = None"
    using catalog_wf_container [OF assms(3)] by blast
  then show ?thesis
    using assms(1,4) ids
    by (auto simp: insert_entry_def Let_def hm_get_or_default split: option.splits if_splits)
qed

lemma is_container_insert:
  assumes "insert_entry e c = Inr c'"
  shows "is_container c' p \<longleftrightarrow> is_container c p \<or> (p = e_id e \<and> e_kind e = Container)"
  using insert_entry_ok [OF assms] by (auto simp: is_container_def)

lemma insert_entry_wf:
  assumes ins: "insert_entry e c = Inr c'" and wf: "catalog_wf c"
    and parent: "is_container c (e_parent_id e)" and new: "e_id e \<noteq> ROOT_ID"
  shows "catalog_wf c'"
proof -
  note ok = insert_entry_ok [OF ins]
  have neq: "e_id e \<noteq> e_parent_id e"
    using parent ok(1) new by (auto simp: is_container_def)
  note kids = insert_entry_children [OF ins parent wf neq new]
  note cont = is_container_insert [OF ins]
  have hm: "hm_ok (entries c')" "hm_ok (children c')"
    using ins catalog_wf_entries [OF wf] catalog_wf_children [OF wf] ok(2)
    by (auto simp: insert_entry_def Let_def split: option.splits)
  have fresh: "e' \<noteq> e_id e" if "is_container c e'" for e'
    using that ok(1) new by (auto simp: is_container_def)
  have ent: "e_id x = k \<and> k \<noteq> ROOT_ID \<and> is_container c' (e_parent_id x)"
    if "hm_get (entries c') k = Some x" for k x
    using that parent new catalog_wf_entry [OF wf, of k x]
    by (auto simp: ok(2) cont split: if_splits)
  have dom: "hm_get (children c') p \<noteq> None \<longleftrightarrow> is_container c' p" for p
    using parent fresh [of p] neq catalog_wf_container [OF wf, of p]
    by (cases "p = e_parent_id e"; cases "p = e_id e") (auto simp: kids cont)
  have lists: "distinct ids \<and>
      (\<forall>k. k \<in> set ids \<longleftrightarrow> (\<exists>x. hm_get (entries c') k = Some x \<and> e_parent_id x = p))"
    if "hm_get (children c') p = Some ids" for p ids
  proof (cases "p = e_parent_id e")
    case True
    with that obtain old where old: "hm_get (children c) p = Some old" "ids = old @ [e_id e]"
      by (auto simp: kids)
    then show ?thesis
      using catalog_wf_ids [OF wf old(1)] ok(1) True by (auto simp: ok(2))
  next
    case False
    show ?thesis
    proof (cases "p = e_id e")
      case True
      with that neq have "ids = []" by (auto simp: kids split: if_splits)
      moreover have "e_parent_id x \<noteq> p" if "hm_get (entries c') k = Some x" for k x
        using that True neq fresh catalog_wf_entry [OF wf, of k x]
        by (auto simp: ok(2) split: if_splits)
      ultimately show ?thesis by auto
    next
      case False
      with that \<open>p \<noteq> e_parent_id e\<close> have "hm_get (children c) p = Some ids" by (simp add: kids)
      then show ?thesis
        using catalog_wf_ids [OF wf, of p ids] \<open>p \<noteq> e_parent_id e\<close> ok(1) by (auto simp: ok(2))
    qed
  qed
  show ?thesis unfolding catalog_wf_def using hm ent dom lists by blast
qed

lemma insert_entry_keeps:
  assumes "insert_entry e c = Inr c'" and "hm_get (entries c) k = Some x"
  shows "hm_get (entries c') k = Some x"
  using insert_entry_ok(1,2) [OF assms(1)] assms(2) by auto

lemma rooted_insert:
  assumes "insert_entry e c = Inr c'" shows "rooted c k \<Longrightarrow> rooted c' k"
proof (induction rule: rooted.induct)
  case (rooted_top k x)
  then show ?case
    by (intro rooted.rooted_top [of c' k x]) (auto intro: insert_entry_keeps [OF assms])
next
  case (rooted_below k x)
  show ?case
    by (rule rooted.rooted_below [OF insert_entry_keeps [OF assms rooted_below.hyps(1)]
          rooted_below.IH])
qed

lemma insert_entry_rooted:
  assumes ins: "insert_entry e c = Inr c'" and all: "all_rooted c"
    and parent: "is_container c (e_parent_id e)"
  shows "all_rooted c'"
proof -
  note ok = insert_entry_ok [OF ins]
  have old: "rooted c' k" if "hm_get (entries c) k = Some x" for k x
    using that all rooted_insert [OF ins] by (auto simp: all_rooted_def)
  have "rooted c' (e_id e)"
  proof (cases "e_parent_id e = ROOT_ID")
    case True
    then show ?thesis by (intro rooted.rooted_top [of _ _ e]) (simp_all add: ok(2))
  next
    case False
    then have "rooted c' (e_parent_id e)" using parent old by (auto simp: is_container_def)
    then show ?thesis by (rule rooted.rooted_below [rotated]) (simp add: ok(2))
  qed
  then show ?thesis using old by (auto simp: all_rooted_def ok(2))
qed

lemma stored_insert:
  assumes "insert_entry e c = Inr c'" and "hm_ok (entries c)"
  shows "mset (stored c') = add_mset e (mset (stored c))"
  using insert_entry_ok [OF assms(1)] hm.mset_vals_put_new [OF assms(2)] by simp

lemma counts_ok_mset:
  "counts_ok c \<longleftrightarrow>
    file_count c = size (filter_mset is_media (mset (stored c)))
    \<and> unat (total_bytes c) = min (\<Sum>e\<in>#filter_mset is_media (mset (stored c)). unat (e_size e))
        (2 ^ 64 - 1)"
  unfolding counts_ok_def
  by (simp flip: mset_filter mset_map sum_mset_sum_list add: comp_def)

text \<open>A directory: only the maps change.\<close>

lemma insert_container_inv:
  assumes "insert_entry e c = Inr c'" and "catalog_inv c" and "is_container c (e_parent_id e)"
    and "e_id e \<noteq> ROOT_ID" and "e_kind e = Container"
  shows "catalog_inv c'"
  using assms insert_entry_wf insert_entry_rooted insert_entry_ok(3,4) [OF assms(1)]
    stored_insert [OF assms(1)]
  by (auto simp: catalog_inv_def counts_ok_mset catalog_wf_entries is_media_def)

text \<open>A file: the counters are raised first, then the entry goes in.\<close>

definition count_file :: "u64 \<Rightarrow> catalog \<Rightarrow> catalog" where
  "count_file len c =
    c\<lparr>file_count := file_count c + 1, total_bytes := saturating_add (total_bytes c) len\<rparr>"

lemma count_file_simps [simp]:
  "entries (count_file n c) = entries c" "children (count_file n c) = children c"
  "file_count (count_file n c) = Suc (file_count c)"
  "total_bytes (count_file n c) = saturating_add (total_bytes c) n"
  by (simp_all add: count_file_def)

lemma is_container_count_file [simp]: "is_container (count_file n c) p = is_container c p"
  by (simp add: is_container_def)

lemma catalog_wf_count_file [simp]: "catalog_wf (count_file n c) = catalog_wf c"
  by (simp add: catalog_wf_def)

lemma rooted_count_file: "rooted c k \<Longrightarrow> rooted (count_file n c) k"
  by (induction rule: rooted.induct) (auto intro: rooted.intros)

lemma insert_media_inv:
  assumes ins: "insert_entry e (count_file (e_size e) c) = Inr c'" and inv: "catalog_inv c"
    and parent: "is_container c (e_parent_id e)" and new: "e_id e \<noteq> ROOT_ID"
    and media: "e_kind e = Media k"
  shows "catalog_inv c'"
proof -
  have all: "all_rooted (count_file (e_size e) c)"
    using inv rooted_count_file by (auto simp: catalog_inv_def all_rooted_def)
  have wf: "catalog_wf c" and counts: "counts_ok c" using inv by (simp_all add: catalog_inv_def)
  have "catalog_wf c'" using insert_entry_wf [OF ins] wf parent new by simp
  moreover have "all_rooted c'" using insert_entry_rooted [OF ins all] parent by simp
  moreover have "counts_ok c'"
    using counts insert_entry_ok(3,4) [OF ins] stored_insert [OF ins] catalog_wf_entries [OF wf]
      media
    by (simp add: counts_ok_mset is_media_def machine_arith)
  ultimately show ?thesis by (simp add: catalog_inv_def)
qed

end
