(* ===== verification/Catalog_Content.thy ===== *)
theory Catalog_Content
  imports Catalog
begin

text \<open>
  Consequences of the ordering of a catalog and of its fingerprints, for
  \<open>sort_children\<close>, \<open>content_fingerprint\<close> and \<open>has_same_content\<close> of
  \<open>crates/joedlna-core/src/catalog.rs\<close>.

  The comparators of the code are interpreted as the strict comparators of \<open>Ordering\<close>: by
  identifiers (\<open>id_order\<close>) and by kind, title and identifier (\<open>child_order\<close>).  From that:
  sorting never panics on a well-formed catalog, a sorted catalog is determined by the finite
  function of its entries, and so is its update identifier, in whatever order the hash maps
  iterate.
\<close>

section \<open>The comparators meet the contract of a sort\<close>

definition own_entries :: "(string, entry) hash_map \<Rightarrow> entry set" where
  "own_entries m = {e. hm_get m (e_id e) = Some e}"

definition own_ids :: "(string, entry) hash_map \<Rightarrow> string set" where
  "own_ids m = {i. \<exists>e. hm_get m i = Some e \<and> e_id e = i}"

definition entry_key :: "entry \<Rightarrow> (nat \<times> string) \<times> string" where
  "entry_key e = ((entry_rank (e_kind e), e_title e), e_id e)"

lemma entry_cmp_key: "entry_cmp l r = cmp (entry_key l) (entry_key r)"
  by (simp add: entry_cmp_def entry_key_def then_with_cmp)

lemma child_cmp_key: "child_cmp m = (\<lambda>l r. cmp (entry_key (the (hm_get m l))) (entry_key (the (hm_get m r))))"
  by (simp add: fun_eq_iff child_cmp_def entry_cmp_key)

lemma inj_on_own_entries: "inj_on e_id (own_entries m)"
  by (rule inj_on_inverseI [where g = "\<lambda>i. the (hm_get m i)"]) (simp add: own_entries_def)

lemma inj_on_own_ids: "inj_on (\<lambda>i. entry_key (the (hm_get m i))) (own_ids m)"
  by (rule inj_on_inverseI [where g = snd]) (auto simp: own_ids_def entry_key_def)

interpretation id_order: strict_cmp id_cmp "own_entries m" for m
  unfolding id_cmp_def by (rule strict_cmp_key [OF inj_on_own_entries])

interpretation child_order: strict_cmp "child_cmp m" "own_ids m" for m
  unfolding child_cmp_key by (rule strict_cmp_key [OF inj_on_own_ids])

lemma stored_own: "catalog_wf c \<Longrightarrow> set (stored c) \<subseteq> own_entries (entries c)"
  using catalog_wf_entry [of c] hm.items_get [OF catalog_wf_entries, of c]
  by (auto simp: own_entries_def)

lemma child_ids_own:
  "catalog_wf c \<Longrightarrow> hm_get (children c) p = Some ids \<Longrightarrow> set ids \<subseteq> own_ids (entries c)"
  using catalog_wf_ids [of c p ids] catalog_wf_entry [of c] unfolding own_ids_def by blast

section \<open>Sorting\<close>

lemma sort_by_short: "length xs < 2 \<Longrightarrow> sort_by c xs = xs"
  by (cases xs rule: remdups_adj.cases) auto

lemma sort_child_ids_known:
  "\<forall>i \<in> set ids. hm_get m i \<noteq> None \<Longrightarrow> sort_child_ids m ids = Some (sort_by (child_cmp m) ids)"
  by (auto simp: sort_child_ids_def sort_by_short list_all_iff)

lemma sort_all_known:
  "\<forall>(p, ids) \<in> set kids. \<forall>i \<in> set ids. hm_get m i \<noteq> None \<Longrightarrow>
    sort_all m kids = Some (map (\<lambda>(p, ids). (p, sort_by (child_cmp m) ids)) kids)"
  by (induction m kids rule: sort_all.induct) (auto simp: sort_child_ids_known)

definition sorted_children :: "catalog \<Rightarrow> catalog" where
  "sorted_children c =
    c\<lparr>children := map (\<lambda>(p, ids). (p, sort_by (child_cmp (entries c)) ids)) (children c)\<rparr>"

lemma sort_children_total: "catalog_wf c \<Longrightarrow> sort_children c = Some (sorted_children c)"
proof -
  assume wf: "catalog_wf c"
  have "\<forall>(p, ids) \<in> set (children c). \<forall>i \<in> set ids. hm_get (entries c) i \<noteq> None"
    using child_ids_own [OF wf] hm.items_get [OF catalog_wf_children [OF wf]]
    by (fastforce simp: own_ids_def)
  then show ?thesis by (simp add: sort_children_def sort_all_known sorted_children_def)
qed

lemma sorted_children_fields [simp]:
  "entries (sorted_children c) = entries c" "update_id (sorted_children c) = update_id c"
  "file_count (sorted_children c) = file_count c" "total_bytes (sorted_children c) = total_bytes c"
  by (simp_all add: sorted_children_def)

lemma sorted_children_get:
  "hm_get (children (sorted_children c)) p =
    map_option (sort_by (child_cmp (entries c))) (hm_get (children c) p)"
  by (simp add: sorted_children_def map_of_map)

lemma rooted_cong:
  assumes eq: "hm_get (entries c) = hm_get (entries d)" and r: "rooted c k"
  shows "rooted d k"
  using r
proof (induction rule: rooted.induct)
  case (rooted_top k e)
  then show ?case by (intro rooted.rooted_top [of d k e]) (simp_all flip: eq)
next
  case (rooted_below k e)
  from rooted_below.hyps(1) have "hm_get (entries d) k = Some e" by (simp flip: eq)
  then show ?case using rooted_below.IH by (rule rooted.rooted_below)
qed

lemma is_container_cong: "hm_get (entries c) = hm_get (entries d) \<Longrightarrow> is_container c p = is_container d p"
  by (simp add: is_container_def)

lemma catalog_inv_cong:
  assumes "entries d = entries c" "children d = children c" "file_count d = file_count c"
    "total_bytes d = total_bytes c" and inv: "catalog_inv c"
  shows "catalog_inv d"
proof -
  have cont: "is_container d = is_container c"
    by (rule ext, rule is_container_cong) (simp add: assms)
  have "catalog_wf d" using inv unfolding catalog_inv_def catalog_wf_def assms cont by blast
  moreover have "rooted d k" if "rooted c k" for k
    using that by (rule rooted_cong [rotated]) (simp add: assms)
  then have "all_rooted d" using inv unfolding catalog_inv_def all_rooted_def assms by blast
  ultimately show ?thesis using inv by (simp add: catalog_inv_def counts_ok_def assms)
qed

lemma sorted_children_inv: "catalog_inv c \<Longrightarrow> catalog_inv (sorted_children c)"
proof -
  assume inv: "catalog_inv c"
  then have wf: "catalog_wf c" by (simp add: catalog_inv_def)
  let ?d = "sorted_children c"
  have hm: "hm_ok (entries ?d)" "hm_ok (children ?d)"
    using catalog_wf_children [OF wf] catalog_wf_entries [OF wf]
    by (simp_all add: sorted_children_def hm_ok_def comp_def case_prod_beta)
  have cont: "is_container ?d = is_container c" by (rule ext, rule is_container_cong) simp
  have ent: "e_id e = k \<and> k \<noteq> ROOT_ID \<and> is_container ?d (e_parent_id e)"
    if "hm_get (entries ?d) k = Some e" for k e
    unfolding cont using that catalog_wf_entry [OF wf] by simp
  have lists: "distinct ids \<and>
      (\<forall>k. k \<in> set ids \<longleftrightarrow> (\<exists>e. hm_get (entries ?d) k = Some e \<and> e_parent_id e = p))"
    if "hm_get (children ?d) p = Some ids" for p ids
  proof -
    from that obtain old where old: "hm_get (children c) p = Some old"
      and ids: "ids = sort_by (child_cmp (entries c)) old" by (auto simp: sorted_children_get)
    show ?thesis
      using catalog_wf_ids [OF wf old]
      unfolding ids set_sort_by distinct_sort_by sorted_children_fields .
  qed
  have dom: "hm_get (children ?d) p \<noteq> None \<longleftrightarrow> is_container ?d p" for p
    unfolding cont using catalog_wf_container [OF wf, of p] by (simp add: sorted_children_get)
  have "catalog_wf ?d" unfolding catalog_wf_def using hm ent lists dom by blast
  moreover have "all_rooted ?d"
    using inv rooted_cong [of c ?d] by (auto simp: catalog_inv_def all_rooted_def)
  ultimately show ?thesis using inv by (simp add: catalog_inv_def counts_ok_def)
qed

section \<open>Fingerprints do not see the order of iteration\<close>

lemma same_entries_mset:
  "catalog_wf c \<Longrightarrow> catalog_wf d \<Longrightarrow> hm_get (entries c) = hm_get (entries d) \<Longrightarrow>
    mset (stored c) = mset (stored d)"
  using hm.get_ext_mset_items [OF catalog_wf_entries catalog_wf_entries, of c d]
  by (metis mset_map)

lemma content_fingerprint_cong:
  assumes "catalog_wf c" "catalog_wf d" "hm_get (entries c) = hm_get (entries d)"
  shows "content_fingerprint c = content_fingerprint d"
  using id_order.sort_by_perm [OF stored_own [OF assms(1)] same_entries_mset [OF assms]]
  by (simp add: content_fingerprint_def)

section \<open>Finished catalogs\<close>

text \<open>What a scan ends with: children in order and the update identifier computed.\<close>

definition children_sorted :: "catalog \<Rightarrow> bool" where
  "children_sorted c =
    (\<forall>p ids. hm_get (children c) p = Some ids \<longrightarrow> sorted_by (child_cmp (entries c)) ids)"

definition finished :: "catalog \<Rightarrow> bool" where
  "finished c = (catalog_inv c \<and> children_sorted c \<and> update_id c = content_fingerprint c)"

lemma finished_wf: "finished c \<Longrightarrow> catalog_wf c"
  by (simp add: finished_def catalog_inv_def)

lemma sorted_children_sorted: "catalog_wf c \<Longrightarrow> children_sorted (sorted_children c)"
  using child_ids_own [of c] child_order.sorted_sort_by
  by (auto simp: children_sorted_def sorted_children_get)

lemma finish_catalog:
  assumes "catalog_inv c"
  shows "finished ((sorted_children c)\<lparr>update_id := content_fingerprint (sorted_children c)\<rparr>)"
    (is "finished ?d")
proof -
  have wf: "catalog_wf c" using assms by (simp add: catalog_inv_def)
  note inv = sorted_children_inv [OF assms]
  have "catalog_inv ?d" using inv by (rule catalog_inv_cong [rotated -1]) simp_all
  moreover have "children_sorted ?d"
    using sorted_children_sorted [OF wf] by (simp add: children_sorted_def)
  moreover have "content_fingerprint ?d = content_fingerprint (sorted_children c)"
    by (simp add: content_fingerprint_def)
  ultimately show ?thesis by (simp add: finished_def)
qed

text \<open>The children of a finished catalog follow from its entries.\<close>

lemma finished_children_cong:
  assumes "finished c" "finished d" "hm_get (entries c) = hm_get (entries d)"
  shows "hm_get (children c) = hm_get (children d)"
proof
  fix p
  note wf = finished_wf [OF assms(1)] finished_wf [OF assms(2)]
  have dom: "hm_get (children c) p \<noteq> None \<longleftrightarrow> hm_get (children d) p \<noteq> None"
    using catalog_wf_container wf is_container_cong [OF assms(3)] by blast
  show "hm_get (children c) p = hm_get (children d) p"
  proof (cases "hm_get (children c) p")
    case None
    then show ?thesis using dom by simp
  next
    case (Some ids)
    then obtain ids' where ids': "hm_get (children d) p = Some ids'" using dom by auto
    have "distinct ids" "distinct ids'" "set ids = set ids'"
      using catalog_wf_ids [OF wf(1) Some] catalog_wf_ids [OF wf(2) ids'] assms(3) by auto
    then have "mset ids = mset ids'" by (simp add: set_eq_iff_mset_eq_distinct)
    moreover have "child_cmp (entries c) = child_cmp (entries d)"
      using assms(3) by (simp add: fun_eq_iff child_cmp_def)
    ultimately have "ids = ids'"
      using child_order.sorted_unique [OF _ child_ids_own [OF wf(1) Some]] Some ids' assms(1,2)
      by (simp add: finished_def children_sorted_def)
    with Some ids' show ?thesis by simp
  qed
qed

lemma has_same_content_iff:
  assumes "catalog_wf c" "catalog_wf d"
  shows "has_same_content c d \<longleftrightarrow>
    hm_get (entries c) = hm_get (entries d) \<and> hm_get (children c) = hm_get (children d)"
  using assms by (simp add: has_same_content_def hm_eq_iff catalog_wf_entries catalog_wf_children)

lemma finished_counts_cong:
  assumes "finished c" "finished d" "hm_get (entries c) = hm_get (entries d)"
  shows "file_count c = file_count d \<and> total_bytes c = total_bytes d"
proof -
  note wf = finished_wf [OF assms(1)] finished_wf [OF assms(2)]
  have "counts_ok c" "counts_ok d" using assms(1,2) by (simp_all add: finished_def catalog_inv_def)
  then show ?thesis
    using same_entries_mset [OF wf assms(3)] unfolding counts_ok_mset by (metis unat_inj_eq)
qed

lemma finished_same_iff:
  "finished c \<Longrightarrow> finished d \<Longrightarrow> has_same_content c d \<longleftrightarrow> catalog_entry c = catalog_entry d"
  using has_same_content_iff [OF finished_wf finished_wf] finished_children_cong [of c d]
  by (auto simp: catalog_entry_def fun_eq_iff)

lemma finished_same_content:
  assumes "finished c" "finished d" "has_same_content c d"
  shows "catalog_entry c = catalog_entry d" "catalog_children c = catalog_children d"
    "update_id c = update_id d" "file_count c = file_count d" "total_bytes c = total_bytes d"
proof -
  note wf = finished_wf [OF assms(1)] finished_wf [OF assms(2)]
  from assms finished_same_iff show "catalog_entry c = catalog_entry d" by blast
  then have same: "hm_get (entries c) = hm_get (entries d)"
    by (simp add: catalog_entry_def fun_eq_iff)
  show "catalog_children c = catalog_children d"
    unfolding catalog_children_def same finished_children_cong [OF assms(1,2) same] ..
  show "update_id c = update_id d"
    using content_fingerprint_cong [OF wf same] assms by (simp add: finished_def)
  show "file_count c = file_count d" "total_bytes c = total_bytes d"
    using finished_counts_cong [OF assms(1,2) same] by simp_all
qed

end
