(* ===== verification/Scan.thy ===== *)
theory Scan
  imports Catalog_Content
begin

text \<open>
  The directory walk of \<open>crates/joedlna-core/src/catalog.rs\<close>: \<open>scan_share\<close> and the two public
  scans over \<open>scan_with_minimum_age\<close>.

  The walk is a \<open>while let\<close> over a stack of directories with an inner loop over the entries of
  each; its local variables are the record \<open>scan_state\<close>, the variables it never changes the
  record \<open>scan_ctx\<close>.  \<open>scan_loop\<close> is \<open>None\<close> where the loop does not return; \<open>Scan_Facts\<close> shows
  when it does.  A reading that fails is logged and skipped by the code; the log is not
  modelled.
\<close>

section \<open>Reading metadata\<close>

definition modified_seconds :: "metadata \<Rightarrow> u64" where
  "modified_seconds m =
    (case md_modified m of
       None \<Rightarrow> 0
     | Some t \<Rightarrow> if t < 0 then 0 else word_of_int (t div 1000000000))"

definition is_settled :: "metadata \<Rightarrow> duration \<Rightarrow> sys_time \<Rightarrow> bool" where
  "is_settled m minimum_age now =
    (minimum_age = 0 \<or>
     (case md_modified m of
        None \<Rightarrow> False
      | Some modified \<Rightarrow> modified \<le> now \<and> int minimum_age \<le> now - modified))"

definition is_hidden :: "string \<Rightarrow> bool" where
  "is_hidden name = (case name of [] \<Rightarrow> False | c # _ \<Rightarrow> c = CHR ''.'')"

section \<open>The walk\<close>

record scan_ctx =
  sc_share :: share_config
  sc_root :: path
  sc_root_hash :: u64
  sc_recursive :: bool
  sc_follow_symlinks :: bool
  sc_include_hidden :: bool
  sc_minimum_age :: duration

record scan_state =
  st_catalog :: catalog
  st_pending :: "(path \<times> string) list"
  st_visited :: "path list"
  st_unsettled :: nat

definition inspect :: "file_system \<Rightarrow> scan_ctx \<Rightarrow> path \<Rightarrow> io_error + metadata" where
  "inspect fs ctx p =
    (if sc_follow_symlinks ctx then fs_metadata fs p else fs_symlink_metadata fs p)"

definition relative_os_str :: "scan_ctx \<Rightarrow> path \<Rightarrow> string" where
  "relative_os_str ctx p =
    (case path_strip_prefix p (sc_root ctx) of Some r \<Rightarrow> rel_os_str r | None \<Rightarrow> abs_os_str p)"

definition directory_entry :: "scan_ctx \<Rightarrow> string \<Rightarrow> string \<Rightarrow> path \<Rightarrow> metadata \<Rightarrow> entry" where
  "directory_entry ctx parent_id title p m =
    \<lparr>e_id = object_id CHR ''d'' (sc_root_hash ctx) (relative_os_str ctx p),
     e_parent_id = parent_id, e_title = title, e_path = p, e_kind = Container,
     e_size = 0, e_modified_seconds = modified_seconds m\<rparr>"

definition media_entry :: "scan_ctx \<Rightarrow> string \<Rightarrow> string \<Rightarrow> path \<Rightarrow> metadata \<Rightarrow> media_kind_info \<Rightarrow> entry" where
  "media_entry ctx parent_id title p m k =
    \<lparr>e_id = object_id CHR ''f'' (sc_root_hash ctx) (relative_os_str ctx p),
     e_parent_id = parent_id,
     e_title = (case path_file_stem p of None \<Rightarrow> title | Some stem \<Rightarrow> to_string_lossy stem),
     e_path = p, e_kind = Media k, e_size = md_len m,
     e_modified_seconds = modified_seconds m\<rparr>"

text \<open>One turn of the inner loop; every \<open>continue\<close> leaves the state as it is.\<close>

definition scan_entry ::
  "file_system \<Rightarrow> scan_ctx \<Rightarrow> path \<Rightarrow> string \<Rightarrow> string option \<Rightarrow> scan_state \<Rightarrow>
    scan_error + scan_state" where
  "scan_entry fs ctx directory parent_id dir_entry s =
    (case dir_entry of
       None \<Rightarrow> Inr s
     | Some name \<Rightarrow>
       if \<not> sc_include_hidden ctx \<and> is_hidden name then Inr s
       else
         (let p = path_join directory name in
          case inspect fs ctx p of
            Inl _ \<Rightarrow> Inr s
          | Inr m \<Rightarrow>
            if is_symlink m \<and> \<not> sc_follow_symlinks ctx then Inr s
            else
              (let title = to_string_lossy name in
               if is_dir m then
                 (if \<not> sc_recursive ctx then Inr s
                  else
                    (let e = directory_entry ctx parent_id title p m in
                     bind_result (insert_entry e (st_catalog s)) (\<lambda>c.
                       Inr (s\<lparr>st_catalog := c, st_pending := (p, e_id e) # st_pending s\<rparr>))))
               else if is_file m then
                 (case media_kind p of
                    None \<Rightarrow> Inr s
                  | Some k \<Rightarrow>
                    if mk_category k \<notin> set (sh_media (sc_share ctx)) then Inr s
                    else if \<not> is_settled m (sc_minimum_age ctx) (fs_now fs p)
                      then Inr (s\<lparr>st_unsettled := st_unsettled s + 1\<rparr>)
                    else
                      (let e = media_entry ctx parent_id title p m k in
                       bind_result (insert_entry e (count_file (md_len m) (st_catalog s))) (\<lambda>c.
                         Inr (s\<lparr>st_catalog := c\<rparr>))))
               else Inr s)))"

fun scan_entries ::
  "file_system \<Rightarrow> scan_ctx \<Rightarrow> path \<Rightarrow> string \<Rightarrow> (string option) list \<Rightarrow> scan_state \<Rightarrow>
    scan_error + scan_state" where
  "scan_entries fs ctx directory parent_id [] s = Inr s"
| "scan_entries fs ctx directory parent_id (d # ds) s =
    bind_result (scan_entry fs ctx directory parent_id d s)
      (\<lambda>s'. scan_entries fs ctx directory parent_id ds s')"

text \<open>
  The head of the outer loop, once a directory has been popped: with symlinks followed a
  directory is entered once under its canonical path, and an unreadable one is skipped.
\<close>

definition enter_directory ::
  "file_system \<Rightarrow> scan_ctx \<Rightarrow> path \<Rightarrow> scan_state \<Rightarrow> (string option) list \<times> scan_state" where
  "enter_directory fs ctx directory s =
    (let listing = (case fs_read_dir fs directory of None \<Rightarrow> [] | Some ds \<Rightarrow> ds) in
     if sc_follow_symlinks ctx then
       (case fs_canonicalize fs directory of
          None \<Rightarrow> ([], s)
        | Some canonical \<Rightarrow>
          if canonical \<in> set (st_visited s) then ([], s)
          else (listing, s\<lparr>st_visited := canonical # st_visited s\<rparr>))
     else (listing, s))"

definition scan_step :: "file_system \<Rightarrow> scan_ctx \<Rightarrow> scan_state \<Rightarrow> scan_error + scan_state" where
  "scan_step fs ctx s =
    (case st_pending s of
       [] \<Rightarrow> Inr s
     | (directory, parent_id) # rest \<Rightarrow>
       (case enter_directory fs ctx directory (s\<lparr>st_pending := rest\<rparr>) of
          (ds, s') \<Rightarrow> scan_entries fs ctx directory parent_id ds s'))"

partial_function (option) scan_loop ::
  "file_system \<Rightarrow> scan_ctx \<Rightarrow> scan_state \<Rightarrow> (scan_error + scan_state) option" where
  "scan_loop fs ctx s =
    (if st_pending s = [] then Some (Inr s)
     else (case scan_step fs ctx s of
             Inl e \<Rightarrow> Some (Inl e)
           | Inr s' \<Rightarrow> scan_loop fs ctx s'))"

section \<open>Shares and whole scans\<close>

definition bind_scan ::
  "('e + 'a) option \<Rightarrow> ('a \<Rightarrow> ('e + 'b) option) \<Rightarrow> ('e + 'b) option" where
  "bind_scan r f =
    (case r of None \<Rightarrow> None | Some (Inl e) \<Rightarrow> Some (Inl e) | Some (Inr a) \<Rightarrow> f a)"

definition root_entry :: "share_config \<Rightarrow> path \<Rightarrow> metadata \<Rightarrow> entry" where
  "root_entry share root m =
    \<lparr>e_id = object_id CHR ''d'' (stable_os_hash (abs_os_str root)) [], e_parent_id = ROOT_ID,
     e_title = sh_name share, e_path = root, e_kind = Container, e_size = 0,
     e_modified_seconds = modified_seconds m\<rparr>"

definition share_ctx :: "share_config \<Rightarrow> scanner_config \<Rightarrow> duration \<Rightarrow> path \<Rightarrow> scan_ctx" where
  "share_ctx share opts minimum_age root =
    \<lparr>sc_share = share, sc_root = root, sc_root_hash = stable_os_hash (abs_os_str root),
     sc_recursive = recursive opts, sc_follow_symlinks = follow_symlinks opts,
     sc_include_hidden = include_hidden opts, sc_minimum_age = minimum_age\<rparr>"

definition scan_share ::
  "file_system \<Rightarrow> share_config \<Rightarrow> scanner_config \<Rightarrow> duration \<Rightarrow> catalog \<Rightarrow>
    (scan_error + (catalog \<times> nat)) option" where
  "scan_share fs share opts minimum_age c =
    (case fs_resolve fs (sh_path share) of
       Inl e \<Rightarrow> Some (Inl (ResolveShare (sh_name share) (sh_path share) e))
     | Inr root \<Rightarrow>
     (case fs_metadata fs root of
        Inl e \<Rightarrow> Some (Inl (ResolveShare (sh_name share) (abs_os_str root) e))
      | Inr m \<Rightarrow>
        (let e = root_entry share root m
         in bind_scan (Some (insert_entry e c)) (\<lambda>c'.
            bind_scan (scan_loop fs (share_ctx share opts minimum_age root)
                \<lparr>st_catalog = c', st_pending = [(root, e_id e)], st_visited = [],
                 st_unsettled = 0\<rparr>)
              (\<lambda>s. Some (Inr (st_catalog s, st_unsettled s)))))))"

fun scan_shares ::
  "file_system \<Rightarrow> scanner_config \<Rightarrow> duration \<Rightarrow> share_config list \<Rightarrow> catalog \<Rightarrow> nat \<Rightarrow>
    (scan_error + (catalog \<times> nat)) option" where
  "scan_shares fs opts minimum_age [] c n = Some (Inr (c, n))"
| "scan_shares fs opts minimum_age (share # rest) c n =
    bind_scan (scan_share fs share opts minimum_age c)
      (\<lambda>(c', k). scan_shares fs opts minimum_age rest c' (n + k))"

definition scan_with_minimum_age ::
  "file_system \<Rightarrow> config \<Rightarrow> duration \<Rightarrow> (scan_error + catalog_scan) option" where
  "scan_with_minimum_age fs cfg minimum_age =
    bind_scan (scan_shares fs (scanner cfg) minimum_age (shares cfg) empty_catalog 0) (\<lambda>(c, n).
      (case sort_children c of
         None \<Rightarrow> None
       | Some c' \<Rightarrow>
         Some (Inr \<lparr>scan_catalog = c'\<lparr>update_id := content_fingerprint c'\<rparr>,
                    unsettled_files = n\<rparr>)))"

definition scan :: "file_system \<Rightarrow> config \<Rightarrow> (scan_error + catalog) option" where
  "scan fs cfg =
    bind_scan (scan_with_minimum_age fs cfg 0) (\<lambda>r. Some (Inr (scan_catalog r)))"

definition scan_settled :: "file_system \<Rightarrow> config \<Rightarrow> (scan_error + catalog_scan) option" where
  "scan_settled fs cfg = scan_with_minimum_age fs cfg (settle_time cfg)"

end
