(* ===== verification/Scan_Facts.thy ===== *)
theory Scan_Facts
  imports Scan
begin

text \<open>
  Lemmas on the directory walk of \<open>Scan\<close>: the case analysis of one entry, an invariant rule
  for the loop, that the catalog stays well-formed and finishes sorted, what a published file
  satisfies, and that the walk returns on every finite tree.
\<close>

section \<open>One entry: ignore, withhold or store\<close>

text \<open>
  What the walk makes of a name in a directory, said declaratively: \<open>descends\<close> for a directory
  it enters, \<open>publishes\<close> for a file it publishes, \<open>withholds\<close> for one that is too young, and
  \<open>found\<close> for the entry that a name gives.
\<close>

definition dir_id :: "scan_ctx \<Rightarrow> path \<Rightarrow> string" where
  "dir_id ctx p = object_id CHR ''d'' (sc_root_hash ctx) (relative_os_str ctx p)"

definition visible :: "scan_ctx \<Rightarrow> string \<Rightarrow> bool" where
  "visible ctx name = (sc_include_hidden ctx \<or> \<not> is_hidden name)"

definition descends :: "file_system \<Rightarrow> scan_ctx \<Rightarrow> path \<Rightarrow> metadata \<Rightarrow> bool" where
  "descends fs ctx p m = (sc_recursive ctx \<and> inspect fs ctx p = Inr m \<and> is_dir m)"

definition shareable :: "file_system \<Rightarrow> scan_ctx \<Rightarrow> path \<Rightarrow> metadata \<Rightarrow> media_kind_info \<Rightarrow> bool" where
  "shareable fs ctx p m k =
    (inspect fs ctx p = Inr m \<and> is_file m \<and> media_kind p = Some k
     \<and> mk_category k \<in> set (sh_media (sc_share ctx)))"

definition publishes :: "file_system \<Rightarrow> scan_ctx \<Rightarrow> path \<Rightarrow> metadata \<Rightarrow> media_kind_info \<Rightarrow> bool" where
  "publishes fs ctx p m k =
    (shareable fs ctx p m k \<and> is_settled m (sc_minimum_age ctx) (fs_now fs p))"

definition withholds :: "file_system \<Rightarrow> scan_ctx \<Rightarrow> path \<Rightarrow> bool" where
  "withholds fs ctx p =
    (\<exists>m k. shareable fs ctx p m k \<and> \<not> is_settled m (sc_minimum_age ctx) (fs_now fs p))"

definition found :: "file_system \<Rightarrow> scan_ctx \<Rightarrow> path \<Rightarrow> string \<Rightarrow> entry \<Rightarrow> bool" where
  "found fs ctx directory name e =
    (visible ctx name \<and>
     ((\<exists>m. descends fs ctx (path_join directory name) m \<and>
        e = directory_entry ctx (dir_id ctx directory) (to_string_lossy name)
          (path_join directory name) m)
      \<or> (\<exists>m k. publishes fs ctx (path_join directory name) m k \<and>
        e = media_entry ctx (dir_id ctx directory) (to_string_lossy name)
          (path_join directory name) m k)))"

text \<open>The same as a function, which \<open>scan_entry\<close> follows.\<close>

datatype outcome = Ignored | Withheld | Stored entry

definition outcome_of :: "file_system \<Rightarrow> scan_ctx \<Rightarrow> path \<Rightarrow> string \<Rightarrow> outcome" where
  "outcome_of fs ctx directory name =
    (let p = path_join directory name in
     if \<not> visible ctx name then Ignored
     else case inspect fs ctx p of
       Inl _ \<Rightarrow> Ignored
     | Inr m \<Rightarrow>
       if is_dir m then
         (if sc_recursive ctx
          then Stored (directory_entry ctx (dir_id ctx directory) (to_string_lossy name) p m)
          else Ignored)
       else if is_file m then
         (case media_kind p of
            None \<Rightarrow> Ignored
          | Some k \<Rightarrow>
            if mk_category k \<notin> set (sh_media (sc_share ctx)) then Ignored
            else if \<not> is_settled m (sc_minimum_age ctx) (fs_now fs p) then Withheld
            else Stored (media_entry ctx (dir_id ctx directory) (to_string_lossy name) p m k))
       else Ignored)"

definition store_entry :: "entry \<Rightarrow> scan_state \<Rightarrow> scan_error + scan_state" where
  "store_entry e s =
    (if e_kind e = Container then
       bind_result (insert_entry e (st_catalog s)) (\<lambda>c.
         Inr (s\<lparr>st_catalog := c, st_pending := (e_path e, e_id e) # st_pending s\<rparr>))
     else
       bind_result (insert_entry e (count_file (e_size e) (st_catalog s))) (\<lambda>c.
         Inr (s\<lparr>st_catalog := c\<rparr>)))"

lemma symlink_is_neither: "is_symlink m \<Longrightarrow> \<not> is_dir m \<and> \<not> is_file m"
  by (simp add: is_symlink_def is_dir_def is_file_def)

lemma entry_simps [simp]:
  "e_kind (directory_entry ctx pid t p m) = Container"
  "e_path (directory_entry ctx pid t p m) = p"
  "e_parent_id (directory_entry ctx pid t p m) = pid"
  "e_id (directory_entry ctx pid t p m) = dir_id ctx p"
  "e_kind (media_entry ctx pid t p m k) = Media k"
  "e_path (media_entry ctx pid t p m k) = p"
  "e_parent_id (media_entry ctx pid t p m k) = pid"
  "e_size (media_entry ctx pid t p m k) = md_len m"
  by (simp_all add: directory_entry_def media_entry_def dir_id_def)

lemma scan_entry_outcome:
  "scan_entry fs ctx directory (dir_id ctx directory) (Some name) s =
    (case outcome_of fs ctx directory name of
       Ignored \<Rightarrow> Inr s
     | Withheld \<Rightarrow> Inr (s\<lparr>st_unsettled := st_unsettled s + 1\<rparr>)
     | Stored e \<Rightarrow> store_entry e s)"
  using symlink_is_neither
  by (auto simp: scan_entry_def outcome_of_def Let_def store_entry_def visible_def
      split: sum.splits option.splits)

lemma outcome_found: "outcome_of fs ctx directory name = Stored e \<longleftrightarrow> found fs ctx directory name e"
  by (auto simp: outcome_of_def found_def descends_def publishes_def shareable_def Let_def
      is_dir_def is_file_def split: sum.splits option.splits)

lemma outcome_withheld:
  "outcome_of fs ctx directory name = Withheld \<longleftrightarrow>
    visible ctx name \<and> withholds fs ctx (path_join directory name)"
  by (auto simp: outcome_of_def withholds_def shareable_def Let_def
      is_dir_def is_file_def split: sum.splits option.splits)

text \<open>The three outcomes of a turn of the inner loop that does not fail.\<close>

lemma scan_entry_cases:
  assumes "scan_entry fs ctx directory (dir_id ctx directory) d s = Inr s'"
  obtains (skip) "s' = s" "\<forall>name e. d = Some name \<longrightarrow> \<not> found fs ctx directory name e"
  | (withhold) name where "d = Some name" "visible ctx name"
      "withholds fs ctx (path_join directory name)"
      "s' = s\<lparr>st_unsettled := st_unsettled s + 1\<rparr>" "\<forall>e. \<not> found fs ctx directory name e"
  | (store) name e where "d = Some name" "found fs ctx directory name e" "store_entry e s = Inr s'"
      "\<forall>e'. found fs ctx directory name e' \<longrightarrow> e' = e"
proof (cases d)
  case None
  then show ?thesis using assms skip by (simp add: scan_entry_def)
next
  case (Some name)
  note run = assms [unfolded Some scan_entry_outcome]
  show ?thesis
  proof (cases "outcome_of fs ctx directory name")
    case Ignored
    then show ?thesis using run by (intro skip) (simp_all add: Some flip: outcome_found)
  next
    case Withheld
    then show ?thesis
      using run outcome_withheld [of fs ctx directory name]
      by (intro withhold [OF Some]) (simp_all flip: outcome_found)
  next
    case (Stored e)
    then show ?thesis using run by (intro store [OF Some, of e]) (simp_all flip: outcome_found)
  qed
qed

lemma scan_entries_append:
  "scan_entries fs ctx dir pid (ds @ es) s =
    bind_result (scan_entries fs ctx dir pid ds s) (\<lambda>s'. scan_entries fs ctx dir pid es s')"
proof (induction ds arbitrary: s)
  case (Cons d ds)
  then show ?case by (cases "scan_entry fs ctx dir pid d s") auto
qed simp

text \<open>An invariant of single entries is one of a whole directory listing.\<close>

lemma scan_entries_invariant:
  assumes step: "\<And>d s s'. P s \<Longrightarrow> scan_entry fs ctx dir pid d s = Inr s' \<Longrightarrow> P s'"
  shows "P s \<Longrightarrow> scan_entries fs ctx dir pid ds s = Inr s' \<Longrightarrow> P s'"
proof (induction ds arbitrary: s)
  case Nil
  then show ?case by simp
next
  case (Cons d ds)
  then show ?case by (auto simp: bind_result_Inr_iff intro: step)
qed

lemma enter_directory_state:
  "enter_directory fs ctx dir s = (ds, s') \<Longrightarrow>
    st_catalog s' = st_catalog s \<and> st_pending s' = st_pending s
    \<and> st_unsettled s' = st_unsettled s"
  by (auto simp: enter_directory_def Let_def split: if_splits option.splits)

section \<open>The loop\<close>

lemma scan_loop_invariant:
  assumes "scan_loop fs ctx s = Some r"
  shows "(\<forall>s s'. P s \<and> st_pending s \<noteq> [] \<and> scan_step fs ctx s = Inr s' \<longrightarrow> P s') \<longrightarrow> P s \<longrightarrow>
    (\<forall>t. r = Inr t \<longrightarrow> P t \<and> st_pending t = [])"
proof (rule scan_loop.raw_induct [OF _ assms, where P = "\<lambda>fs ctx s r.
    (\<forall>s s'. P s \<and> st_pending s \<noteq> [] \<and> scan_step fs ctx s = Inr s' \<longrightarrow> P s') \<longrightarrow> P s \<longrightarrow>
    (\<forall>t. r = Inr t \<longrightarrow> P t \<and> st_pending t = [])"], intro impI)
  fix loop fs ctx s r
  assume ih: "\<And>fs ctx s r. loop fs ctx s = Some r \<Longrightarrow>
      (\<forall>s s'. P s \<and> st_pending s \<noteq> [] \<and> scan_step fs ctx s = Inr s' \<longrightarrow> P s') \<longrightarrow> P s \<longrightarrow>
      (\<forall>t. r = Inr t \<longrightarrow> P t \<and> st_pending t = [])"
    and eq: "(if st_pending s = [] then Some (Inr s)
      else case scan_step fs ctx s of Inl e \<Rightarrow> Some (Inl e) | Inr s' \<Rightarrow> loop fs ctx s') = Some r"
    and step: "\<forall>s s'. P s \<and> st_pending s \<noteq> [] \<and> scan_step fs ctx s = Inr s' \<longrightarrow> P s'"
    and init: "P s"
  show "\<forall>t. r = Inr t \<longrightarrow> P t \<and> st_pending t = []"
  proof (cases "st_pending s = []")
    case True
    with eq init show ?thesis by auto
  next
    case False
    show ?thesis
    proof (cases "scan_step fs ctx s")
      case (Inl e)
      with eq False show ?thesis by auto
    next
      case (Inr s')
      with eq False have "loop fs ctx s' = Some r" by simp
      moreover have "P s'" using step init False Inr by blast
      ultimately show ?thesis using ih step by blast
    qed
  qed
qed

lemma scan_loop_rule:
  assumes "\<And>s s'. P s \<Longrightarrow> st_pending s \<noteq> [] \<Longrightarrow> scan_step fs ctx s = Inr s' \<Longrightarrow> P s'"
    and "P s" and "scan_loop fs ctx s = Some (Inr t)"
  shows "P t \<and> st_pending t = []"
  using scan_loop_invariant [OF assms(3), of P] assms(1,2) by blast

text \<open>
  The loop returns whenever its turns decrease in a well-founded order.
\<close>

lemma scan_loop_total:
  assumes "wf r"
    and "\<And>s s'. P s \<Longrightarrow> st_pending s \<noteq> [] \<Longrightarrow> scan_step fs ctx s = Inr s' \<Longrightarrow> (s', s) \<in> r \<and> P s'"
  shows "P s \<Longrightarrow> scan_loop fs ctx s \<noteq> None"
  using assms(1)
proof (induction s rule: wf_induct_rule)
  case (less s)
  show ?case
  proof (cases "st_pending s = []")
    case True
    then show ?thesis by (subst scan_loop.simps) simp
  next
    case False
    show ?thesis
    proof (cases "scan_step fs ctx s")
      case (Inl e)
      with False show ?thesis by (subst scan_loop.simps) simp
    next
      case (Inr s')
      with False less assms(2) [of s s'] have "scan_loop fs ctx s' \<noteq> None" by blast
      with False Inr show ?thesis by (subst scan_loop.simps) simp
    qed
  qed
qed

section \<open>What a walk keeps\<close>

definition listed :: "file_system \<Rightarrow> path \<Rightarrow> string \<Rightarrow> bool" where
  "listed fs directory name = (\<exists>ds. fs_read_dir fs directory = Some ds \<and> Some name \<in> set ds)"

text \<open>The directories the walk may reach, and the entries it may give.\<close>

inductive walked :: "file_system \<Rightarrow> scan_ctx \<Rightarrow> path \<Rightarrow> bool" for fs ctx where
  walked_root: "walked fs ctx (sc_root ctx)"
| walked_below: "walked fs ctx d \<Longrightarrow> listed fs d name \<Longrightarrow> found fs ctx d name e \<Longrightarrow>
    e_kind e = Container \<Longrightarrow> walked fs ctx (path_join d name)"

definition scanned :: "file_system \<Rightarrow> scan_ctx \<Rightarrow> entry \<Rightarrow> bool" where
  "scanned fs ctx e = (\<exists>d name. walked fs ctx d \<and> listed fs d name \<and> found fs ctx d name e)"

definition walk_inv :: "file_system \<Rightarrow> scan_ctx \<Rightarrow> catalog \<Rightarrow> scan_state \<Rightarrow> bool" where
  "walk_inv fs ctx c0 s =
    (catalog_inv (st_catalog s)
     \<and> (\<forall>p i. (p, i) \<in> set (st_pending s) \<longrightarrow>
          i = dir_id ctx p \<and> is_container (st_catalog s) i \<and> walked fs ctx p)
     \<and> (\<forall>k e. hm_get (entries c0) k = Some e \<longrightarrow> hm_get (entries (st_catalog s)) k = Some e)
     \<and> (\<forall>k e. hm_get (entries (st_catalog s)) k = Some e \<longrightarrow>
          hm_get (entries c0) k = Some e \<or> (e_id e = k \<and> scanned fs ctx e))
     \<and> (0 < st_unsettled s \<longrightarrow> (\<exists>d name. walked fs ctx d \<and> listed fs d name \<and>
          visible ctx name \<and> withholds fs ctx (path_join d name))))"

lemma found_fields:
  "found fs ctx d name e \<Longrightarrow>
    e_parent_id e = dir_id ctx d \<and> e_path e = path_join d name \<and> e_id e \<noteq> ROOT_ID
    \<and> (e_kind e = Container \<longrightarrow> e_id e = dir_id ctx (path_join d name))"
  by (auto simp: found_def dir_id_def) (simp_all add: media_entry_def)

lemma store_entry_ok:
  assumes "store_entry e s = Inr s'"
  shows "hm_get (entries (st_catalog s)) (e_id e) = None"
    and "entries (st_catalog s') = hm_insert (e_id e) e (entries (st_catalog s))"
    and "st_pending s' =
      (if e_kind e = Container then (e_path e, e_id e) # st_pending s else st_pending s)"
    and "st_unsettled s' = st_unsettled s" and "st_visited s' = st_visited s"
  using assms
  by (auto simp: store_entry_def bind_result_Inr_iff dest: insert_entry_ok(1,2) split: if_splits)

lemma store_entry_inv:
  assumes "store_entry e s = Inr s'" and "catalog_inv (st_catalog s)"
    and "is_container (st_catalog s) (e_parent_id e)" and "e_id e \<noteq> ROOT_ID"
  shows "catalog_inv (st_catalog s')"
proof (cases "e_kind e")
  case Container
  then show ?thesis using assms insert_container_inv by (auto simp: store_entry_def bind_result_Inr_iff)
next
  case (Media k)
  then show ?thesis using assms insert_media_inv by (auto simp: store_entry_def bind_result_Inr_iff)
qed

lemma store_entry_container:
  "store_entry e s = Inr s' \<Longrightarrow> is_container (st_catalog s) i \<Longrightarrow> is_container (st_catalog s') i"
  using store_entry_ok(1,2) [of e s s'] by (auto simp: is_container_def)

lemma walk_inv_store:
  assumes inv: "walk_inv fs ctx c0 s" and par: "is_container (st_catalog s) (dir_id ctx d)"
    and d: "walked fs ctx d" "listed fs d name" "found fs ctx d name e"
    and run: "store_entry e s = Inr s'"
  shows "walk_inv fs ctx c0 s'"
proof -
  note ok = store_entry_ok [OF run] and f = found_fields [OF d(3)]
  have sc: "scanned fs ctx e" using d by (auto simp: scanned_def)
  have "catalog_inv (st_catalog s')"
    using store_entry_inv [OF run] inv par f by (auto simp: walk_inv_def)
  moreover have "i = dir_id ctx p \<and> is_container (st_catalog s') i \<and> walked fs ctx p"
    if "(p, i) \<in> set (st_pending s')" for p i
  proof (cases "(p, i) \<in> set (st_pending s)")
    case True
    then show ?thesis using inv store_entry_container [OF run] by (auto simp: walk_inv_def)
  next
    case False
    then have new: "e_kind e = Container" "p = e_path e" "i = e_id e"
      using that by (auto simp: ok(3) split: if_splits)
    then show ?thesis
      using walked_below [OF d] f by (auto simp: is_container_def ok(2))
  qed
  moreover have "hm_get (entries (st_catalog s')) k = Some x" if "hm_get (entries c0) k = Some x" for k x
  proof -
    have old: "hm_get (entries (st_catalog s)) k = Some x"
      using that inv unfolding walk_inv_def by blast
    then have "k \<noteq> e_id e" using ok(1) by auto
    then show ?thesis using old by (simp add: ok(2))
  qed
  moreover have "hm_get (entries c0) k = Some x \<or> (e_id x = k \<and> scanned fs ctx x)"
    if "hm_get (entries (st_catalog s')) k = Some x" for k x
  proof (cases "k = e_id e")
    case True
    then show ?thesis using that sc by (simp add: ok(2))
  next
    case False
    then have "hm_get (entries (st_catalog s)) k = Some x" using that by (simp add: ok(2))
    then show ?thesis using inv unfolding walk_inv_def by blast
  qed
  ultimately show ?thesis using inv ok(4) unfolding walk_inv_def by presburger
qed

lemma walk_inv_entry:
  assumes inv: "walk_inv fs ctx c0 s" and par: "is_container (st_catalog s) (dir_id ctx d)"
    and d: "walked fs ctx d" "\<forall>name. n = Some name \<longrightarrow> listed fs d name"
    and run: "scan_entry fs ctx d (dir_id ctx d) n s = Inr s'"
  shows "walk_inv fs ctx c0 s' \<and> is_container (st_catalog s') (dir_id ctx d)"
  using run
proof (cases rule: scan_entry_cases)
  case skip
  then show ?thesis using inv par by simp
next
  case (withhold name)
  then have "\<exists>d name. walked fs ctx d \<and> listed fs d name \<and> visible ctx name \<and>
      withholds fs ctx (path_join d name)" using d by blast
  then show ?thesis using inv par unfolding walk_inv_def by (simp add: withhold(4))
next
  case (store name e)
  then show ?thesis using walk_inv_store [OF inv par d(1)] d(2) store_entry_container par by blast
qed

lemma walk_inv_entries:
  assumes "walk_inv fs ctx c0 s" "is_container (st_catalog s) (dir_id ctx d)" "walked fs ctx d"
    and "\<forall>name. Some name \<in> set ds \<longrightarrow> listed fs d name"
    and "scan_entries fs ctx d (dir_id ctx d) ds s = Inr s'"
  shows "walk_inv fs ctx c0 s'"
  using assms
proof (induction ds arbitrary: s)
  case (Cons n ds)
  then obtain s1 where "scan_entry fs ctx d (dir_id ctx d) n s = Inr s1"
    "scan_entries fs ctx d (dir_id ctx d) ds s1 = Inr s'" by (auto simp: bind_result_Inr_iff)
  then show ?case
    using Cons.IH [of s1] walk_inv_entry [OF Cons.prems(1-3), of n s1] Cons.prems(3,4) by auto
qed simp

text \<open>A turn of the outer loop, taken apart.\<close>

lemma scan_step_cases:
  assumes "scan_step fs ctx s = Inr s'" and "walk_inv fs ctx c0 s" and "st_pending s \<noteq> []"
  obtains d rest ds s1 where "st_pending s = (d, dir_id ctx d) # rest" "walked fs ctx d"
    "is_container (st_catalog s) (dir_id ctx d)"
    "enter_directory fs ctx d (s\<lparr>st_pending := rest\<rparr>) = (ds, s1)"
    "scan_entries fs ctx d (dir_id ctx d) ds s1 = Inr s'"
    "\<forall>name. Some name \<in> set ds \<longrightarrow> listed fs d name" "walk_inv fs ctx c0 s1"
proof -
  from assms(3) obtain d i rest where p: "st_pending s = (d, i) # rest" by (cases "st_pending s") auto
  then have i: "i = dir_id ctx d" "walked fs ctx d" "is_container (st_catalog s) (dir_id ctx d)"
    using assms(2) by (auto simp: walk_inv_def)
  obtain ds s1 where e: "enter_directory fs ctx d (s\<lparr>st_pending := rest\<rparr>) = (ds, s1)"
    by (metis surj_pair)
  have "\<forall>name. Some name \<in> set ds \<longrightarrow> listed fs d name"
    using e by (auto simp: enter_directory_def Let_def listed_def split: if_splits option.splits)
  moreover have "walk_inv fs ctx c0 s1"
    using enter_directory_state [OF e] assms(2) p by (auto simp: walk_inv_def)
  moreover have "scan_entries fs ctx d (dir_id ctx d) ds s1 = Inr s'"
    using assms(1) p e i by (simp add: scan_step_def)
  ultimately show ?thesis using that p i e by blast
qed

lemma walk_inv_step:
  assumes "walk_inv fs ctx c0 s" "st_pending s \<noteq> []" "scan_step fs ctx s = Inr s'"
  shows "walk_inv fs ctx c0 s'"
proof -
  obtain d rest ds s1 where *: "is_container (st_catalog s) (dir_id ctx d)" "walked fs ctx d"
    "enter_directory fs ctx d (s\<lparr>st_pending := rest\<rparr>) = (ds, s1)"
    "scan_entries fs ctx d (dir_id ctx d) ds s1 = Inr s'"
    "\<forall>name. Some name \<in> set ds \<longrightarrow> listed fs d name" "walk_inv fs ctx c0 s1"
    using scan_step_cases [OF assms(3,1,2)] by metis
  then show ?thesis
    using walk_inv_entries [of fs ctx c0 s1 d ds s'] enter_directory_state [OF *(3)] by simp
qed

section \<open>Nothing is missed\<close>

definition grows :: "scan_state \<Rightarrow> scan_state \<Rightarrow> bool" where
  "grows s s' =
    ((\<forall>k e. hm_get (entries (st_catalog s)) k = Some e \<longrightarrow>
        hm_get (entries (st_catalog s')) k = Some e)
     \<and> st_unsettled s \<le> st_unsettled s' \<and> (\<exists>new. st_pending s' = new @ st_pending s))"

lemma grows_refl: "grows s s"
  by (simp add: grows_def)

lemma grows_trans: "grows s t \<Longrightarrow> grows t u \<Longrightarrow> grows s u"
  by (fastforce simp: grows_def)

lemma scan_entry_grows:
  assumes "scan_entry fs ctx d (dir_id ctx d) n s = Inr s'"
  shows "grows s s'"
  using assms
proof (cases rule: scan_entry_cases)
  case (store name e)
  note ok = store_entry_ok [OF store(3)]
  have "hm_get (entries (st_catalog s')) k = Some x" if "hm_get (entries (st_catalog s)) k = Some x"
    for k x
  proof -
    have "k \<noteq> e_id e" using that ok(1) by auto
    then show ?thesis using that by (simp add: ok(2))
  qed
  moreover have "\<exists>new. st_pending s' = new @ st_pending s" by (simp add: ok(3))
  ultimately show ?thesis by (simp add: grows_def ok(4))
qed (simp_all add: grows_def)

lemma scan_entries_grows:
  assumes "scan_entries fs ctx d (dir_id ctx d) ds s = Inr s'"
  shows "grows s s'"
proof (rule scan_entries_invariant [where P = "grows s", OF _ grows_refl assms])
  fix n t t'
  assume "grows s t" and "scan_entry fs ctx d (dir_id ctx d) n t = Inr t'"
  from this(1) scan_entry_grows [OF this(2)] show "grows s t'" by (rule grows_trans)
qed

text \<open>What a directory's listing leaves behind once the inner loop is through it.\<close>

definition explored_name :: "file_system \<Rightarrow> scan_ctx \<Rightarrow> path \<Rightarrow> scan_state \<Rightarrow> string \<Rightarrow> bool" where
  "explored_name fs ctx d s name =
    ((\<forall>e. found fs ctx d name e \<longrightarrow> hm_get (entries (st_catalog s)) (e_id e) = Some e)
     \<and> (visible ctx name \<and> withholds fs ctx (path_join d name) \<longrightarrow> 0 < st_unsettled s))"

definition queued_name :: "file_system \<Rightarrow> scan_ctx \<Rightarrow> path \<Rightarrow> scan_state \<Rightarrow> string \<Rightarrow> bool" where
  "queued_name fs ctx d s name =
    (\<forall>e. found fs ctx d name e \<and> e_kind e = Container \<longrightarrow>
      (\<exists>i. (path_join d name, i) \<in> set (st_pending s)))"

lemma explored_name_grows: "explored_name fs ctx d s name \<Longrightarrow> grows s s' \<Longrightarrow> explored_name fs ctx d s' name"
  by (auto simp: explored_name_def grows_def)

lemma queued_name_grows: "queued_name fs ctx d s name \<Longrightarrow> grows s s' \<Longrightarrow> queued_name fs ctx d s' name"
  by (fastforce simp: queued_name_def grows_def)

lemma scan_entry_explores:
  assumes "scan_entry fs ctx d (dir_id ctx d) (Some name) s = Inr s'"
  shows "explored_name fs ctx d s' name \<and> queued_name fs ctx d s' name"
  using assms
proof (cases rule: scan_entry_cases)
  case skip
  have "s\<lparr>st_unsettled := st_unsettled s + 1\<rparr> \<noteq> s"
    by (auto dest: arg_cong [where f = st_unsettled])
  then have "\<not> withholds fs ctx (path_join d name)" if "visible ctx name"
    using that assms scan_entry_outcome [of fs ctx d name s] skip
      outcome_withheld [of fs ctx d name] by auto
  then show ?thesis using skip(2) unfolding explored_name_def queued_name_def by blast
next
  case (withhold n)
  have "0 < st_unsettled s'" unfolding withhold(4) by simp
  moreover have "\<not> found fs ctx d name e" for e using withhold(1,5) by blast
  ultimately show ?thesis unfolding explored_name_def queued_name_def by blast
next
  case (store n e)
  from store(1) have n: "n = name" by simp
  have "\<not> withholds fs ctx (path_join d name)"
    using store(2) unfolding n
    by (metis outcome_found outcome_withheld outcome.distinct(5) found_def)
  moreover have "hm_get (entries (st_catalog s')) (e_id e) = Some e"
    by (simp add: store_entry_ok(2) [OF store(3)])
  moreover have "(path_join d name, e_id e) \<in> set (st_pending s')" if "e_kind e = Container"
    using that found_fields [OF store(2)] by (simp add: store_entry_ok(3) [OF store(3)] n)
  ultimately show ?thesis
    using store(4) unfolding explored_name_def queued_name_def n by blast
qed

lemma scan_entries_explores:
  assumes "scan_entries fs ctx d (dir_id ctx d) ds s = Inr s'" and "Some name \<in> set ds"
  shows "explored_name fs ctx d s' name \<and> queued_name fs ctx d s' name"
  using assms
proof (induction ds arbitrary: s)
  case (Cons n ds)
  then obtain s1 where s1: "scan_entry fs ctx d (dir_id ctx d) n s = Inr s1"
    "scan_entries fs ctx d (dir_id ctx d) ds s1 = Inr s'" by (auto simp: bind_result_Inr_iff)
  show ?case
  proof (cases "n = Some name")
    case True
    then show ?thesis
      using scan_entry_explores [of fs ctx d name s s1] s1 scan_entries_grows [OF s1(2)]
        explored_name_grows queued_name_grows by blast
  next
    case False
    then show ?thesis using Cons.IH [OF s1(2)] Cons.prems(2) by auto
  qed
qed simp

definition explored :: "file_system \<Rightarrow> scan_ctx \<Rightarrow> scan_state \<Rightarrow> path \<Rightarrow> bool" where
  "explored fs ctx s d = (\<forall>name. listed fs d name \<longrightarrow> explored_name fs ctx d s name)"

definition below :: "file_system \<Rightarrow> scan_ctx \<Rightarrow> path \<Rightarrow> path \<Rightarrow> bool" where
  "below fs ctx d p = (\<exists>name e. listed fs d name \<and> found fs ctx d name e \<and>
    e_kind e = Container \<and> p = path_join d name)"

definition covered :: "file_system \<Rightarrow> scan_ctx \<Rightarrow> scan_state \<Rightarrow> bool" where
  "covered fs ctx s =
    (\<forall>p. walked fs ctx p \<longrightarrow>
      explored fs ctx s p \<or> (\<exists>q i. (q, i) \<in> set (st_pending s) \<and> (below fs ctx)\<^sup>*\<^sup>* q p))"

lemma walked_below_root: "walked fs ctx p \<Longrightarrow> (below fs ctx)\<^sup>*\<^sup>* (sc_root ctx) p"
proof (induction rule: walked.induct)
  case (walked_below d name e)
  then have "below fs ctx d (path_join d name)" by (auto simp: below_def)
  with walked_below.IH show ?case by (rule rtranclp.rtrancl_into_rtrancl)
qed simp

lemma covered_step:
  assumes inv: "walk_inv fs ctx c0 s" and ne: "st_pending s \<noteq> []"
    and cov: "covered fs ctx s" and run: "scan_step fs ctx s = Inr s'"
    and nofollow: "\<not> sc_follow_symlinks ctx"
  shows "covered fs ctx s'"
proof -
  obtain d rest ds s1 where p: "st_pending s = (d, dir_id ctx d) # rest"
    and e: "enter_directory fs ctx d (s\<lparr>st_pending := rest\<rparr>) = (ds, s1)"
    and es: "scan_entries fs ctx d (dir_id ctx d) ds s1 = Inr s'"
    using scan_step_cases [OF run inv ne] by metis
  from e nofollow have ds: "listed fs d name \<longleftrightarrow> Some name \<in> set ds" for name
    by (auto simp: enter_directory_def listed_def split: option.splits)
  have g: "grows (s\<lparr>st_pending := rest\<rparr>) s'"
    using enter_directory_state [OF e] scan_entries_grows [OF es] by (simp add: grows_def)
  have old: "explored fs ctx s' q" if "explored fs ctx s q" for q
    using that g by (auto simp: explored_def explored_name_def grows_def)
  have here: "explored fs ctx s' d"
    using scan_entries_explores [OF es] ds by (auto simp: explored_def)
  have next': "\<exists>i. (q, i) \<in> set (st_pending s')" if "below fs ctx d q" for q
    using that scan_entries_explores [OF es] ds by (fastforce simp: below_def queued_name_def)
  have rest': "(q, i) \<in> set (st_pending s')" if "(q, i) \<in> set rest" for q i
    using that g by (auto simp: grows_def)
  show ?thesis unfolding covered_def
  proof (intro allI impI)
    fix q assume "walked fs ctx q"
    then consider "explored fs ctx s q" | r i where "(r, i) \<in> set rest" "(below fs ctx)\<^sup>*\<^sup>* r q"
      | "(below fs ctx)\<^sup>*\<^sup>* d q" using cov p by (auto simp: covered_def)
    then show "explored fs ctx s' q \<or>
      (\<exists>r i. (r, i) \<in> set (st_pending s') \<and> (below fs ctx)\<^sup>*\<^sup>* r q)"
    proof cases
      case 3
      then show ?thesis by (cases rule: converse_rtranclpE) (use here next' in blast)+
    qed (use old rest' in blast)+
  qed
qed

section \<open>The walk returns\<close>

lemma scan_entries_pending:
  assumes "scan_entries fs ctx d (dir_id ctx d) ds s = Inr s'"
  shows "\<exists>new. st_pending s' = new @ st_pending s \<and> (\<forall>x \<in> set new. \<exists>name. fst x = path_join d name)"
proof (rule scan_entries_invariant [OF _ _ assms])
  fix n t t'
  assume t: "\<exists>new. st_pending t = new @ st_pending s \<and>
      (\<forall>x \<in> set new. \<exists>name. fst x = path_join d name)"
    and "scan_entry fs ctx d (dir_id ctx d) n t = Inr t'"
  from this(2) show "\<exists>new. st_pending t' = new @ st_pending s \<and>
      (\<forall>x \<in> set new. \<exists>name. fst x = path_join d name)"
  proof (cases rule: scan_entry_cases)
    case (store name e)
    then show ?thesis using t store_entry_ok(3) [OF store(3)] found_fields [OF store(2)]
      by (metis (no_types, lifting) append_Cons fst_conv set_ConsD)
  qed (use t in auto)
qed simp

definition pending_depths :: "nat \<Rightarrow> scan_state \<Rightarrow> nat multiset" where
  "pending_depths n s = mset (map (\<lambda>x. n - length (fst x)) (st_pending s))"

lemma scan_loop_returns_tree:
  assumes nofollow: "\<not> sc_follow_symlinks ctx"
    and deep: "\<And>p. walked fs ctx p \<Longrightarrow> length p \<le> n" and inv: "walk_inv fs ctx c0 s"
  shows "scan_loop fs ctx s \<noteq> None"
proof (rule scan_loop_total [where P = "walk_inv fs ctx c0" and
      r = "inv_image (mult less_than) (pending_depths n)"])
  show "wf (inv_image (mult less_than) (pending_depths n))"
    by (intro wf_inv_image wf_mult wf_less_than)
next
  fix s s'
  assume inv: "walk_inv fs ctx c0 s" and ne: "st_pending s \<noteq> []" and run: "scan_step fs ctx s = Inr s'"
  obtain d rest ds s1 where p: "st_pending s = (d, dir_id ctx d) # rest"
    and e: "enter_directory fs ctx d (s\<lparr>st_pending := rest\<rparr>) = (ds, s1)"
    and es: "scan_entries fs ctx d (dir_id ctx d) ds s1 = Inr s'"
    using scan_step_cases [OF run inv ne] by metis
  obtain new where new: "st_pending s' = new @ rest" "\<forall>x \<in> set new. \<exists>name. fst x = path_join d name"
    using scan_entries_pending [OF es] enter_directory_state [OF e] by auto
  have inv': "walk_inv fs ctx c0 s'" by (rule walk_inv_step [OF inv ne run])
  have small: "n - length (fst x) < n - length d" if "x \<in> set new" for x
  proof -
    have "walked fs ctx (fst x)" using inv' that new(1) by (cases x) (auto simp: walk_inv_def)
    then have "length (fst x) \<le> n" by (rule deep)
    moreover have "length (fst x) = Suc (length d)" using that new(2) by (auto simp: path_join_def)
    ultimately show ?thesis by simp
  qed
  have "(mset (map (\<lambda>x. n - length (fst x)) rest) + mset (map (\<lambda>x. n - length (fst x)) new),
      mset (map (\<lambda>x. n - length (fst x)) rest) + {#n - length d#}) \<in> mult less_than"
    by (rule one_step_implies_mult) (use small in auto)
  then have "(s', s) \<in> inv_image (mult less_than) (pending_depths n)"
    by (simp add: pending_depths_def p new(1) add.commute)
  with inv' show "(s', s) \<in> inv_image (mult less_than) (pending_depths n) \<and> walk_inv fs ctx c0 s'"
    by simp
qed (rule inv)

lemma scan_entries_visited:
  assumes "scan_entries fs ctx d (dir_id ctx d) ds s = Inr s'"
  shows "st_visited s' = st_visited s"
proof (rule scan_entries_invariant [where P = "\<lambda>t. st_visited t = st_visited s", OF _ refl assms])
  fix n t t'
  assume t: "st_visited t = st_visited s" and "scan_entry fs ctx d (dir_id ctx d) n t = Inr t'"
  from this(2) show "st_visited t' = st_visited s"
  proof (cases rule: scan_entry_cases)
    case skip
    show ?thesis by (simp only: skip(1) t)
  next
    case (withhold name)
    have "st_visited t' = st_visited t" unfolding withhold(4) by simp
    then show ?thesis by (simp only: t)
  next
    case (store name e)
    show ?thesis by (simp only: store_entry_ok(5) [OF store(3)] t)
  qed
qed

lemma scan_loop_returns_links:
  assumes follow: "sc_follow_symlinks ctx" and fin: "finite (ran (fs_canonicalize fs))"
    and inv: "walk_inv fs ctx c0 s"
  shows "scan_loop fs ctx s \<noteq> None"
proof -
  let ?left = "\<lambda>s. card (ran (fs_canonicalize fs) - set (st_visited s))"
  let ?r = "measures [?left, \<lambda>s. length (st_pending s)]"
  show ?thesis
  proof (rule scan_loop_total [where P = "walk_inv fs ctx c0" and r = ?r])
    fix s s'
    assume inv: "walk_inv fs ctx c0 s" and ne: "st_pending s \<noteq> []"
      and run: "scan_step fs ctx s = Inr s'"
    obtain d rest ds s1 where p: "st_pending s = (d, dir_id ctx d) # rest"
      and e: "enter_directory fs ctx d (s\<lparr>st_pending := rest\<rparr>) = (ds, s1)"
      and es: "scan_entries fs ctx d (dir_id ctx d) ds s1 = Inr s'"
      using scan_step_cases [OF run inv ne] by metis
    have "(s', s) \<in> ?r"
    proof (cases "ds = [] \<and> s1 = s\<lparr>st_pending := rest\<rparr>")
      case True
      then have "s' = s\<lparr>st_pending := rest\<rparr>" using es by simp
      then show ?thesis using p by simp
    next
      case False
      then obtain q where q: "fs_canonicalize fs d = Some q" "q \<notin> set (st_visited s)"
        "st_visited s1 = q # st_visited s"
        using e follow by (auto simp: enter_directory_def split: option.splits if_splits)
      then have "ran (fs_canonicalize fs) - set (st_visited s') \<subset>
          ran (fs_canonicalize fs) - set (st_visited s)"
        using scan_entries_visited [OF es] by (auto simp: ran_def)
      then have "?left s' < ?left s" using fin by (intro psubset_card_mono) auto
      then show ?thesis by simp
    qed
    then show "(s', s) \<in> ?r \<and> walk_inv fs ctx c0 s'" using walk_inv_step [OF inv ne run] by simp
  qed (simp, rule inv)
qed

section \<open>Whole scans\<close>

text \<open>
  The entries that a share gives and whether it holds a file that is too young, read off the
  file system and not off the loop.
\<close>

definition share_gives ::
  "file_system \<Rightarrow> scanner_config \<Rightarrow> duration \<Rightarrow> share_config \<Rightarrow> entry \<Rightarrow> bool" where
  "share_gives fs opts age share e =
    (\<exists>root m. fs_resolve fs (sh_path share) = Inr root \<and> fs_metadata fs root = Inr m \<and>
      (e = root_entry share root m \<or> scanned fs (share_ctx share opts age root) e))"

definition share_withholds ::
  "file_system \<Rightarrow> scanner_config \<Rightarrow> duration \<Rightarrow> share_config \<Rightarrow> bool" where
  "share_withholds fs opts age share =
    (\<exists>root d name. fs_resolve fs (sh_path share) = Inr root
      \<and> walked fs (share_ctx share opts age root) d \<and> listed fs d name
      \<and> visible (share_ctx share opts age root) name
      \<and> withholds fs (share_ctx share opts age root) (path_join d name))"

lemma share_ctx_simps [simp]:
  "sc_share (share_ctx share opts age root) = share"
  "sc_root (share_ctx share opts age root) = root"
  "sc_recursive (share_ctx share opts age root) = recursive opts"
  "sc_follow_symlinks (share_ctx share opts age root) = follow_symlinks opts"
  "sc_include_hidden (share_ctx share opts age root) = include_hidden opts"
  "sc_minimum_age (share_ctx share opts age root) = age"
  by (simp_all add: share_ctx_def)

lemma root_entry_simps [simp]:
  "e_kind (root_entry share root m) = Container" "e_parent_id (root_entry share root m) = ROOT_ID"
  "e_path (root_entry share root m) = root"
  by (simp_all add: root_entry_def)

lemma root_entry_id: "e_id (root_entry share root m) = dir_id (share_ctx share opts age root) root"
  by (simp add: root_entry_def dir_id_def relative_os_str_def share_ctx_def rel_os_str_def
      path_strip_prefix_join [where rel = "[]", simplified])

lemma dir_id_not_root [simp]: "dir_id ctx p \<noteq> ROOT_ID"
  by (simp add: dir_id_def)

abbreviation share_start :: "share_config \<Rightarrow> path \<Rightarrow> metadata \<Rightarrow> catalog \<Rightarrow> scan_state" where
  "share_start share root m c \<equiv>
    \<lparr>st_catalog = c, st_pending = [(root, e_id (root_entry share root m))], st_visited = [],
     st_unsettled = 0\<rparr>"

lemma share_start_inv:
  assumes "insert_entry (root_entry share root m) c = Inr c1" and "catalog_inv c"
  shows "walk_inv fs (share_ctx share opts age root) c1 (share_start share root m c1)"
proof -
  have "catalog_inv c1"
    by (rule insert_container_inv [OF assms]) (simp_all add: is_container_def root_entry_def)
  moreover have "is_container c1 (e_id (root_entry share root m))"
    using is_container_insert [OF assms(1)] by simp
  moreover have "walked fs (share_ctx share opts age root) root"
    using walked_root [of fs "share_ctx share opts age root"] by simp
  ultimately show ?thesis
    by (simp add: walk_inv_def root_entry_id [of share root m opts age])
qed

lemma scan_share_Inr:
  assumes "scan_share fs share opts age c = Some (Inr (c', n))"
  obtains root m c1 s where "fs_resolve fs (sh_path share) = Inr root" "fs_metadata fs root = Inr m"
    "insert_entry (root_entry share root m) c = Inr c1"
    "scan_loop fs (share_ctx share opts age root) (share_start share root m c1) = Some (Inr s)"
    "c' = st_catalog s" "n = st_unsettled s"
  using assms
  by (auto simp: scan_share_def bind_scan_def Let_def split: sum.splits option.splits)

lemma scan_share_sound:
  assumes run: "scan_share fs share opts age c = Some (Inr (c', n))" and inv: "catalog_inv c"
  shows "catalog_inv c'"
    and "hm_get (entries c) k = Some e \<Longrightarrow> hm_get (entries c') k = Some e"
    and "hm_get (entries c') k = Some e \<Longrightarrow>
      hm_get (entries c) k = Some e \<or> (e_id e = k \<and> share_gives fs opts age share e)"
    and "0 < n \<Longrightarrow> share_withholds fs opts age share"
proof -
  obtain root m c1 s where r: "fs_resolve fs (sh_path share) = Inr root" "fs_metadata fs root = Inr m"
    and ins: "insert_entry (root_entry share root m) c = Inr c1"
    and loop: "scan_loop fs (share_ctx share opts age root) (share_start share root m c1) = Some (Inr s)"
    and c': "c' = st_catalog s" "n = st_unsettled s" using scan_share_Inr [OF run] by metis
  let ?ctx = "share_ctx share opts age root"
  have w: "walk_inv fs ?ctx c1 s"
    using scan_loop_rule [where P = "walk_inv fs ?ctx c1", OF walk_inv_step share_start_inv [OF ins inv] loop]
    by simp
  have c1: "hm_get (entries c1) = (hm_get (entries c))(e_id (root_entry share root m) \<mapsto> root_entry share root m)"
    by (rule ext) (simp add: insert_entry_ok(2) [OF ins])
  show "catalog_inv c'" using w c' by (simp add: walk_inv_def)
  show "hm_get (entries c') k = Some e" if old: "hm_get (entries c) k = Some e"
  proof -
    have "k \<noteq> e_id (root_entry share root m)"
      using old insert_entry_ok(1) [OF ins] by (metis option.distinct(1))
    then have "hm_get (entries c1) k = Some e" using old unfolding c1 by simp
    then show ?thesis using w unfolding walk_inv_def c' by blast
  qed
  show "hm_get (entries c) k = Some e \<or> (e_id e = k \<and> share_gives fs opts age share e)"
    if held: "hm_get (entries c') k = Some e"
  proof -
    consider "hm_get (entries c1) k = Some e" | "e_id e = k" "scanned fs ?ctx e"
      using held w unfolding walk_inv_def c' by blast
    then show ?thesis
    proof cases
      case 1
      then show ?thesis unfolding c1 share_gives_def using r by (cases "k = e_id (root_entry share root m)") auto
    qed (use r in \<open>auto simp: share_gives_def\<close>)
  qed
  show "share_withholds fs opts age share" if "0 < n"
    using that w r unfolding walk_inv_def share_withholds_def c' by blast
qed

lemma scan_share_complete:
  assumes run: "scan_share fs share opts age c = Some (Inr (c', n))" and inv: "catalog_inv c"
    and nofollow: "\<not> follow_symlinks opts"
  shows "share_gives fs opts age share e \<Longrightarrow> hm_get (entries c') (e_id e) = Some e"
    and "share_withholds fs opts age share \<Longrightarrow> 0 < n"
proof -
  obtain root m c1 s where r: "fs_resolve fs (sh_path share) = Inr root" "fs_metadata fs root = Inr m"
    and ins: "insert_entry (root_entry share root m) c = Inr c1"
    and loop: "scan_loop fs (share_ctx share opts age root) (share_start share root m c1) = Some (Inr s)"
    and c': "c' = st_catalog s" "n = st_unsettled s" using scan_share_Inr [OF run] by metis
  let ?ctx = "share_ctx share opts age root"
  let ?P = "\<lambda>s. walk_inv fs ?ctx c1 s \<and> covered fs ?ctx s"
  have "covered fs ?ctx (share_start share root m c1)"
    using walked_below_root [of fs ?ctx] by (auto simp: covered_def)
  then have "?P s \<and> st_pending s = []"
    using share_start_inv [OF ins inv] walk_inv_step covered_step nofollow
    by (intro scan_loop_rule [OF _ _ loop, of ?P]) auto
  then have w: "walk_inv fs ?ctx c1 s"
    and ex: "explored_name fs ?ctx d s name" if "walked fs ?ctx d" "listed fs d name" for d name
    using that by (auto simp: covered_def explored_def)
  have "hm_get (entries c1) (e_id (root_entry share root m)) = Some (root_entry share root m)"
    by (simp add: insert_entry_ok(2) [OF ins])
  moreover have "walk_inv fs ?ctx c1 s"
    using scan_loop_rule [where P = "walk_inv fs ?ctx c1", OF walk_inv_step share_start_inv [OF ins inv] loop]
    by simp
  ultimately have "hm_get (entries c') (e_id (root_entry share root m)) = Some (root_entry share root m)"
    unfolding walk_inv_def c' by blast
  then show "hm_get (entries c') (e_id e) = Some e" if "share_gives fs opts age share e"
    using that r ex unfolding share_gives_def scanned_def explored_name_def c'
    by (metis sum.inject(2))
  show "0 < n" if "share_withholds fs opts age share"
    using that r(1) ex unfolding share_withholds_def explored_name_def c' by (metis sum.inject(2))
qed

lemma scan_shares_facts:
  assumes "scan_shares fs opts age sh c n = Some (Inr (c', n'))" and "catalog_inv c"
  shows "catalog_inv c' \<and> n \<le> n'
    \<and> (\<forall>k e. hm_get (entries c) k = Some e \<longrightarrow> hm_get (entries c') k = Some e)
    \<and> (\<forall>k e. hm_get (entries c') k = Some e \<longrightarrow> hm_get (entries c) k = Some e \<or>
        (e_id e = k \<and> (\<exists>share \<in> set sh. share_gives fs opts age share e)))
    \<and> (n < n' \<longrightarrow> (\<exists>share \<in> set sh. share_withholds fs opts age share))
    \<and> (\<not> follow_symlinks opts \<longrightarrow>
        (\<forall>share \<in> set sh. (\<forall>e. share_gives fs opts age share e \<longrightarrow>
            hm_get (entries c') (e_id e) = Some e)
          \<and> (share_withholds fs opts age share \<longrightarrow> n < n')))"
  using assms
proof (induction sh arbitrary: c n)
  case (Cons share sh)
  then obtain c1 k where s1: "scan_share fs share opts age c = Some (Inr (c1, k))"
    and s2: "scan_shares fs opts age sh c1 (n + k) = Some (Inr (c', n'))"
    by (auto simp: bind_scan_def split: option.splits sum.splits)
  note S = scan_share_sound [OF s1 Cons.prems(2)] and C = scan_share_complete [OF s1 Cons.prems(2)]
  note IH = Cons.IH [OF s2 S(1)]
  have "hm_get (entries c') i = Some e" if "hm_get (entries c) i = Some e" for i e
    using IH S(2) [OF that] by blast
  moreover have "hm_get (entries c) i = Some e \<or>
      (e_id e = i \<and> (\<exists>share \<in> set (share # sh). share_gives fs opts age share e))"
    if "hm_get (entries c') i = Some e" for i e
    using IH S(3) [of i e] that by (metis list.set_intros)
  moreover have "\<exists>share \<in> set (share # sh). share_withholds fs opts age share" if "n < n'"
  proof (cases "0 < k")
    case False
    then show ?thesis using IH that by auto
  qed (use S(4) in simp)
  moreover have "hm_get (entries c') (e_id e) = Some e"
    if "\<not> follow_symlinks opts" "s \<in> set (share # sh)" "share_gives fs opts age s e" for s e
    using that IH C(1) [OF that(1)] by (metis set_ConsD)
  moreover have "n < n'"
    if "\<not> follow_symlinks opts" "s \<in> set (share # sh)" "share_withholds fs opts age s" for s
  proof (cases "s = share")
    case True
    then show ?thesis using C(2) [OF that(1)] that(3) IH by auto
  next
    case False
    then have "n + k < n'" using that IH by auto
    then show ?thesis by simp
  qed
  ultimately show ?case using IH by (intro conjI) (blast | simp)+
qed auto

lemma scan_with_minimum_age_Inr:
  assumes "scan_with_minimum_age fs cfg age = Some (Inr r)"
  obtains c n c' where "scan_shares fs (scanner cfg) age (shares cfg) empty_catalog 0 = Some (Inr (c, n))"
    "catalog_inv c" "c' = sorted_children c"
    "r = \<lparr>scan_catalog = c'\<lparr>update_id := content_fingerprint c'\<rparr>, unsettled_files = n\<rparr>"
proof -
  obtain c n where run: "scan_shares fs (scanner cfg) age (shares cfg) empty_catalog 0 = Some (Inr (c, n))"
    using assms by (auto simp: scan_with_minimum_age_def bind_scan_def split: option.splits sum.splits)
  have inv: "catalog_inv c" using scan_shares_facts [OF run empty_catalog_inv] by blast
  then have "sort_children c = Some (sorted_children c)"
    by (simp add: sort_children_total catalog_inv_def)
  then show ?thesis
    using that [OF run inv refl] assms run by (simp add: scan_with_minimum_age_def bind_scan_def)
qed

lemma scanned_catalog_finished:
  "scan_with_minimum_age fs cfg age = Some (Inr r) \<Longrightarrow> finished (scan_catalog r)"
  by (erule scan_with_minimum_age_Inr) (simp add: finish_catalog)

lemma scanned_catalog_sound:
  assumes "scan_with_minimum_age fs cfg age = Some (Inr r)"
    and "catalog_entry (scan_catalog r) k = Some e"
  shows "e_id e = k \<and> (\<exists>share \<in> set (shares cfg). share_gives fs (scanner cfg) age share e)"
  using assms(1)
proof (rule scan_with_minimum_age_Inr)
  fix c n c'
  assume run: "scan_shares fs (scanner cfg) age (shares cfg) empty_catalog 0 = Some (Inr (c, n))"
    and "c' = sorted_children c"
    "r = \<lparr>scan_catalog = c'\<lparr>update_id := content_fingerprint c'\<rparr>, unsettled_files = n\<rparr>"
  then have "hm_get (entries c) k = Some e" using assms(2) by (simp add: catalog_entry_def)
  moreover have "hm_get (entries empty_catalog) k = None" by (simp add: empty_catalog_def)
  ultimately show ?thesis using scan_shares_facts [OF run empty_catalog_inv] by (metis option.distinct(1))
qed

lemma scanned_catalog_complete:
  assumes "scan_with_minimum_age fs cfg age = Some (Inr r)" and "\<not> follow_symlinks (scanner cfg)"
    and "share \<in> set (shares cfg)" "share_gives fs (scanner cfg) age share e"
  shows "catalog_entry (scan_catalog r) (e_id e) = Some e"
  using assms(1)
proof (rule scan_with_minimum_age_Inr)
  fix c n c'
  assume run: "scan_shares fs (scanner cfg) age (shares cfg) empty_catalog 0 = Some (Inr (c, n))"
    and "c' = sorted_children c"
    "r = \<lparr>scan_catalog = c'\<lparr>update_id := content_fingerprint c'\<rparr>, unsettled_files = n\<rparr>"
  then show ?thesis
    using scan_shares_facts [OF run empty_catalog_inv] assms(2-4) by (simp add: catalog_entry_def)
qed

lemma scanned_unsettled:
  assumes "scan_with_minimum_age fs cfg age = Some (Inr r)"
  shows "0 < unsettled_files r \<Longrightarrow>
      \<exists>share \<in> set (shares cfg). share_withholds fs (scanner cfg) age share"
    and "\<not> follow_symlinks (scanner cfg) \<Longrightarrow> share \<in> set (shares cfg) \<Longrightarrow>
      share_withholds fs (scanner cfg) age share \<Longrightarrow> 0 < unsettled_files r"
proof -
  obtain c n where run: "scan_shares fs (scanner cfg) age (shares cfg) empty_catalog 0 = Some (Inr (c, n))"
    and r: "unsettled_files r = n"
    using scan_with_minimum_age_Inr [OF assms] by (metis catalog_scan.select_convs(2))
  note facts = scan_shares_facts [OF run empty_catalog_inv]
  show "\<exists>share \<in> set (shares cfg). share_withholds fs (scanner cfg) age share"
    if "0 < unsettled_files r" using facts that r by simp
  show "0 < unsettled_files r" if "\<not> follow_symlinks (scanner cfg)" "share \<in> set (shares cfg)"
    "share_withholds fs (scanner cfg) age share" using facts that r by blast
qed

section \<open>Scans return\<close>

text \<open>
  Directory trees of bounded depth when symlinks are not followed, and finitely many canonical
  paths when they are.
\<close>

definition finite_tree :: "file_system \<Rightarrow> scanner_config \<Rightarrow> bool" where
  "finite_tree fs opts =
    (if follow_symlinks opts then finite (ran (fs_canonicalize fs))
     else \<forall>share age root. fs_resolve fs (sh_path share) = Inr root \<longrightarrow>
       (\<exists>n. \<forall>p. walked fs (share_ctx share opts age root) p \<longrightarrow> length p \<le> n))"

lemma scan_share_returns:
  assumes "finite_tree fs opts" and "catalog_inv c"
  shows "scan_share fs share opts age c \<noteq> None"
proof (cases "fs_resolve fs (sh_path share)")
  case (Inl e)
  then show ?thesis by (simp add: scan_share_def)
next
  case root: (Inr root)
  show ?thesis
  proof (cases "fs_metadata fs root")
    case (Inl e)
    then show ?thesis by (simp add: scan_share_def root)
  next
    case m: (Inr m)
    show ?thesis
    proof (cases "insert_entry (root_entry share root m) c")
      case (Inl e)
      then show ?thesis by (simp add: scan_share_def root m bind_scan_def Let_def)
    next
      case (Inr c1)
      let ?ctx = "share_ctx share opts age root"
      note inv = share_start_inv [OF Inr assms(2), of fs opts age]
      have "scan_loop fs ?ctx (share_start share root m c1) \<noteq> None"
      proof (cases "follow_symlinks opts")
        case True
        then show ?thesis
          using assms(1) by (intro scan_loop_returns_links [OF _ _ inv]) (simp_all add: finite_tree_def)
      next
        case False
        then obtain n where "\<And>p. walked fs ?ctx p \<Longrightarrow> length p \<le> n"
          using assms(1) root unfolding finite_tree_def by metis
        then show ?thesis using False by (intro scan_loop_returns_tree [OF _ _ inv]) simp_all
      qed
      then show ?thesis
        by (auto simp: scan_share_def root m Inr bind_scan_def Let_def split: sum.splits)
    qed
  qed
qed

lemma scan_shares_returns:
  "finite_tree fs opts \<Longrightarrow> catalog_inv c \<Longrightarrow> scan_shares fs opts age sh c n \<noteq> None"
proof (induction sh arbitrary: c n)
  case (Cons share sh)
  obtain x where x: "scan_share fs share opts age c = Some x"
    using scan_share_returns [OF Cons.prems] by blast
  show ?case
  proof (cases x)
    case (Inl e)
    then show ?thesis by (simp add: x bind_scan_def)
  next
    case (Inr y)
    obtain c1 k where y: "y = (c1, k)" by force
    have "catalog_inv c1" using scan_share_sound(1) [OF _ Cons.prems(2)] x Inr y by blast
    then show ?thesis using Cons.IH [OF Cons.prems(1), of c1 "n + k"] x Inr y
      by (simp add: bind_scan_def)
  qed
qed simp

lemma scan_with_minimum_age_returns:
  assumes "finite_tree fs (scanner cfg)"
  shows "scan_with_minimum_age fs cfg age \<noteq> None"
proof -
  obtain x where x: "scan_shares fs (scanner cfg) age (shares cfg) empty_catalog 0 = Some x"
    using scan_shares_returns [OF assms empty_catalog_inv] by blast
  show ?thesis
  proof (cases x)
    case (Inl e)
    then show ?thesis by (simp add: scan_with_minimum_age_def x bind_scan_def)
  next
    case (Inr y)
    obtain c n where y: "y = (c, n)" by force
    have "catalog_inv c" using scan_shares_facts [OF _ empty_catalog_inv] x Inr y by blast
    then have "sort_children c = Some (sorted_children c)"
      by (simp add: sort_children_total catalog_inv_def)
    then show ?thesis by (simp add: scan_with_minimum_age_def x Inr y bind_scan_def)
  qed
qed

end
