(* ===== verification/Core_Properties.thy ===== *)
theory Core_Properties
  imports Scan_Facts
begin

text \<open>
  What the core of the program guarantees: the catalog and the scans that fill it.  Each
  theorem is preceded by the property it states; most are short consequences of the component
  theories.  The section on the example gives a small file system on which the theorems on
  scans are applied.
\<close>

section \<open>An example\<close>

text \<open>
  One share \<open>/m\<close> for audio and video holding \<open>a.mp3\<close>, the hidden file \<open>.b.mp3\<close> and a text.
\<close>

definition example_share :: share_config where
  "example_share = \<lparr>sh_name = ''M'', sh_path = ''/m'', sh_media = [Audio, Video]\<rparr>"

definition example_config :: config where
  "example_config = \<lparr>friendly_name = ''J'',
     network = default_network,
     scanner = default_scanner, shares = [example_share]\<rparr>"

definition example_fs :: file_system where
  "example_fs =
    \<lparr>fs_resolve = (\<lambda>s. if s = ''/m'' then Inr [''m''] else Inl ''not found''),
     fs_stat = (\<lambda>s. if s = ''/m'' then Inr \<lparr>md_type = Dir, md_len = 0, md_modified = None\<rparr>
       else Inl ''not found''),
     fs_canonicalize = (\<lambda>p. if p = [''m''] then Some p else None),
     fs_metadata = (\<lambda>p. if p = [''m''] then Inr \<lparr>md_type = Dir, md_len = 0, md_modified = None\<rparr>
       else Inr \<lparr>md_type = File, md_len = 7, md_modified = Some 0\<rparr>),
     fs_symlink_metadata = (\<lambda>p. if p = [''m''] then Inr \<lparr>md_type = Dir, md_len = 0, md_modified = None\<rparr>
       else Inr \<lparr>md_type = File, md_len = 7, md_modified = Some 0\<rparr>),
     fs_read_dir = (\<lambda>p. if p = [''m''] then Some [Some ''.b.mp3'', None, Some ''t.txt'', Some ''a.mp3'']
       else None),
     fs_now = (\<lambda>p. 60000000000)\<rparr>"

text \<open>The two entries a scan of it finds, and the scan itself.\<close>

definition example_root :: entry where
  "example_root = root_entry example_share [''m''] \<lparr>md_type = Dir, md_len = 0, md_modified = None\<rparr>"

definition example_file :: "duration \<Rightarrow> entry" where
  "example_file age =
    media_entry (share_ctx example_share default_scanner age [''m'']) (e_id example_root)
      (to_string_lossy ''a.mp3'')
      [''m'', ''a.mp3''] \<lparr>md_type = File, md_len = 7, md_modified = Some 0\<rparr>
      (audio_kind ''audio/mpeg'')"

lemma example_kinds:
  "media_kind [''m'', ''a.mp3''] = Some (audio_kind ''audio/mpeg'')"
  "media_kind [''m'', ''t.txt''] = None"
  by code_simp+

lemma example_hidden: "is_hidden ''.b.mp3''" "\<not> is_hidden ''a.mp3''" "\<not> is_hidden ''t.txt''"
  by code_simp+

lemma example_ids: "e_id example_root \<noteq> ROOT_ID" "e_id (example_file age) \<noteq> ROOT_ID"
  "e_id (example_file age) \<noteq> e_id example_root"
  by (simp_all add: example_root_def example_file_def root_entry_def media_entry_def object_id_eq_iff)

lemma example_scan_share:
  assumes "age \<le> 60000000000"
  shows "\<exists>c. scan_share example_fs example_share default_scanner age empty_catalog = Some (Inr (c, 0))
    \<and> hm_get (entries c) (e_id (example_file age)) = Some (example_file age)"
proof -
  let ?ctx = "share_ctx example_share default_scanner age [''m'']"
  let ?m = "\<lparr>md_type = Dir, md_len = 0, md_modified = None\<rparr>"
  note fs = example_fs_def example_share_def
  obtain c1 where c1: "insert_entry example_root empty_catalog = Inr c1"
    "entries c1 = [(e_id example_root, example_root)]"
    by (simp add: insert_entry_def empty_catalog_def example_root_def root_entry_def)
  have "hm_get (entries (count_file 7 c1)) (e_id (example_file age)) = None"
    using c1(2) example_ids(3) by simp
  then obtain c2 where c2: "insert_entry (example_file age) (count_file 7 c1) = Inr c2"
    by (auto simp: insert_entry_def Let_def)
  have step: "scan_step example_fs ?ctx (share_start example_share [''m''] ?m c1) =
      Inr \<lparr>st_catalog = c2, st_pending = [], st_visited = [], st_unsettled = 0\<rparr>"
    using assms c2 example_kinds example_hidden
    by (simp add: scan_step_def enter_directory_def scan_entry_def inspect_def path_join_def fs
        default_scanner_def is_symlink_def is_dir_def is_file_def is_settled_def Let_def
        example_file_def example_root_def audio_kind_def)
  have "scan_loop example_fs ?ctx (share_start example_share [''m''] ?m c1) =
      Some (Inr \<lparr>st_catalog = c2, st_pending = [], st_visited = [], st_unsettled = 0\<rparr>)"
    by (subst scan_loop.simps, simp add: step, subst scan_loop.simps, simp)
  moreover have "hm_get (entries c2) (e_id (example_file age)) = Some (example_file age)"
    using insert_entry_ok(2) [OF c2] by simp
  ultimately show ?thesis
    using c1(1)
    by (auto simp: scan_share_def fs bind_scan_def Let_def example_root_def default_scanner_def)
qed

lemma example_scan:
  assumes "age \<le> 60000000000"
  shows "\<exists>r. scan_with_minimum_age example_fs example_config age = Some (Inr r)
    \<and> catalog_entry (scan_catalog r) (e_id (example_file age)) = Some (example_file age)
    \<and> unsettled_files r = 0"
proof -
  obtain c where c: "scan_share example_fs example_share default_scanner age empty_catalog = Some (Inr (c, 0))"
    "hm_get (entries c) (e_id (example_file age)) = Some (example_file age)"
    using example_scan_share [OF assms] by blast
  then have shares: "scan_shares example_fs (scanner example_config) age (shares example_config)
      empty_catalog 0 = Some (Inr (c, 0))"
    by (simp add: example_config_def bind_scan_def)
  then have "catalog_inv c" using scan_shares_facts [OF _ empty_catalog_inv] by blast
  then have "sort_children c = Some (sorted_children c)"
    by (simp add: sort_children_total catalog_inv_def)
  then show ?thesis
    using c(2) shares by (simp add: scan_with_minimum_age_def bind_scan_def catalog_entry_def)
qed

section \<open>Where a scan looks\<close>

lemma walked_below_share:
  "walked fs ctx p \<Longrightarrow>
    \<exists>rel. p = sc_root ctx @ rel \<and> (\<forall>n \<in> set rel. visible ctx n) \<and> (rel \<noteq> [] \<longrightarrow> sc_recursive ctx)"
proof (induction rule: walked.induct)
  case (walked_below d name e)
  then obtain rel where "d = sc_root ctx @ rel" "\<forall>n \<in> set rel. visible ctx n" by blast
  moreover have "visible ctx name" "sc_recursive ctx"
    using walked_below.hyps by (auto simp: found_def descends_def)
  ultimately show ?case by (intro exI [of _ "rel @ [name]"]) (auto simp: path_join_def)
qed simp

lemma walked_age:
  "walked fs (share_ctx share opts age root) p \<Longrightarrow> walked fs (share_ctx share opts age' root) p"
proof (induction rule: walked.induct)
  case walked_root
  then show ?case using walked.walked_root [of fs "share_ctx share opts age' root"] by simp
next
  case (walked_below d name e)
  then obtain m where "descends fs (share_ctx share opts age root) (path_join d name) m"
    "visible (share_ctx share opts age root) name" by (auto simp: found_def)
  then have "found fs (share_ctx share opts age' root) d name
      (directory_entry (share_ctx share opts age' root) (dir_id (share_ctx share opts age' root) d)
        (to_string_lossy name) (path_join d name) m)"
    by (auto simp: found_def descends_def visible_def inspect_def)
  then show ?case by (rule walked.walked_below [OF walked_below.IH walked_below.hyps(2)]) simp
qed

lemma entry_of_age:
  "directory_entry (share_ctx share opts age root) = directory_entry (share_ctx share opts 0 root)"
  "media_entry (share_ctx share opts age root) = media_entry (share_ctx share opts 0 root)"
  "dir_id (share_ctx share opts age root) = dir_id (share_ctx share opts 0 root)"
  by (simp_all add: fun_eq_iff directory_entry_def media_entry_def dir_id_def relative_os_str_def
      share_ctx_def)

lemma found_age:
  assumes "found fs (share_ctx share opts age root) d name e"
  shows "found fs (share_ctx share opts 0 root) d name e"
  using assms
  by (auto simp: found_def descends_def publishes_def shareable_def visible_def inspect_def
      is_settled_def entry_of_age [of share opts age root])

lemma share_gives_age: "share_gives fs opts age share e \<Longrightarrow> share_gives fs opts 0 share e"
  unfolding share_gives_def scanned_def using walked_age found_age by blast

section \<open>Properties of scans\<close>

text \<open>C3. A completed scan that does not follow symbolic links publishes exactly what the file
  system holds: an entry is in the catalog, under its own identifier, if and only if some
  configured share gives it, that is, it is the share's root, a directory the walk descends into
  or a settled media file of a category of the share, with the fields computed from its metadata,
  reached through listed and visible names.  Nothing else is published and nothing is missed.\<close>

theorem scan_exact:
  assumes "scan_with_minimum_age fs cfg age = Some (Inr r)" and "\<not> follow_symlinks (scanner cfg)"
  shows "catalog_entry (scan_catalog r) k = Some e \<longleftrightarrow>
    e_id e = k \<and> (\<exists>share \<in> set (shares cfg). share_gives fs (scanner cfg) age share e)"
  using scanned_catalog_sound [OF assms(1)] scanned_catalog_complete [OF assms] by blast

theorem scan_exact_witness:
  "\<exists>r. scan_with_minimum_age example_fs example_config 0 = Some (Inr r) \<and>
    (\<exists>share \<in> set (shares example_config).
      share_gives example_fs (scanner example_config) 0 share (example_file 0))"
proof -
  obtain r where r: "scan_with_minimum_age example_fs example_config 0 = Some (Inr r)"
    "catalog_entry (scan_catalog r) (e_id (example_file 0)) = Some (example_file 0)"
    using example_scan [of 0] by auto
  have "\<not> follow_symlinks (scanner example_config)"
    by (simp add: example_config_def default_scanner_def)
  then show ?thesis using scan_exact [OF r(1)] r by blast
qed

text \<open>C4. Every completed scan, with or without symbolic links followed, yields a finished
  catalog: the two maps agree, every entry hangs below the root without cycles, the file count and
  the saturated byte total are those of the media entries, the children of every container are in
  the code's order, and the update identifier is the fingerprint of the content.\<close>

theorem scan_finished:
  assumes "scan_with_minimum_age fs cfg age = Some (Inr r)"
  shows "finished (scan_catalog r)"
  using assms by (rule scanned_catalog_finished)

theorem scan_finished_witness:
  "\<exists>r. scan_with_minimum_age example_fs example_config 30 = Some (Inr r) \<and> finished (scan_catalog r)"
  using example_scan [of 30] scan_finished [of example_fs example_config 30] by auto

text \<open>C13. A published file is one the operator shared: in every catalog a scan yields, a media
  entry lies below the root of a configured share through names of which none is hidden (unless
  hidden files are included), directly in the root when the scan is not recursive; it was a
  regular file of an allowed category, its reported size is the file's length, and it had
  settled.\<close>

theorem scan_published_safe:
  assumes "scan_with_minimum_age fs cfg age = Some (Inr r)"
    and "catalog_entry (scan_catalog r) k = Some e" and "e_kind e = Media kind"
  shows "\<exists>share root rel m. share \<in> set (shares cfg) \<and> fs_resolve fs (sh_path share) = Inr root
    \<and> e_path e = root @ rel \<and> rel \<noteq> [] \<and> (length rel = 1 \<or> recursive (scanner cfg))
    \<and> (include_hidden (scanner cfg) \<or> (\<forall>n \<in> set rel. \<not> is_hidden n))
    \<and> inspect fs (share_ctx share (scanner cfg) age root) (e_path e) = Inr m \<and> is_file m
    \<and> media_kind (e_path e) = Some kind \<and> mk_category kind \<in> set (sh_media share)
    \<and> e_size e = md_len m \<and> is_settled m age (fs_now fs (e_path e))"
proof -
  obtain share root where share: "share \<in> set (shares cfg)" "fs_resolve fs (sh_path share) = Inr root"
    "scanned fs (share_ctx share (scanner cfg) age root) e"
    using scanned_catalog_sound [OF assms(1,2)] assms(3) by (auto simp: share_gives_def)
  let ?ctx = "share_ctx share (scanner cfg) age root"
  obtain d name where d: "walked fs ?ctx d" "found fs ?ctx d name e"
    using share(3) by (auto simp: scanned_def)
  obtain rel where rel: "d = root @ rel" "\<forall>n \<in> set rel. visible ?ctx n"
    "rel \<noteq> [] \<longrightarrow> recursive (scanner cfg)"
    using walked_below_share [OF d(1)] by auto
  from d(2) assms(3) obtain m where m: "visible ?ctx name" "publishes fs ?ctx (path_join d name) m kind"
    "e_path e = path_join d name" "e_size e = md_len m" by (auto simp: found_def)
  have "e_path e = root @ (rel @ [name])" using m(3) rel(1) by (simp add: path_join_def)
  moreover have "length (rel @ [name]) = 1 \<or> recursive (scanner cfg)" using rel(3) by auto
  moreover have "include_hidden (scanner cfg) \<or> (\<forall>n \<in> set (rel @ [name]). \<not> is_hidden n)"
    using rel(2) m(1) by (auto simp: visible_def)
  moreover have "inspect fs ?ctx (e_path e) = Inr m" "is_file m" "media_kind (e_path e) = Some kind"
    "mk_category kind \<in> set (sh_media share)" "is_settled m age (fs_now fs (e_path e))"
    using m(2,3) by (simp_all add: publishes_def shareable_def)
  ultimately show ?thesis using share m(4) by blast
qed

theorem scan_published_safe_witness:
  "\<exists>share root rel m. share \<in> set (shares example_config) \<and> fs_resolve example_fs (sh_path share) = Inr root
    \<and> e_path (example_file 30) = root @ rel \<and> rel \<noteq> []
    \<and> e_size (example_file 30) = md_len m \<and> is_settled m 30 (fs_now example_fs (e_path (example_file 30)))"
proof -
  obtain r where r: "scan_with_minimum_age example_fs example_config 30 = Some (Inr r)"
    "catalog_entry (scan_catalog r) (e_id (example_file 30)) = Some (example_file 30)"
    using example_scan [of 30] by auto
  have k: "e_kind (example_file 30) = Media (audio_kind ''audio/mpeg'')" by (simp add: example_file_def)
  show ?thesis using scan_published_safe [OF r k] by blast
qed

text \<open>C12. Scans return.  If directories nest to a bounded depth below every share (when links are
  not followed) or there are finitely many canonical paths (when they are, so that cycles of links
  are possible), a scan ends with a catalog or an error, and sorting the children never hits the
  panicking index.\<close>

theorem scan_returns:
  assumes "finite_tree fs (scanner cfg)"
  shows "\<exists>x. scan_with_minimum_age fs cfg age = Some x"
  using scan_with_minimum_age_returns [OF assms] by blast

theorem scan_returns_witness:
  "\<exists>x. scan_with_minimum_age example_fs
    (example_config\<lparr>scanner := default_scanner\<lparr>follow_symlinks := True\<rparr>\<rparr>) 30 = Some x"
proof (rule scan_returns)
  have "ran (fs_canonicalize example_fs) \<subseteq> {[''m'']}" by (auto simp: ran_def example_fs_def)
  then show "finite_tree example_fs
      (scanner (example_config\<lparr>scanner := default_scanner\<lparr>follow_symlinks := True\<rparr>\<rparr>))"
    by (simp add: finite_tree_def default_scanner_def finite_subset)
qed

text \<open>The number of unsettled files a scan reports, which decides whether the scanner polls
  again soon, is zero exactly when no share holds a visible media file that is too young.\<close>

theorem scan_unsettled:
  assumes "scan_with_minimum_age fs cfg age = Some (Inr r)" and "\<not> follow_symlinks (scanner cfg)"
  shows "unsettled_files r = 0 \<longleftrightarrow>
    \<not> (\<exists>share \<in> set (shares cfg). share_withholds fs (scanner cfg) age share)"
  using scanned_unsettled(1) [OF assms(1)] scanned_unsettled(2) [OF assms(1,2)] by auto

theorem scan_unsettled_witness:
  "\<not> (\<exists>share \<in> set (shares example_config).
    share_withholds example_fs (scanner example_config) 30000000000 share)"
proof -
  obtain r where r: "scan_with_minimum_age example_fs example_config 30000000000 = Some (Inr r)"
    "unsettled_files r = 0" using example_scan [of 30000000000] by auto
  have "\<not> follow_symlinks (scanner example_config)"
    by (simp add: example_config_def default_scanner_def)
  then show ?thesis using scan_unsettled [OF r(1)] r(2) by simp
qed

text \<open>Waiting for files to settle only withholds: on the same file system, whatever
  \<open>scan_settled\<close> publishes the plain \<open>scan\<close> publishes too, entry for entry.\<close>

theorem scan_settled_subset:
  assumes "scan_settled fs cfg = Some (Inr r)" and "scan fs cfg = Some (Inr c)"
    and "\<not> follow_symlinks (scanner cfg)" and "catalog_entry (scan_catalog r) k = Some e"
  shows "catalog_entry c k = Some e"
proof -
  obtain r' where r': "scan_with_minimum_age fs cfg 0 = Some (Inr r')" "c = scan_catalog r'"
    using assms(2) by (auto simp: scan_def bind_scan_def split: option.splits sum.splits)
  obtain share where "share \<in> set (shares cfg)"
    and gives: "share_gives fs (scanner cfg) (settle_time cfg) share e" and k: "e_id e = k"
    using scanned_catalog_sound [OF _ assms(4), of fs cfg "settle_time cfg"] assms(1)
    by (auto simp: scan_settled_def)
  from this(1) share_gives_age [OF gives] show ?thesis
    using scanned_catalog_complete [OF r'(1) assms(3)] k r'(2) by blast
qed

theorem scan_settled_subset_witness:
  "\<exists>c. scan example_fs example_config = Some (Inr c) \<and>
    catalog_entry c (e_id (example_file 30000000000)) = Some (example_file 30000000000)"
proof -
  have t: "settle_time example_config = 30000000000"
    by (simp add: settle_time_def from_secs_def example_config_def default_scanner_def)
  obtain r where r: "scan_settled example_fs example_config = Some (Inr r)"
    "catalog_entry (scan_catalog r) (e_id (example_file 30000000000)) = Some (example_file 30000000000)"
    using example_scan [of 30000000000] by (auto simp: scan_settled_def t)
  obtain c where c: "scan example_fs example_config = Some (Inr c)"
    using example_scan [of 0] by (auto simp: scan_def bind_scan_def)
  have "\<not> follow_symlinks (scanner example_config)"
    by (simp add: example_config_def default_scanner_def)
  from scan_settled_subset [OF r(1) c this r(2)] c show ?thesis by blast
qed

section \<open>Properties of catalogs\<close>

text \<open>Inserting keeps catalogs well-formed: adding an entry with a known parent to a
  well-formed catalog either reports the collision with the entry that has the same identifier,
  and nothing else, or gives a well-formed catalog in which exactly that entry is new and is the
  last child of its parent.\<close>

theorem insert_entry_correct:
  assumes "catalog_wf c" and "is_container c (e_parent_id e)" and "e_id e \<noteq> ROOT_ID"
  shows "case insert_entry e c of
      Inl x \<Rightarrow> (\<exists>old. catalog_entry c (e_id e) = Some old \<and> x = IdCollision (e_path old) (e_path e))
    | Inr c' \<Rightarrow> catalog_wf c' \<and> catalog_entry c' = (catalog_entry c)(e_id e \<mapsto> e)
        \<and> catalog_entry c (e_id e) = None
        \<and> hm_get (children c') (e_parent_id e) =
            map_option (\<lambda>ids. ids @ [e_id e]) (hm_get (children c) (e_parent_id e))"
proof (cases "insert_entry e c")
  case (Inl x)
  then show ?thesis by (auto simp: insert_entry_def catalog_entry_def Let_def split: option.splits)
next
  case (Inr c')
  note ok = insert_entry_ok [OF Inr]
  have neq: "e_id e \<noteq> e_parent_id e" using assms(2,3) ok(1) by (auto simp: is_container_def)
  have "catalog_entry c' = (catalog_entry c)(e_id e \<mapsto> e)"
    by (rule ext) (simp add: catalog_entry_def ok(2))
  then show ?thesis
    using insert_entry_wf [OF Inr assms] ok(1) Inr
      insert_entry_children [OF Inr assms(2,1) neq assms(3), of "e_parent_id e"]
    by (simp add: catalog_entry_def)
qed

theorem insert_entry_correct_witness:
  "catalog_wf empty_catalog \<and> (case insert_entry example_root empty_catalog of
      Inl x \<Rightarrow> False | Inr c' \<Rightarrow> catalog_wf c')"
proof -
  have wf: "catalog_wf empty_catalog" using empty_catalog_inv by (simp add: catalog_inv_def)
  have p: "is_container empty_catalog (e_parent_id example_root)"
    by (simp add: is_container_def example_root_def)
  have "catalog_entry empty_catalog (e_id example_root) = None"
    by (simp add: catalog_entry_def empty_catalog_def)
  then show ?thesis
    using insert_entry_correct [OF wf p example_ids(1)] wf by (auto split: sum.splits)
qed

text \<open>C23. Comparing catalogs by content is sound and complete: on the results of scans,
  \<open>has_same_content\<close> holds if and only if the entries are the same, and then the children lists,
  the update identifier, the file count and the byte total are the same too, whatever order the
  hash maps iterate in.  So the server never drops a change, and an unchanged tree never looks
  changed.\<close>

theorem has_same_content_correct:
  assumes "finished c" "finished d"
  shows "(has_same_content c d \<longleftrightarrow> catalog_entry c = catalog_entry d)
    \<and> (has_same_content c d \<longrightarrow>
        catalog_children c = catalog_children d \<and> update_id c = update_id d
        \<and> file_count c = file_count d \<and> total_bytes c = total_bytes d)"
  using finished_same_iff [OF assms] finished_same_content [OF assms] by blast

theorem has_same_content_correct_witness:
  "\<exists>r. scan_with_minimum_age example_fs example_config 0 = Some (Inr r) \<and>
    has_same_content (scan_catalog r) (scan_catalog r)"
proof -
  obtain r where r: "scan_with_minimum_age example_fs example_config 0 = Some (Inr r)"
    using example_scan [of 0] by auto
  have "finished (scan_catalog r)" by (rule scanned_catalog_finished [OF r])
  with r show ?thesis using has_same_content_correct [of "scan_catalog r" "scan_catalog r"] by auto
qed

end
