(* ===== verification/Xml.thy ===== *)
theory Xml
  imports Rust_Text
begin

text \<open>
  \<open>crates/joedlna-core/src/xml.rs\<close>: the escaping every piece of outside text (file names,
  share names, identifiers, URLs) goes through before it is put into XML.

  \<open>xml_unescape\<close> is not code of the repository: it is what an XML parser makes of character
  data with the five predefined entities, and states what \<open>escape_text\<close> promises.
\<close>

section \<open>The code\<close>

definition xml_char :: "nat \<Rightarrow> bool" where
  "xml_char n =
    (n = 0x9 \<or> n = 0xA \<or> n = 0xD \<or> (0x20 \<le> n \<and> n \<le> 0xD7FF) \<or> (0xE000 \<le> n \<and> n \<le> 0xFFFD)
     \<or> (0x10000 \<le> n \<and> n \<le> 0x10FFFF))"

definition escape_char :: "nat \<Rightarrow> string" where
  "escape_char n =
    (if n = 0x26 then ''&amp;''
     else if n = 0x3C then ''&lt;''
     else if n = 0x3E then ''&gt;''
     else if n = 0x27 then ''&apos;''
     else if n = 0x22 then ''&quot;''
     else if xml_char n then push_char n
     else push_char 0xFFFD)"

definition escape_text :: "string \<Rightarrow> string" where
  "escape_text value = concat (map escape_char (chars value))"

definition element :: "string \<Rightarrow> string \<Rightarrow> string \<Rightarrow> string" where
  "element output name value =
    output @ ''<'' @ name @ ''>'' @ escape_text value @ ''</'' @ name @ ''>''"

section \<open>What a reader of the XML sees\<close>

function xml_unescape :: "string \<Rightarrow> string" where
  "xml_unescape [] = []"
| "xml_unescape (c # cs) =
    (if c = CHR ''&'' then
       (case strip_prefix ''amp;'' cs of Some r \<Rightarrow> CHR ''&'' # xml_unescape r | None \<Rightarrow>
        case strip_prefix ''lt;'' cs of Some r \<Rightarrow> CHR ''<'' # xml_unescape r | None \<Rightarrow>
        case strip_prefix ''gt;'' cs of Some r \<Rightarrow> CHR ''>'' # xml_unescape r | None \<Rightarrow>
        case strip_prefix ''apos;'' cs of Some r \<Rightarrow> CHR 0x27 # xml_unescape r | None \<Rightarrow>
        case strip_prefix ''quot;'' cs of Some r \<Rightarrow> CHR 0x22 # xml_unescape r | None \<Rightarrow>
        c # xml_unescape cs)
     else c # xml_unescape cs)"
  by pat_completeness auto
termination
  by (relation "measure length") (auto simp: strip_prefix_Some)

definition xml_clean :: "nat \<Rightarrow> nat" where
  "xml_clean n = (if xml_char n then n else 0xFFFD)"

lemma xml_unescape_plain: "CHR ''&'' \<notin> set u \<Longrightarrow> xml_unescape (u @ t) = u @ xml_unescape t"
  by (induction u) auto

text \<open>The bytes of a character: itself below 0x80, otherwise all at or above 0x80.\<close>

lemma push_char_ascii: "n < 0x80 \<Longrightarrow> push_char n = [char_of n]"
  by (simp add: push_char_def encode_char_def of_bytes_def)

lemma push_chars_ascii: "\<forall>c \<in> set s. byte c < 0x80 \<Longrightarrow> of_chars (map byte s) = s"
  by (induction s) (simp_all add: of_chars_Cons push_char_ascii)

lemma chars_ascii:
  assumes "\<forall>c \<in> set s. byte c < 0x80"
  shows "chars s = map byte s"
proof -
  have "list_all is_scalar (map byte s)" using assms by (auto simp: list_all_iff is_scalar_def)
  then show ?thesis using chars_of_chars [of "map byte s"] push_chars_ascii [OF assms] by simp
qed

lemma utf8_valid_ascii:
  assumes "\<forall>c \<in> set s. byte c < 0x80"
  shows "utf8_valid s"
proof -
  have "list_all is_scalar (map byte s)" using assms by (auto simp: list_all_iff is_scalar_def)
  then show ?thesis using utf8_valid_of_chars push_chars_ascii [OF assms] by metis
qed

lemma to_string_lossy_ascii: "\<forall>c \<in> set s. byte c < 0x80 \<Longrightarrow> to_string_lossy s = s"
  by (simp add: to_string_lossy_def utf8_valid_ascii)

lemma push_char_markup:
  "push_char 0x26 = ''&''" "push_char 0x3C = ''<''" "push_char 0x3E = ''>''"
  "push_char 0x27 = [CHR 0x27]" "push_char 0x22 = [CHR 0x22]"
  by code_simp+

lemma push_char_high:
  assumes "is_scalar n" "0x80 \<le> n" "c \<in> set (push_char n)"
  shows "0x80 \<le> byte c"
proof -
  have "byte c \<in> set (bytes (push_char n))" using assms(3) by (auto simp: bytes_def)
  then show ?thesis using assms(1,2) by (auto simp: bytes_push_char encode_char_def split: if_splits)
qed

lemma push_char_no_ascii:
  assumes "is_scalar n" "byte d < 0x80" "n \<noteq> byte d"
  shows "d \<notin> set (push_char n)"
proof (cases "n < 0x80")
  case True
  then show ?thesis using assms(3) by (auto simp: push_char_ascii simp flip: byte_eq_iff)
next
  case False
  then show ?thesis using assms push_char_high [of n d] by auto
qed

lemma xml_char_scalar: "xml_char n \<Longrightarrow> is_scalar n"
  by (auto simp: xml_char_def is_scalar_def)

lemma scalar_FFFD: "is_scalar 0xFFFD"
  by (simp add: is_scalar_def)

lemma xml_clean_scalar: "is_scalar (xml_clean n)"
  by (simp add: xml_clean_def xml_char_scalar scalar_FFFD)

lemma xml_unescape_escape_char: "xml_unescape (escape_char n @ t) = push_char (xml_clean n) @ xml_unescape t"
proof (cases "n = 0x26 \<or> n = 0x3C \<or> n = 0x3E \<or> n = 0x27 \<or> n = 0x22")
  case True
  then have "xml_clean n = n" by (auto simp: xml_clean_def xml_char_def)
  with True show ?thesis by (auto simp: escape_char_def push_char_markup strip_prefix_def)
next
  case False
  then have "escape_char n = push_char (xml_clean n)" by (auto simp: escape_char_def xml_clean_def)
  moreover have "CHR ''&'' \<notin> set (push_char (xml_clean n))"
    using False by (intro push_char_no_ascii xml_clean_scalar) (auto simp: xml_clean_def)
  ultimately show ?thesis by (simp add: xml_unescape_plain)
qed

lemma xml_unescape_escape_chars:
  "xml_unescape (concat (map escape_char ns) @ t) = of_chars (map xml_clean ns) @ xml_unescape t"
  by (induction ns) (simp_all add: xml_unescape_escape_char of_chars_Cons)

lemma escape_char_no_markup:
  assumes "is_scalar n" "d \<in> {CHR ''<'', CHR ''>'', CHR 0x22, CHR 0x27}"
  shows "d \<notin> set (escape_char n)"
proof (cases "n = 0x26 \<or> n = 0x3C \<or> n = 0x3E \<or> n = 0x27 \<or> n = 0x22")
  case True
  with assms show ?thesis by (auto simp: escape_char_def)
next
  case False
  then have "escape_char n = push_char (xml_clean n)" by (auto simp: escape_char_def xml_clean_def)
  moreover have "d \<notin> set (push_char (xml_clean n))"
    using False assms by (intro push_char_no_ascii xml_clean_scalar) (auto simp: xml_clean_def)
  ultimately show ?thesis by simp
qed

lemma escape_text_no_markup:
  "d \<in> {CHR ''<'', CHR ''>'', CHR 0x22, CHR 0x27} \<Longrightarrow> d \<notin> set (escape_text value)"
  using chars_scalar [of "value"] escape_char_no_markup
  by (auto simp: escape_text_def list_all_iff)

lemma escape_text_Nil [simp]: "escape_text [] = []"
  by (simp add: escape_text_def chars_def bytes_def)

end
