(* ===== verification/Data_Properties.thy ===== *)
theory Data_Properties
  imports Core_Properties Xml
begin

text \<open>
  Properties of the data the program handles: object identifiers, the configuration, media
  recognition and the escaping of text.
\<close>

section \<open>Object identifiers\<close>

text \<open>C37. An object identifier never is the root's and identifies a file up to its kind, its share
  and a collision of the 64-bit path hash, and the hash itself never collides on names that
  differ in a single byte, whatever surrounds it.\<close>

theorem object_id_correct:
  "object_id k r p \<noteq> ROOT_ID
   \<and> (object_id k r p = object_id k' r' p' \<longleftrightarrow>
        k = k' \<and> r = r' \<and> stable_os_hash p = stable_os_hash p')
   \<and> (object_id k r (u @ a # v) = object_id k r (u @ b # v) \<longleftrightarrow> a = b)"
proof -
  have "stable_os_hash (u @ a # v) = stable_os_hash (u @ b # v) \<longleftrightarrow> a = b"
    by (simp add: stable_os_hash_def extend_hash_append extend_hash_inj mult_FNV_PRIME_inj
        xor_left_cancel of_char_word_inj)
  then show ?thesis by (simp add: object_id_eq_iff)
qed

text \<open>Path hashing is the 64-bit FNV-1a function: on the published test vectors for the empty
  string, \<open>a\<close> and \<open>foobar\<close> it gives their values.\<close>

theorem stable_os_hash_vectors:
  "stable_os_hash [] = 0xcbf29ce484222325 \<and> stable_os_hash ''a'' = 0xaf63dc4c8601ec8c
   \<and> stable_os_hash ''foobar'' = 0x85944171f73967e8"
  by (simp add: stable_os_hash_def FNV_OFFSET_def FNV_PRIME_def)

section \<open>Configuration\<close>

lemma example_accepted: "validate (\<lambda>s. s) example_fs example_config = Inr ()"
proof -
  have "trim ''M'' \<noteq> []" "trim ''J'' \<noteq> []" "length (chars ''J'') \<le> 64"
    by (simp_all add: trim_def chars_ascii is_whitespace_def of_chars_Cons push_char_ascii)
  then show ?thesis
    by (simp add: validate_def validate_share_def example_config_def example_share_def
        example_fs_def default_scanner_def default_network_def is_dir_def)
qed

lemma validate_iff:
  "validate lc fs c = Inr () \<longleftrightarrow> (\<exists>roots. config_ok lc fs c roots)"
proof -
  have "validate lc fs c = Inr () \<longleftrightarrow>
      trim (friendly_name c) \<noteq> [] \<and> length (chars (friendly_name c)) \<le> 64 \<and> shares c \<noteq> []
      \<and> rescan_interval_seconds (scanner c) \<noteq> 0 \<and> settle_time_seconds (scanner c) \<noteq> 0
      \<and> \<not> ssdp_max_age_seconds (network c) < 60 \<and> (\<exists>rs. shares_ok lc fs (shares c) [] [] rs)"
    unfolding validate_def validate_shares_ok [symmetric] by auto
  then show ?thesis
    by (auto simp: config_ok_def shares_ok_def rescan_interval_def settle_time_def from_secs_pos
        word_less_nat_alt)
qed

text \<open>C27. A configuration is accepted if and only if it is usable: the name is not blank and at
  most 64 characters, intervals are positive, the SSDP age at least 60 seconds, there is a share,
  and every share has a name that is new up to case, at least one category and none twice, and a
  readable directory whose resolved root neither contains nor lies in another share's.\<close>

theorem validate_correct:
  "validate lc fs c = Inr () \<longleftrightarrow> (\<exists>roots. config_ok lc fs c roots)"
  by (rule validate_iff)

text \<open>Roots of an accepted configuration are pairwise apart, so no file is in two shares: no
  path is below two different roots.\<close>

theorem accepted_roots_apart:
  assumes "config_ok lc fs c roots" and "i < length roots" "j < length roots" "i \<noteq> j"
  shows "\<not> (path_starts_with p (roots ! i) \<and> path_starts_with p (roots ! j))"
proof
  assume p: "path_starts_with p (roots ! i) \<and> path_starts_with p (roots ! j)"
  have apart: "\<not> overlaps (roots ! b) (roots ! a)" if "a < b" "b < length roots" for a b
    using assms(1) that by (simp add: config_ok_def sorted_wrt_iff_nth_less)
  have "overlaps (roots ! i) (roots ! j)"
  proof -
    obtain x where x: "p = roots ! i @ x" using p unfolding path_starts_with_iff by blast
    obtain y where "p = roots ! j @ y" using p unfolding path_starts_with_iff by blast
    with x have "(\<exists>z. roots ! i = roots ! j @ z) \<or> (\<exists>z. roots ! j = roots ! i @ z)"
      by (metis append_eq_append_conv2)
    then show ?thesis by (auto simp: overlaps_def path_starts_with_iff)
  qed
  then show False using apart [of i j] apart [of j i] assms(2-4) overlaps_sym nat_neq_iff by blast
qed

theorem accepted_roots_apart_witness:
  "\<not> (path_starts_with [''m'', ''a''] ([[''m''], [''n'']] ! 0)
      \<and> path_starts_with [''m'', ''a''] ([[''m''], [''n'']] ! 1))"
proof -
  define fs where "fs = example_fs\<lparr>fs_resolve := (\<lambda>s. Inr [s]),
    fs_stat := (\<lambda>s. Inr \<lparr>md_type = Dir, md_len = 0, md_modified = None\<rparr>)\<rparr>"
  define c where "c = example_config\<lparr>shares :=
    [\<lparr>sh_name = ''M'', sh_path = ''m'', sh_media = [Audio]\<rparr>,
     \<lparr>sh_name = ''N'', sh_path = ''n'', sh_media = [Video]\<rparr>]\<rparr>"
  have t: "trim ''M'' \<noteq> []" "trim ''N'' \<noteq> []" "trim ''J'' \<noteq> []" "length (chars ''J'') \<le> 64"
    by (simp_all add: trim_def chars_ascii is_whitespace_def of_chars_Cons push_char_ascii)
  have "config_ok (\<lambda>s. s) fs c [[''m''], [''n'']]"
    using t
    by (simp add: config_ok_def c_def fs_def example_config_def example_fs_def share_usable_def
        overlaps_def path_starts_with_def rescan_interval_def settle_time_def from_secs_def
        default_scanner_def default_network_def is_dir_def)
  from accepted_roots_apart [OF this, of 0 1] show ?thesis by simp
qed

section \<open>Media recognition\<close>

text \<open>Recognition goes by the extension alone and ignores its ASCII case, and what it returns
  is consistent: the MIME type and the UPnP class belong to the category, by which a share filters
  and a control point chooses its player.\<close>

theorem media_kind_correct:
  assumes "path_extension p = Some ext" "path_extension q = Some ext'"
    and "utf8_valid ext" "utf8_valid ext'" "eq_ignore_ascii_case ext ext'"
  shows "media_kind p = media_kind q \<and>
    (case media_kind p of
       None \<Rightarrow> True
     | Some k \<Rightarrow> mk_upnp_class k = category_class (mk_category k)
         \<and> (\<exists>s. mk_mime_type k = category_mime_prefix (mk_category k) @ s)
         \<and> mk_dlna_profile k = None)"
proof -
  have "media_kind p = media_kind q"
    using assms by (simp add: media_kind_def from_utf8_def eq_ignore_ascii_case_def)
  moreover have "mk_upnp_class k = category_class (mk_category k)
      \<and> (\<exists>s. mk_mime_type k = category_mime_prefix (mk_category k) @ s) \<and> mk_dlna_profile k = None"
    if "media_kind p = Some k" for k
    using media_kind_in_table [OF that] media_table_consistent
    by (auto simp: list_all_iff strip_prefix_Some)
  ultimately show ?thesis by (simp split: option.split)
qed

theorem media_kind_correct_witness:
  "media_kind [''a.MP3''] = media_kind [''b.mp3''] \<and> media_kind [''b.mp3''] \<noteq> None"
proof -
  have e: "path_extension [''a.MP3''] = Some ''MP3''" "path_extension [''b.mp3''] = Some ''mp3''"
    by code_simp+
  have u: "utf8_valid ''MP3''" "utf8_valid ''mp3''" by (rule utf8_valid_ascii, simp)+
  have i: "eq_ignore_ascii_case ''MP3'' ''mp3''" by code_simp
  have "media_kind [''b.mp3''] \<noteq> None" by code_simp
  with media_kind_correct [OF e u i] show ?thesis by simp
qed

section \<open>Escaping\<close>

text \<open>Escaping is undone by reading: an XML reader gets back the text with every character
  that XML forbids replaced by U+FFFD, and the escaped text holds no character that could end a
  text node or an attribute value.\<close>

theorem escape_text_correct:
  "xml_unescape (escape_text s) = of_chars (map xml_clean (chars s))
   \<and> set (escape_text s) \<inter> {CHR ''<'', CHR ''>'', CHR 0x22, CHR 0x27} = {}"
  using xml_unescape_escape_chars [of "chars s" "[]"] escape_text_no_markup [of _ s]
  by (auto simp: escape_text_def)

end
