(* ===== verification/Description.thy ===== *)
theory Description
  imports Xml Media_Kind
begin

text \<open>
  The device and service descriptions of \<open>crates/joedlna-core/src/description.rs\<close>: the documents
  as the code has them, line by line, and what a control point reads off them.

  The two service documents are literals.  \<open>scpd_document\<close> is the shape a service document has;
  \<open>content_directory_scpd_document\<close> and \<open>connection_manager_scpd_document\<close> show that the literals
  are that shape over the tables of actions and state variables, so what the tables say is what
  the documents announce.
\<close>

section \<open>Constants\<close>

definition CONTENT_DIRECTORY_TYPE :: string where
  "CONTENT_DIRECTORY_TYPE = ''urn:schemas-upnp-org:service:ContentDirectory:1''"

definition CONNECTION_MANAGER_TYPE :: string where
  "CONNECTION_MANAGER_TYPE = ''urn:schemas-upnp-org:service:ConnectionManager:1''"

definition MEDIA_SERVER_TYPE :: string where
  "MEDIA_SERVER_TYPE = ''urn:schemas-upnp-org:device:MediaServer:1''"

text \<open>\<open>CARGO_PKG_VERSION\<close>, the version of \<open>Cargo.toml\<close>, and \<open>platform::SERVER\<close> on Linux.\<close>

definition PKG_VERSION :: string where
  "PKG_VERSION = ''0.1.0''"

definition SERVER :: string where
  "SERVER = ''Linux/1.0 UPnP/1.0 JoeDLNA/'' @ PKG_VERSION"

section \<open>The device description\<close>

function trim_start_matches :: "string \<Rightarrow> string \<Rightarrow> string" where
  "trim_start_matches p s =
    (case strip_prefix p s of
       Some r \<Rightarrow> if p = [] then s else trim_start_matches p r
     | None \<Rightarrow> s)"
  by pat_completeness auto
termination
  by (relation "measure (\<lambda>(p, s). length s)") (auto simp: strip_prefix_Some)

declare trim_start_matches.simps [simp del]

definition device_description :: "string \<Rightarrow> string \<Rightarrow> string \<Rightarrow> string" where
  \<open>device_description name udn base_url =
    (''<?xml version="1.0" encoding="utf-8"?>\<newline>'' @
     ''<root xmlns="urn:schemas-upnp-org:device-1-0" xmlns:dlna="urn:schemas-dlna-org:device-1-0">\<newline>'' @
     ''  <specVersion><major>1</major><minor>0</minor></specVersion>\<newline>'' @
     ''  <URLBase>'' @ base_url @ ''/</URLBase>\<newline>'' @
     ''  <device>\<newline>'' @
     ''    <deviceType>'' @ MEDIA_SERVER_TYPE @ ''</deviceType>\<newline>'' @
     ''    <friendlyName>'' @ escape_text name @ ''</friendlyName>\<newline>'' @
     ''    <manufacturer>JoeDLNA</manufacturer>\<newline>'' @
     ''    <modelDescription>A small, filesystem-first Rust DLNA media server</modelDescription>\<newline>'' @
     ''    <modelName>JoeDLNA</modelName>\<newline>'' @
     ''    <modelNumber>'' @ PKG_VERSION @ ''</modelNumber>\<newline>'' @
     ''    <serialNumber>'' @ escape_text (trim_start_matches ''uuid:'' udn) @ ''</serialNumber>\<newline>'' @
     ''    <UDN>'' @ escape_text udn @ ''</UDN>\<newline>'' @
     ''    <dlna:X_DLNADOC>DMS-1.50</dlna:X_DLNADOC>\<newline>'' @
     ''    <dlna:X_DLNACAP></dlna:X_DLNACAP>\<newline>'' @
     ''    <serviceList>\<newline>'' @
     ''      <service>\<newline>'' @
     ''        <serviceType>'' @ CONTENT_DIRECTORY_TYPE @ ''</serviceType>\<newline>'' @
     ''        <serviceId>urn:upnp-org:serviceId:ContentDirectory</serviceId>\<newline>'' @
     ''        <SCPDURL>/upnp/content-directory.xml</SCPDURL>\<newline>'' @
     ''        <controlURL>/upnp/content-directory/control</controlURL>\<newline>'' @
     ''        <eventSubURL>/upnp/content-directory/events</eventSubURL>\<newline>'' @
     ''      </service>\<newline>'' @
     ''      <service>\<newline>'' @
     ''        <serviceType>'' @ CONNECTION_MANAGER_TYPE @ ''</serviceType>\<newline>'' @
     ''        <serviceId>urn:upnp-org:serviceId:ConnectionManager</serviceId>\<newline>'' @
     ''        <SCPDURL>/upnp/connection-manager.xml</SCPDURL>\<newline>'' @
     ''        <controlURL>/upnp/connection-manager/control</controlURL>\<newline>'' @
     ''        <eventSubURL>/upnp/connection-manager/events</eventSubURL>\<newline>'' @
     ''      </service>\<newline>'' @
     ''    </serviceList>\<newline>'' @
     ''    <presentationURL>/</presentationURL>\<newline>'' @
     ''  </device>\<newline>'' @
     ''</root>'')\<close>

section \<open>The service descriptions\<close>

definition CONTENT_DIRECTORY_SCPD :: string where
  \<open>CONTENT_DIRECTORY_SCPD =
    (''<?xml version="1.0" encoding="utf-8"?>\<newline>'' @
     ''<scpd xmlns="urn:schemas-upnp-org:service-1-0">\<newline>'' @
     ''  <specVersion><major>1</major><minor>0</minor></specVersion>\<newline>'' @
     ''  <actionList>\<newline>'' @
     ''    <action><name>GetSearchCapabilities</name><argumentList>\<newline>'' @
     ''      <argument><name>SearchCaps</name><direction>out</direction><relatedStateVariable>SearchCapabilities</relatedStateVariable></argument>\<newline>'' @
     ''    </argumentList></action>\<newline>'' @
     ''    <action><name>GetSortCapabilities</name><argumentList>\<newline>'' @
     ''      <argument><name>SortCaps</name><direction>out</direction><relatedStateVariable>SortCapabilities</relatedStateVariable></argument>\<newline>'' @
     ''    </argumentList></action>\<newline>'' @
     ''    <action><name>GetSystemUpdateID</name><argumentList>\<newline>'' @
     ''      <argument><name>Id</name><direction>out</direction><relatedStateVariable>SystemUpdateID</relatedStateVariable></argument>\<newline>'' @
     ''    </argumentList></action>\<newline>'' @
     ''    <action><name>Browse</name><argumentList>\<newline>'' @
     ''      <argument><name>ObjectID</name><direction>in</direction><relatedStateVariable>A_ARG_TYPE_ObjectID</relatedStateVariable></argument>\<newline>'' @
     ''      <argument><name>BrowseFlag</name><direction>in</direction><relatedStateVariable>A_ARG_TYPE_BrowseFlag</relatedStateVariable></argument>\<newline>'' @
     ''      <argument><name>Filter</name><direction>in</direction><relatedStateVariable>A_ARG_TYPE_Filter</relatedStateVariable></argument>\<newline>'' @
     ''      <argument><name>StartingIndex</name><direction>in</direction><relatedStateVariable>A_ARG_TYPE_Index</relatedStateVariable></argument>\<newline>'' @
     ''      <argument><name>RequestedCount</name><direction>in</direction><relatedStateVariable>A_ARG_TYPE_Count</relatedStateVariable></argument>\<newline>'' @
     ''      <argument><name>SortCriteria</name><direction>in</direction><relatedStateVariable>A_ARG_TYPE_SortCriteria</relatedStateVariable></argument>\<newline>'' @
     ''      <argument><name>Result</name><direction>out</direction><relatedStateVariable>A_ARG_TYPE_Result</relatedStateVariable></argument>\<newline>'' @
     ''      <argument><name>NumberReturned</name><direction>out</direction><relatedStateVariable>A_ARG_TYPE_Count</relatedStateVariable></argument>\<newline>'' @
     ''      <argument><name>TotalMatches</name><direction>out</direction><relatedStateVariable>A_ARG_TYPE_Count</relatedStateVariable></argument>\<newline>'' @
     ''      <argument><name>UpdateID</name><direction>out</direction><relatedStateVariable>A_ARG_TYPE_UpdateID</relatedStateVariable></argument>\<newline>'' @
     ''    </argumentList></action>\<newline>'' @
     ''    <action><name>X_SetBookmark</name><argumentList>\<newline>'' @
     ''      <argument><name>CategoryType</name><direction>in</direction><relatedStateVariable>X_A_ARG_TYPE_CategoryType</relatedStateVariable></argument>\<newline>'' @
     ''      <argument><name>RID</name><direction>in</direction><relatedStateVariable>X_A_ARG_TYPE_RID</relatedStateVariable></argument>\<newline>'' @
     ''      <argument><name>ObjectID</name><direction>in</direction><relatedStateVariable>A_ARG_TYPE_ObjectID</relatedStateVariable></argument>\<newline>'' @
     ''      <argument><name>PosSecond</name><direction>in</direction><relatedStateVariable>X_A_ARG_TYPE_PosSecond</relatedStateVariable></argument>\<newline>'' @
     ''    </argumentList></action>\<newline>'' @
     ''  </actionList>\<newline>'' @
     ''  <serviceStateTable>\<newline>'' @
     ''    <stateVariable sendEvents="no"><name>A_ARG_TYPE_ObjectID</name><dataType>string</dataType></stateVariable>\<newline>'' @
     ''    <stateVariable sendEvents="no"><name>A_ARG_TYPE_Result</name><dataType>string</dataType></stateVariable>\<newline>'' @
     ''    <stateVariable sendEvents="no"><name>A_ARG_TYPE_BrowseFlag</name><dataType>string</dataType><allowedValueList><allowedValue>BrowseMetadata</allowedValue><allowedValue>BrowseDirectChildren</allowedValue></allowedValueList></stateVariable>\<newline>'' @
     ''    <stateVariable sendEvents="no"><name>A_ARG_TYPE_Filter</name><dataType>string</dataType></stateVariable>\<newline>'' @
     ''    <stateVariable sendEvents="no"><name>A_ARG_TYPE_SortCriteria</name><dataType>string</dataType></stateVariable>\<newline>'' @
     ''    <stateVariable sendEvents="no"><name>A_ARG_TYPE_Index</name><dataType>ui4</dataType></stateVariable>\<newline>'' @
     ''    <stateVariable sendEvents="no"><name>A_ARG_TYPE_Count</name><dataType>ui4</dataType></stateVariable>\<newline>'' @
     ''    <stateVariable sendEvents="no"><name>A_ARG_TYPE_UpdateID</name><dataType>ui4</dataType></stateVariable>\<newline>'' @
     ''    <stateVariable sendEvents="no"><name>X_A_ARG_TYPE_CategoryType</name><dataType>ui4</dataType></stateVariable>\<newline>'' @
     ''    <stateVariable sendEvents="no"><name>X_A_ARG_TYPE_RID</name><dataType>ui4</dataType></stateVariable>\<newline>'' @
     ''    <stateVariable sendEvents="no"><name>X_A_ARG_TYPE_PosSecond</name><dataType>ui4</dataType></stateVariable>\<newline>'' @
     ''    <stateVariable sendEvents="no"><name>SearchCapabilities</name><dataType>string</dataType></stateVariable>\<newline>'' @
     ''    <stateVariable sendEvents="no"><name>SortCapabilities</name><dataType>string</dataType></stateVariable>\<newline>'' @
     ''    <stateVariable sendEvents="yes"><name>SystemUpdateID</name><dataType>ui4</dataType></stateVariable>\<newline>'' @
     ''  </serviceStateTable>\<newline>'' @
     ''</scpd>'')\<close>

definition CONNECTION_MANAGER_SCPD :: string where
  \<open>CONNECTION_MANAGER_SCPD =
    (''<?xml version="1.0" encoding="utf-8"?>\<newline>'' @
     ''<scpd xmlns="urn:schemas-upnp-org:service-1-0">\<newline>'' @
     ''  <specVersion><major>1</major><minor>0</minor></specVersion>\<newline>'' @
     ''  <actionList>\<newline>'' @
     ''    <action><name>GetProtocolInfo</name><argumentList>\<newline>'' @
     ''      <argument><name>Source</name><direction>out</direction><relatedStateVariable>SourceProtocolInfo</relatedStateVariable></argument>\<newline>'' @
     ''      <argument><name>Sink</name><direction>out</direction><relatedStateVariable>SinkProtocolInfo</relatedStateVariable></argument>\<newline>'' @
     ''    </argumentList></action>\<newline>'' @
     ''    <action><name>GetCurrentConnectionIDs</name><argumentList>\<newline>'' @
     ''      <argument><name>ConnectionIDs</name><direction>out</direction><relatedStateVariable>CurrentConnectionIDs</relatedStateVariable></argument>\<newline>'' @
     ''    </argumentList></action>\<newline>'' @
     ''    <action><name>GetCurrentConnectionInfo</name><argumentList>\<newline>'' @
     ''      <argument><name>ConnectionID</name><direction>in</direction><relatedStateVariable>A_ARG_TYPE_ConnectionID</relatedStateVariable></argument>\<newline>'' @
     ''      <argument><name>RcsID</name><direction>out</direction><relatedStateVariable>A_ARG_TYPE_RcsID</relatedStateVariable></argument>\<newline>'' @
     ''      <argument><name>AVTransportID</name><direction>out</direction><relatedStateVariable>A_ARG_TYPE_AVTransportID</relatedStateVariable></argument>\<newline>'' @
     ''      <argument><name>ProtocolInfo</name><direction>out</direction><relatedStateVariable>A_ARG_TYPE_ProtocolInfo</relatedStateVariable></argument>\<newline>'' @
     ''      <argument><name>PeerConnectionManager</name><direction>out</direction><relatedStateVariable>A_ARG_TYPE_ConnectionManager</relatedStateVariable></argument>\<newline>'' @
     ''      <argument><name>PeerConnectionID</name><direction>out</direction><relatedStateVariable>A_ARG_TYPE_ConnectionID</relatedStateVariable></argument>\<newline>'' @
     ''      <argument><name>Direction</name><direction>out</direction><relatedStateVariable>A_ARG_TYPE_Direction</relatedStateVariable></argument>\<newline>'' @
     ''      <argument><name>Status</name><direction>out</direction><relatedStateVariable>A_ARG_TYPE_ConnectionStatus</relatedStateVariable></argument>\<newline>'' @
     ''    </argumentList></action>\<newline>'' @
     ''  </actionList>\<newline>'' @
     ''  <serviceStateTable>\<newline>'' @
     ''    <stateVariable sendEvents="yes"><name>SourceProtocolInfo</name><dataType>string</dataType></stateVariable>\<newline>'' @
     ''    <stateVariable sendEvents="yes"><name>SinkProtocolInfo</name><dataType>string</dataType></stateVariable>\<newline>'' @
     ''    <stateVariable sendEvents="yes"><name>CurrentConnectionIDs</name><dataType>string</dataType></stateVariable>\<newline>'' @
     ''    <stateVariable sendEvents="no"><name>A_ARG_TYPE_ConnectionStatus</name><dataType>string</dataType><allowedValueList><allowedValue>OK</allowedValue><allowedValue>ContentFormatMismatch</allowedValue><allowedValue>InsufficientBandwidth</allowedValue><allowedValue>UnreliableChannel</allowedValue><allowedValue>Unknown</allowedValue></allowedValueList></stateVariable>\<newline>'' @
     ''    <stateVariable sendEvents="no"><name>A_ARG_TYPE_ConnectionManager</name><dataType>string</dataType></stateVariable>\<newline>'' @
     ''    <stateVariable sendEvents="no"><name>A_ARG_TYPE_Direction</name><dataType>string</dataType><allowedValueList><allowedValue>Input</allowedValue><allowedValue>Output</allowedValue></allowedValueList></stateVariable>\<newline>'' @
     ''    <stateVariable sendEvents="no"><name>A_ARG_TYPE_ProtocolInfo</name><dataType>string</dataType></stateVariable>\<newline>'' @
     ''    <stateVariable sendEvents="no"><name>A_ARG_TYPE_ConnectionID</name><dataType>i4</dataType></stateVariable>\<newline>'' @
     ''    <stateVariable sendEvents="no"><name>A_ARG_TYPE_AVTransportID</name><dataType>i4</dataType></stateVariable>\<newline>'' @
     ''    <stateVariable sendEvents="no"><name>A_ARG_TYPE_RcsID</name><dataType>i4</dataType></stateVariable>\<newline>'' @
     ''  </serviceStateTable>\<newline>'' @
     ''</scpd>'')\<close>

subsection \<open>What they announce\<close>

datatype arg_direction = In_arg | Out_arg

type_synonym scpd_action = "string \<times> (string \<times> arg_direction \<times> string) list"
type_synonym state_variable = "string \<times> bool \<times> string \<times> string list"

definition scpd_argument :: "string \<times> arg_direction \<times> string \<Rightarrow> string" where
  \<open>scpd_argument a =
    (case a of (name, d, related) \<Rightarrow>
      ''      <argument><name>'' @ name @ ''</name><direction>''
      @ (case d of In_arg \<Rightarrow> ''in'' | Out_arg \<Rightarrow> ''out'')
      @ ''</direction><relatedStateVariable>'' @ related
      @ ''</relatedStateVariable></argument>\<newline>'')\<close>

definition scpd_action :: "scpd_action \<Rightarrow> string" where
  \<open>scpd_action a =
    ''    <action><name>'' @ fst a @ ''</name><argumentList>\<newline>''
    @ concat (map scpd_argument (snd a)) @ ''    </argumentList></action>\<newline>''\<close>

definition scpd_variable :: "state_variable \<Rightarrow> string" where
  \<open>scpd_variable v =
    (case v of (name, evented, type, allowed) \<Rightarrow>
      ''    <stateVariable sendEvents="'' @ (if evented then ''yes'' else ''no'')
      @ ''"><name>'' @ name @ ''</name><dataType>'' @ type @ ''</dataType>''
      @ (if allowed = [] then []
         else ''<allowedValueList>''
           @ concat (map (\<lambda>a. ''<allowedValue>'' @ a @ ''</allowedValue>'') allowed)
           @ ''</allowedValueList>'')
      @ ''</stateVariable>\<newline>'')\<close>

definition scpd_document :: "scpd_action list \<Rightarrow> state_variable list \<Rightarrow> string" where
  \<open>scpd_document actions variables =
    ''<?xml version="1.0" encoding="utf-8"?>\<newline>''
    @ ''<scpd xmlns="urn:schemas-upnp-org:service-1-0">\<newline>''
    @ ''  <specVersion><major>1</major><minor>0</minor></specVersion>\<newline>''
    @ ''  <actionList>\<newline>'' @ concat (map scpd_action actions) @ ''  </actionList>\<newline>''
    @ ''  <serviceStateTable>\<newline>'' @ concat (map scpd_variable variables)
    @ ''  </serviceStateTable>\<newline>'' @ ''</scpd>''\<close>

definition content_directory_actions :: "scpd_action list" where
  "content_directory_actions =
    [(''GetSearchCapabilities'', [(''SearchCaps'', Out_arg, ''SearchCapabilities'')]),
     (''GetSortCapabilities'', [(''SortCaps'', Out_arg, ''SortCapabilities'')]),
     (''GetSystemUpdateID'', [(''Id'', Out_arg, ''SystemUpdateID'')]),
     (''Browse'', [(''ObjectID'', In_arg, ''A_ARG_TYPE_ObjectID''),
       (''BrowseFlag'', In_arg, ''A_ARG_TYPE_BrowseFlag''),
       (''Filter'', In_arg, ''A_ARG_TYPE_Filter''),
       (''StartingIndex'', In_arg, ''A_ARG_TYPE_Index''),
       (''RequestedCount'', In_arg, ''A_ARG_TYPE_Count''),
       (''SortCriteria'', In_arg, ''A_ARG_TYPE_SortCriteria''),
       (''Result'', Out_arg, ''A_ARG_TYPE_Result''),
       (''NumberReturned'', Out_arg, ''A_ARG_TYPE_Count''),
       (''TotalMatches'', Out_arg, ''A_ARG_TYPE_Count''),
       (''UpdateID'', Out_arg, ''A_ARG_TYPE_UpdateID'')]),
     (''X_SetBookmark'', [(''CategoryType'', In_arg, ''X_A_ARG_TYPE_CategoryType''),
       (''RID'', In_arg, ''X_A_ARG_TYPE_RID''),
       (''ObjectID'', In_arg, ''A_ARG_TYPE_ObjectID''),
       (''PosSecond'', In_arg, ''X_A_ARG_TYPE_PosSecond'')])]"

definition content_directory_variables :: "state_variable list" where
  "content_directory_variables =
    [(''A_ARG_TYPE_ObjectID'', False, ''string'', []),
     (''A_ARG_TYPE_Result'', False, ''string'', []),
     (''A_ARG_TYPE_BrowseFlag'', False, ''string'', [''BrowseMetadata'', ''BrowseDirectChildren'']),
     (''A_ARG_TYPE_Filter'', False, ''string'', []),
     (''A_ARG_TYPE_SortCriteria'', False, ''string'', []),
     (''A_ARG_TYPE_Index'', False, ''ui4'', []),
     (''A_ARG_TYPE_Count'', False, ''ui4'', []),
     (''A_ARG_TYPE_UpdateID'', False, ''ui4'', []),
     (''X_A_ARG_TYPE_CategoryType'', False, ''ui4'', []),
     (''X_A_ARG_TYPE_RID'', False, ''ui4'', []),
     (''X_A_ARG_TYPE_PosSecond'', False, ''ui4'', []),
     (''SearchCapabilities'', False, ''string'', []),
     (''SortCapabilities'', False, ''string'', []),
     (''SystemUpdateID'', True, ''ui4'', [])]"

definition connection_manager_actions :: "scpd_action list" where
  "connection_manager_actions =
    [(''GetProtocolInfo'', [(''Source'', Out_arg, ''SourceProtocolInfo''),
       (''Sink'', Out_arg, ''SinkProtocolInfo'')]),
     (''GetCurrentConnectionIDs'', [(''ConnectionIDs'', Out_arg, ''CurrentConnectionIDs'')]),
     (''GetCurrentConnectionInfo'', [(''ConnectionID'', In_arg, ''A_ARG_TYPE_ConnectionID''),
       (''RcsID'', Out_arg, ''A_ARG_TYPE_RcsID''),
       (''AVTransportID'', Out_arg, ''A_ARG_TYPE_AVTransportID''),
       (''ProtocolInfo'', Out_arg, ''A_ARG_TYPE_ProtocolInfo''),
       (''PeerConnectionManager'', Out_arg, ''A_ARG_TYPE_ConnectionManager''),
       (''PeerConnectionID'', Out_arg, ''A_ARG_TYPE_ConnectionID''),
       (''Direction'', Out_arg, ''A_ARG_TYPE_Direction''),
       (''Status'', Out_arg, ''A_ARG_TYPE_ConnectionStatus'')])]"

definition connection_manager_variables :: "state_variable list" where
  "connection_manager_variables =
    [(''SourceProtocolInfo'', True, ''string'', []),
     (''SinkProtocolInfo'', True, ''string'', []),
     (''CurrentConnectionIDs'', True, ''string'', []),
     (''A_ARG_TYPE_ConnectionStatus'', False, ''string'', [''OK'', ''ContentFormatMismatch'', ''InsufficientBandwidth'', ''UnreliableChannel'', ''Unknown'']),
     (''A_ARG_TYPE_ConnectionManager'', False, ''string'', []),
     (''A_ARG_TYPE_Direction'', False, ''string'', [''Input'', ''Output'']),
     (''A_ARG_TYPE_ProtocolInfo'', False, ''string'', []),
     (''A_ARG_TYPE_ConnectionID'', False, ''i4'', []),
     (''A_ARG_TYPE_AVTransportID'', False, ''i4'', []),
     (''A_ARG_TYPE_RcsID'', False, ''i4'', [])]"

definition out_args :: "(string \<times> arg_direction \<times> string) list \<Rightarrow> string list" where
  "out_args args = map fst (filter (\<lambda>(name, d, related). d = Out_arg) args)"

lemma content_directory_scpd_document:
  "CONTENT_DIRECTORY_SCPD = scpd_document content_directory_actions content_directory_variables"
  by code_simp

lemma connection_manager_scpd_document:
  "CONNECTION_MANAGER_SCPD = scpd_document connection_manager_actions connection_manager_variables"
  by code_simp

text \<open>Every argument is typed by a state variable the document declares.\<close>

definition scpd_closed :: "scpd_action list \<Rightarrow> state_variable list \<Rightarrow> bool" where
  "scpd_closed actions variables =
    (list_all (\<lambda>(name, args). list_all (\<lambda>(a, d, related). related \<in> set (map fst variables)) args)
       actions
     \<and> distinct (map fst actions) \<and> distinct (map fst variables))"

lemma scpds_closed:
  "scpd_closed content_directory_actions content_directory_variables"
  "scpd_closed connection_manager_actions connection_manager_variables"
  by code_simp+

section \<open>Protocol information and the presentation page\<close>

fun join_with :: "string \<Rightarrow> string list \<Rightarrow> string" where
  "join_with sep [] = []"
| "join_with sep [s] = s"
| "join_with sep (s # t # ss) = s @ sep @ join_with sep (t # ss)"

definition MIME_TYPES :: "string list" where
  "MIME_TYPES =
    [''audio/mpeg'',
     ''audio/mp4'',
     ''audio/aac'',
     ''audio/flac'',
     ''audio/wav'',
     ''audio/ogg'',
     ''video/mp4'',
     ''video/x-matroska'',
     ''video/x-msvideo'',
     ''video/mpeg'',
     ''video/mp2t'',
     ''video/quicktime'',
     ''video/webm'',
     ''image/jpeg'',
     ''image/png'',
     ''image/gif'']"

definition source_protocol_info :: string where
  "source_protocol_info =
    join_with '','' (map (\<lambda>mime_type. ''http-get:*:'' @ mime_type @ '':*'') MIME_TYPES)"

definition presentation_page :: "string \<Rightarrow> nat \<Rightarrow> u64 \<Rightarrow> string" where
  "presentation_page name files bytes_total =
    element
      (element
        (''<!doctype html><meta charset=utf-8><title>'' @ escape_text name
         @ ''</title><h1>'' @ escape_text name @ ''</h1>'')
        ''p'' (show_nat files @ '' media files indexed''))
      ''p'' (show_word bytes_total @ '' bytes available'')"

lemma mime_types_complete: "set (map (\<lambda>(exts, k). mk_mime_type k) media_table) = set MIME_TYPES"
  by code_simp

lemma split_join_with:
  "ss \<noteq> [] \<Longrightarrow> \<forall>s \<in> set ss. c \<notin> set s \<Longrightarrow> split_on c (join_with [c] ss) = ss"
proof (induction "[c]" ss rule: join_with.induct)
  case (2 s)
  then show ?case by (simp add: split_on_plain)
next
  case (3 s t ss)
  then show ?case by (simp add: split_on_prefix)
qed simp

end
