(* ===== verification/Soap.thy ===== *)
theory Soap
  imports Description Catalog
begin

text \<open>
  The control protocol of \<open>crates/joedlna-core/src/soap.rs\<close>: parsing of requests, the two
  services' actions, \<open>Browse\<close> with its DIDL-Lite documents, responses and faults.

  The XML reader (\<open>quick-xml\<close>) is not in the repository.  It is the parameter \<open>reader\<close>, which
  gives the events of a body in order, or an error, and its \<open>escape::unescape\<close> is the parameter
  \<open>unescape\<close>, \<open>None\<close> where that fails.  What the code makes of the events is modelled.
\<close>

section \<open>Errors\<close>

record upnp_error_info =
  ue_code :: u16
  ue_description :: string

datatype soap_parse_error = MissingAction | InvalidXml string

definition upnp_error :: "u16 \<Rightarrow> upnp_error_info" where
  "upnp_error code =
    \<lparr>ue_code = code,
     ue_description =
       (if code = 401 then ''Invalid Action''
        else if code = 402 then ''Invalid Args''
        else if code = 501 then ''Action Failed''
        else if code = 701 then ''No Such Object''
        else if code = 706 then ''Invalid Connection Reference''
        else if code = 709 then ''Unsupported or Invalid Sort Criteria''
        else if code = 710 then ''No Such Container''
        else if code = 720 then ''Cannot Process Request''
        else ''Action Failed'')\<rparr>"

section \<open>Requests\<close>

type_synonym arguments = "(string, string) hash_map"

text \<open>
  The events the loop tells apart; names are local names, as bytes.  \<open>OtherEvent\<close> is every
  event of the last arm: comments, CDATA sections, processing instructions, declarations and
  general references.
\<close>

datatype xml_event =
    StartEvent string
  | TextEvent string
  | EmptyEvent string
  | EndEvent
  | OtherEvent
  | EofEvent

fun read_arguments ::
  "(string \<Rightarrow> string option) \<Rightarrow> (string + xml_event) list \<Rightarrow> string option \<Rightarrow> arguments \<Rightarrow>
    soap_parse_error + arguments" where
  "read_arguments unescape [] current args = Inr args"
| "read_arguments unescape (Inl e # events) current args = Inl (InvalidXml e)"
| "read_arguments unescape (Inr event # events) current args =
    (case event of
       StartEvent name \<Rightarrow> read_arguments unescape events (Some (to_string_lossy name)) args
     | TextEvent text \<Rightarrow>
         (case current of
            None \<Rightarrow> read_arguments unescape events None args
          | Some name \<Rightarrow>
             (case unescape (to_string_lossy text) of
                None \<Rightarrow> Inl (InvalidXml ''escape'')
              | Some v \<Rightarrow> read_arguments unescape events None (hm_insert name v args)))
     | EmptyEvent name \<Rightarrow>
         read_arguments unescape events None (hm_or_default (to_string_lossy name) [] args)
     | EndEvent \<Rightarrow>
         (case current of
            None \<Rightarrow> read_arguments unescape events None args
          | Some name \<Rightarrow> read_arguments unescape events None (hm_or_default name [] args))
     | EofEvent \<Rightarrow> Inr args
     | OtherEvent \<Rightarrow> read_arguments unescape events current args)"

definition parse_request ::
  "(string \<Rightarrow> (string + xml_event) list) \<Rightarrow> (string \<Rightarrow> string option) \<Rightarrow> string option \<Rightarrow> string \<Rightarrow>
    soap_parse_error + (string \<times> arguments)" where
  "parse_request reader unescape soap_action body =
    bind_result
      (ok_or
        (map_option snd
          (Option.bind soap_action
            (\<lambda>v. rsplit_once CHR ''#'' (trim_matches (\<lambda>c. c = CHR 0x22 \<or> c = CHR '' '') v))))
        MissingAction)
      (\<lambda>action.
        bind_result (read_arguments unescape (reader body) None [])
          (\<lambda>args. Inr (action, args)))"

definition required :: "arguments \<Rightarrow> string \<Rightarrow> upnp_error_info + string" where
  "required args name = ok_or (hm_get args name) (upnp_error 402)"

definition parse_u32 :: "arguments \<Rightarrow> string \<Rightarrow> upnp_error_info + u32" where
  "parse_u32 args name =
    bind_result (required args name) (\<lambda>s. ok_or (parse_word s) (upnp_error 402))"

section \<open>DIDL-Lite\<close>

definition didl_header :: string where
  \<open>didl_header =
    ''<DIDL-Lite xmlns="urn:schemas-upnp-org:metadata-1-0/DIDL-Lite/" ''
    @ ''xmlns:dc="http://purl.org/dc/elements/1.1/" ''
    @ ''xmlns:upnp="urn:schemas-upnp-org:metadata-1-0/upnp/" ''
    @ ''xmlns:sec="http://www.sec.co.kr/dlna">''\<close>

definition filter_has :: "string \<Rightarrow> string \<Rightarrow> bool" where
  "filter_has f requested =
    (f = ''*'' \<or>
     list_ex
       (\<lambda>property. property = requested
         \<or> (requested = ''res'' \<and> strip_prefix ''res@'' property \<noteq> None))
       (split_on CHR '','' f))"

definition protocol_info :: "string \<Rightarrow> string option \<Rightarrow> string" where
  "protocol_info mime_type dlna_profile =
    (let profile = (case dlna_profile of None \<Rightarrow> [] | Some p \<Rightarrow> ''DLNA.ORG_PN='' @ p @ '';'')
     in ''http-get:*:'' @ mime_type @ '':'' @ profile
        @ ''DLNA.ORG_OP=01;DLNA.ORG_CI=0;DLNA.ORG_FLAGS=01700000000000000000000000000000'')"

definition child_count_attribute :: "catalog \<Rightarrow> string \<Rightarrow> string \<Rightarrow> string" where
  \<open>child_count_attribute c i f =
    (if filter_has f ''@childCount''
     then '' childCount="'' @ show_nat (child_count c i) @ ''"'' else [])\<close>

definition append_root :: "string \<Rightarrow> catalog \<Rightarrow> string \<Rightarrow> string" where
  \<open>append_root output c f =
    output
    @ ''<container id="0" parentID="-1" restricted="1"'' @ child_count_attribute c ROOT_ID f
    @ ''><dc:title>Root</dc:title><upnp:class>object.container.storageFolder</upnp:class></container>''\<close>

definition url_extension :: "path \<Rightarrow> string" where
  "url_extension p =
    (case Option.bind (path_extension p) from_utf8 of
       Some ext \<Rightarrow> if list_all is_ascii_alphanumeric ext then ext else ''bin''
     | None \<Rightarrow> ''bin'')"

definition resource_url :: "string \<Rightarrow> entry \<Rightarrow> string" where
  "resource_url base_url e = base_url @ ''/media/'' @ e_id e @ ''/file.'' @ url_extension (e_path e)"

definition append_entry ::
  "string \<Rightarrow> entry \<Rightarrow> catalog \<Rightarrow> (string, u64) btree_map \<Rightarrow> string \<Rightarrow> string \<Rightarrow> string" where
  \<open>append_entry output e c bookmarks base_url f =
    (case e_kind e of
       Container \<Rightarrow>
         output
         @ ''<container id="'' @ escape_text (e_id e) @ ''" parentID="''
         @ escape_text (e_parent_id e) @ ''" restricted="1"'' @ child_count_attribute c (e_id e) f
         @ ''><dc:title>'' @ escape_text (e_title e)
         @ ''</dc:title><upnp:class>object.container.storageFolder</upnp:class></container>''
     | Media media \<Rightarrow>
         (let include_resource = filter_has f ''res'';
              include_size = (filter_has f ''res'' \<or> filter_has f ''res@size'');
              info = protocol_info (mk_mime_type media) (mk_dlna_profile media);
              url = resource_url base_url e;
              item = output
                @ ''<item id="'' @ escape_text (e_id e) @ ''" parentID="''
                @ escape_text (e_parent_id e) @ ''" restricted="1"><dc:title>''
                @ escape_text (e_title e) @ ''</dc:title><upnp:class>'' @ mk_upnp_class media
                @ ''</upnp:class>'';
              dcm = (if filter_has f ''sec:dcmInfo'' then
                       (case bt_get bookmarks (e_id e) of
                          None \<Rightarrow> []
                        | Some position \<Rightarrow>
                            ''<sec:dcmInfo>CREATIONDATE=0,FOLDER='' @ escape_text (e_title e)
                            @ '',BM='' @ show_word position @ ''</sec:dcmInfo>'')
                     else []);
              res = (if include_resource then
                       ''<res protocolInfo="'' @ escape_text info @ ''"''
                       @ (if include_size then '' size="'' @ show_word (e_size e) @ ''"'' else [])
                       @ ''>'' @ escape_text url @ ''</res>''
                     else [])
          in item @ dcm @ res @ ''</item>''))\<close>

fun append_entries ::
  "string \<Rightarrow> entry list \<Rightarrow> catalog \<Rightarrow> (string, u64) btree_map \<Rightarrow> string \<Rightarrow> string \<Rightarrow> string" where
  "append_entries output [] c bookmarks base_url f = output"
| "append_entries output (e # es) c bookmarks base_url f =
    append_entries (append_entry output e c bookmarks base_url f) es c bookmarks base_url f"

section \<open>Browse\<close>

definition title_cmp :: "entry \<Rightarrow> entry \<Rightarrow> cmp_result" where
  "title_cmp left right =
    then_with (cmp (e_title left) (e_title right)) (cmp (e_id left) (e_id right))"

definition title_sort :: "string \<Rightarrow> upnp_error_info + bool option" where
  "title_sort sort_criteria =
    (if sort_criteria = [] then Inr None
     else if sort_criteria = ''+dc:title'' then Inr (Some False)
     else if sort_criteria = ''-dc:title'' then Inr (Some True)
     else Inl (upnp_error 709))"

definition listing :: "catalog \<Rightarrow> string \<Rightarrow> bool option \<Rightarrow> upnp_error_info + entry list" where
  "listing c obj order =
    (if obj \<noteq> ROOT_ID \<and> map_option e_kind (catalog_entry c obj) \<noteq> Some Container
     then Inl (upnp_error 701)
     else bind_result (ok_or (catalog_children c obj) (upnp_error 701)) (\<lambda>kids.
       Inr (case order of
              None \<Rightarrow> kids
            | Some reverse \<Rightarrow>
               (let sorted = sort_by title_cmp kids in if reverse then rev sorted else sorted))))"

definition page :: "nat \<Rightarrow> nat \<Rightarrow> 'a list \<Rightarrow> 'a list" where
  "page starting_index requested_count xs =
    (if requested_count = 0 then drop starting_index xs
     else take requested_count (drop starting_index xs))"

definition browse ::
  "arguments \<Rightarrow> catalog \<Rightarrow> (string, u64) btree_map \<Rightarrow> string \<Rightarrow>
    upnp_error_info + (string \<times> string) list" where
  "browse args c bookmarks base_url =
    bind_result (required args ''ObjectID'') (\<lambda>obj.
    bind_result (required args ''BrowseFlag'') (\<lambda>browse_flag.
    bind_result (parse_u32 args ''StartingIndex'') (\<lambda>starting_index.
    bind_result (parse_u32 args ''RequestedCount'') (\<lambda>requested_count.
    bind_result (required args ''SortCriteria'') (\<lambda>sort_criteria.
    bind_result (required args ''Filter'') (\<lambda>f.
    bind_result (title_sort sort_criteria) (\<lambda>order.
    bind_result
      (if browse_flag = ''BrowseMetadata'' then
         (if obj = ROOT_ID then
            Inr (append_root didl_header c f, 1, 1, object_update_id c obj)
          else
            bind_result (ok_or (catalog_entry c obj) (upnp_error 701)) (\<lambda>e.
              Inr (append_entry didl_header e c bookmarks base_url f, 1, 1,
                object_update_id c obj)))
       else if browse_flag = ''BrowseDirectChildren'' then
         bind_result (listing c obj order) (\<lambda>kids.
           (let selected = page (unat starting_index) (unat requested_count) kids
            in Inr (append_entries didl_header selected c bookmarks base_url f,
                 length selected, length kids, object_update_id c obj)))
       else Inl (upnp_error 402))
      (\<lambda>(didl, number_returned, total_matches, update_id).
        Inr [(''Result'', didl @ ''</DIDL-Lite>''),
             (''NumberReturned'', show_nat number_returned),
             (''TotalMatches'', show_nat total_matches),
             (''UpdateID'', show_word update_id)]))))))))"

section \<open>Responses\<close>

fun append_values :: "string \<Rightarrow> (string \<times> string) list \<Rightarrow> string" where
  "append_values output [] = output"
| "append_values output ((name, v) # values) = append_values (element output name v) values"

definition soap_response :: "string \<Rightarrow> string \<Rightarrow> (string \<times> string) list \<Rightarrow> string" where
  \<open>soap_response service_type action values =
    append_values
      (''<?xml version="1.0" encoding="utf-8"?>''
       @ ''<s:Envelope xmlns:s="http://schemas.xmlsoap.org/soap/envelope/" ''
       @ ''s:encodingStyle="http://schemas.xmlsoap.org/soap/encoding/"><s:Body><u:'' @ action
       @ ''Response xmlns:u="'' @ service_type @ ''">'')
      values
    @ ''</u:'' @ action @ ''Response></s:Body></s:Envelope>''\<close>

definition soap_fault :: "upnp_error_info \<Rightarrow> string" where
  \<open>soap_fault e =
    ''<?xml version="1.0" encoding="utf-8"?>''
    @ ''<s:Envelope xmlns:s="http://schemas.xmlsoap.org/soap/envelope/" ''
    @ ''s:encodingStyle="http://schemas.xmlsoap.org/soap/encoding/"><s:Body><s:Fault>''
    @ ''<faultcode>s:Client</faultcode><faultstring>UPnPError</faultstring><detail>''
    @ ''<UPnPError xmlns="urn:schemas-upnp-org:control-1-0"><errorCode>''
    @ show_word (ue_code e) @ ''</errorCode><errorDescription>'' @ ue_description e
    @ ''</errorDescription></UPnPError></detail></s:Fault></s:Body></s:Envelope>''\<close>

definition content_directory_output ::
  "string \<Rightarrow> arguments \<Rightarrow> catalog \<Rightarrow> (string, u64) btree_map \<Rightarrow> string \<Rightarrow>
    upnp_error_info + (string \<times> string) list" where
  "content_directory_output action args c bookmarks base_url =
    (if action = ''GetSearchCapabilities'' then Inr [(''SearchCaps'', [])]
     else if action = ''GetSortCapabilities'' then Inr [(''SortCaps'', ''dc:title'')]
     else if action = ''GetSystemUpdateID'' then Inr [(''Id'', show_word (update_id c))]
     else if action = ''Browse'' then browse args c bookmarks base_url
     else if action = ''X_SetBookmark'' then Inr []
     else Inl (upnp_error 401))"

definition content_directory_response ::
  "string \<Rightarrow> arguments \<Rightarrow> catalog \<Rightarrow> (string, u64) btree_map \<Rightarrow> string \<Rightarrow> upnp_error_info + string" where
  "content_directory_response action args c bookmarks base_url =
    bind_result (content_directory_output action args c bookmarks base_url)
      (\<lambda>output. Inr (soap_response CONTENT_DIRECTORY_TYPE action output))"

definition connection_manager_output ::
  "string \<Rightarrow> arguments \<Rightarrow> upnp_error_info + (string \<times> string) list" where
  "connection_manager_output action args =
    (if action = ''GetProtocolInfo'' then Inr [(''Source'', source_protocol_info), (''Sink'', [])]
     else if action = ''GetCurrentConnectionIDs'' then Inr [(''ConnectionIDs'', ''0'')]
     else if action = ''GetCurrentConnectionInfo'' then
       (if hm_get args ''ConnectionID'' \<noteq> Some ''0'' then Inl (upnp_error 706)
        else Inr
          [(''RcsID'', ''-1''), (''AVTransportID'', ''-1''), (''ProtocolInfo'', []),
           (''PeerConnectionManager'', []), (''PeerConnectionID'', ''-1''),
           (''Direction'', ''Output''), (''Status'', ''OK'')])
     else Inl (upnp_error 401))"

definition connection_manager_response :: "string \<Rightarrow> arguments \<Rightarrow> upnp_error_info + string" where
  "connection_manager_response action args =
    bind_result (connection_manager_output action args)
      (\<lambda>output. Inr (soap_response CONNECTION_MANAGER_TYPE action output))"

end
