(* ===== verification/Soap_Facts.thy ===== *)
theory Soap_Facts
  imports Soap Catalog_Content
begin

text \<open>
  Lemmas on \<open>Soap\<close>.  \<open>directory\<close> is the interface through which \<open>Browse\<close> sees a catalog; its
  facts on listings and pages are proved from the interface alone and hold of catalogs by the
  interpretation \<open>dir\<close>.  Then: \<open>Browse\<close> on every branch, what a control point reads back from
  a response, and that no outside text adds markup.
\<close>

section \<open>Decimal numbers\<close>

text \<open>\<open>decimal s n\<close>: the text \<open>s\<close> writes the number \<open>n\<close>, with a plus sign in front or without.\<close>

definition digits_value :: "nat \<Rightarrow> string \<Rightarrow> nat" where
  "digits_value = foldl (\<lambda>a c. a * 10 + (byte c - 48))"

definition decimal :: "string \<Rightarrow> nat \<Rightarrow> bool" where
  "decimal s n = (\<exists>ds. (s = ds \<or> s = CHR ''+'' # ds) \<and> ds \<noteq> [] \<and> (\<forall>c \<in> set ds. is_ascii_digit c)
    \<and> n = digits_value 0 ds)"

lemma digits_value_simps [simp]:
  "digits_value a [] = a" "digits_value a (c # cs) = digits_value (a * 10 + (byte c - 48)) cs"
  by (simp_all add: digits_value_def)

lemma digits_value_ge: "a \<le> digits_value a ds"
proof (induction ds arbitrary: a)
  case (Cons c ds)
  show ?case using Cons.IH [of "a * 10 + (byte c - 48)"] by simp
qed simp

lemma parse_digits_value:
  "a \<le> m \<Longrightarrow> parse_digits m a ds = Some n \<longleftrightarrow>
    (\<forall>c \<in> set ds. is_ascii_digit c) \<and> n = digits_value a ds \<and> n \<le> m"
proof (induction ds arbitrary: a)
  case (Cons c ds)
  show ?case
    using Cons.IH [of "a * 10 + (byte c - 48)"] digits_value_ge [of "a * 10 + (byte c - 48)" ds]
    by (auto simp: Let_def not_less)
qed auto

lemma parse_uint_decimal: "parse_uint m s = Some n \<longleftrightarrow> decimal s n \<and> n \<le> m"
proof (cases s)
  case (Cons c cs)
  have "\<not> is_ascii_digit CHR ''+''" by (simp add: is_ascii_digit_def)
  then show ?thesis
    by (cases "c = CHR ''+''"; cases "cs = []") (auto simp: Cons parse_uint_def decimal_def parse_digits_value simp del: parse_digits.simps)
qed (simp add: parse_uint_def decimal_def)

lemma parse_word_decimal: "parse_word s = Some w \<longleftrightarrow> decimal s (unat w)"
  for w :: "'a::len word"
proof
  assume "parse_word s = Some w"
  then obtain n where n: "decimal s n" "n \<le> 2 ^ LENGTH('a) - 1" "w = word_of_nat n"
    by (auto simp: parse_word_def parse_uint_decimal)
  have "n < 2 ^ LENGTH('a)" using n(2) by (rule order_le_less_trans) simp
  then have "unat w = n" using n(3) by (simp add: unsigned_of_nat take_bit_nat_eq_self)
  with n(1) show "decimal s (unat w)" by simp
next
  assume d: "decimal s (unat w)"
  have "unat w < 2 ^ LENGTH('a)" by simp
  then have "unat w \<le> 2 ^ LENGTH('a) - 1" by linarith
  with d have "parse_uint (2 ^ LENGTH('a) - 1) s = Some (unat w)" by (simp add: parse_uint_decimal)
  then show "parse_word s = Some w" by (simp add: parse_word_def)
qed

section \<open>Pages\<close>

lemma page_all [simp]: "page 0 0 xs = xs"
  by (simp add: page_def)

lemma set_page: "set (page s n xs) \<subseteq> set xs"
  by (auto simp: page_def dest: in_set_dropD in_set_takeD)

lemma length_page: "length (page s n xs) = (if n = 0 then length xs - s else min n (length xs - s))"
  by (auto simp: page_def)

text \<open>Consecutive pages of the same size are the listing, nothing twice and nothing missing.\<close>

lemma pages_take:
  assumes "0 < n"
  shows "concat (map (\<lambda>k. page (k * n) n xs) [0..<m]) = take (m * n) xs"
proof (induction m)
  case (Suc m)
  have "take (m * n) xs @ take n (drop (m * n) xs) = take (m * n + n) xs" by (simp add: take_add)
  with Suc assms show ?case by (simp add: page_def add.commute)
qed simp

lemma pages_whole:
  "0 < n \<Longrightarrow> length xs \<le> m * n \<Longrightarrow> concat (map (\<lambda>k. page (k * n) n xs) [0..<m]) = xs"
  by (simp add: pages_take)

section \<open>The directory \<open>Browse\<close> reads\<close>

locale directory =
  fixes wf :: "'c \<Rightarrow> bool"
    and entry_of :: "'c \<Rightarrow> string \<Rightarrow> entry option"
    and kids :: "'c \<Rightarrow> string \<Rightarrow> entry list option"
    and kid_count :: "'c \<Rightarrow> string \<Rightarrow> nat"
    and container :: "'c \<Rightarrow> string \<Rightarrow> bool"
  assumes kids_container: "wf c \<Longrightarrow> kids c i \<noteq> None \<longleftrightarrow> container c i"
    and kids_children: "wf c \<Longrightarrow> kids c i = Some es \<Longrightarrow>
      e \<in> set es \<longleftrightarrow> entry_of c (e_id e) = Some e \<and> e_parent_id e = i"
    and kids_ids: "wf c \<Longrightarrow> kids c i = Some es \<Longrightarrow> distinct (map e_id es)"
    and kids_count: "wf c \<Longrightarrow> kids c i = Some es \<Longrightarrow> kid_count c i = length es"
begin

lemma kids_distinct: "wf c \<Longrightarrow> kids c i = Some es \<Longrightarrow> distinct es"
  using kids_ids distinct_map by blast

lemma kids_disjoint:
  "wf c \<Longrightarrow> kids c i = Some es \<Longrightarrow> kids c j = Some fs \<Longrightarrow> i \<noteq> j \<Longrightarrow> set es \<inter> set fs = {}"
  using kids_children by fastforce

lemma page_of_children:
  "wf c \<Longrightarrow> kids c i = Some es \<Longrightarrow> mset fs = mset es \<Longrightarrow> e \<in> set (page s n fs) \<Longrightarrow>
    entry_of c (e_id e) = Some e \<and> e_parent_id e = i"
  using kids_children set_page by (metis mset_eq_setD subsetD)

text \<open>Every child is on exactly one of the pages of size \<open>n\<close>.\<close>

lemma child_on_one_page:
  assumes wf: "wf c" and kids: "kids c i = Some es" and perm: "mset fs = mset es" and n: "0 < n"
    and e: "entry_of c (e_id e) = Some e" "e_parent_id e = i"
  shows "\<exists>!k. e \<in> set (page (k * n) n fs)"
proof -
  have "e \<in> set fs" using kids_children [OF wf kids] e perm by (metis mset_eq_setD)
  then obtain j where j: "j < length fs" "fs ! j = e" by (auto simp: in_set_conv_nth)
  have d: "distinct fs" using kids_distinct [OF wf kids] perm by (metis mset_eq_imp_distinct_iff)
  have mem: "e \<in> set (page (k * n) n fs) \<longleftrightarrow> k * n \<le> j \<and> j < k * n + n" for k
  proof
    assume "e \<in> set (page (k * n) n fs)"
    then obtain l where l: "l < n" "l < length fs - k * n" "fs ! (k * n + l) = e"
      using n by (auto simp: page_def in_set_conv_nth)
    then have "k * n + l = j"
      using d j nth_eq_iff_index_eq [of fs "k * n + l" j] by simp
    with l(1) show "k * n \<le> j \<and> j < k * n + n" by simp
  next
    assume k: "k * n \<le> j \<and> j < k * n + n"
    then show "e \<in> set (page (k * n) n fs)"
      using n j by (auto simp: page_def in_set_conv_nth intro!: exI [of _ "j - k * n"])
  qed
  show ?thesis
  proof (rule ex1I [of _ "j div n"])
    show "e \<in> set (page (j div n * n) n fs)"
      unfolding mem using div_times_less_eq_dividend dividend_less_div_times [OF n, of j]
      by (simp add: add.commute)
    show "k = j div n" if "e \<in> set (page (k * n) n fs)" for k
      using that unfolding mem by (intro sym [OF div_nat_eqI]) (simp_all add: mult.commute)
  qed
qed

end

lemma map_filter_known:
  "\<forall>k \<in> set ks. m k \<noteq> None \<Longrightarrow> List.map_filter m ks = map (\<lambda>k. the (m k)) ks"
  by (induction ks) (auto simp: List.map_filter_def)

lemma catalog_children_ids:
  assumes wf: "catalog_wf c" and kids: "catalog_children c i = Some es"
  shows "hm_get (children c) i = Some (map e_id es)"
    and "es = map (\<lambda>k. the (hm_get (entries c) k)) (map e_id es)"
proof -
  obtain ids where ids: "hm_get (children c) i = Some ids"
    and es: "es = List.map_filter (hm_get (entries c)) ids"
    using kids by (auto simp: catalog_children_def)
  have known: "\<exists>e. hm_get (entries c) k = Some e \<and> e_id e = k" if "k \<in> set ids" for k
    using that catalog_wf_ids [OF wf ids] catalog_wf_entry [OF wf] by blast
  have "\<forall>k \<in> set ids. hm_get (entries c) k \<noteq> None" using known by blast
  then have es': "es = map (\<lambda>k. the (hm_get (entries c) k)) ids"
    unfolding es by (rule map_filter_known)
  have "map e_id es = map (\<lambda>k. k) ids" unfolding es' map_map
    by (rule map_cong [OF refl]) (use known in force)
  then have "map e_id es = ids" by simp
  with ids es' show "hm_get (children c) i = Some (map e_id es)"
    and "es = map (\<lambda>k. the (hm_get (entries c) k)) (map e_id es)" by simp_all
qed

interpretation dir: directory catalog_wf catalog_entry catalog_children child_count is_container
proof
  fix c :: catalog and i assume wf: "catalog_wf c"
  show "catalog_children c i \<noteq> None \<longleftrightarrow> is_container c i"
    using catalog_wf_container [OF wf, of i] by (simp add: catalog_children_def)
next
  fix c :: catalog and i es e
  assume wf: "catalog_wf c" and kids: "catalog_children c i = Some es"
  note lists = catalog_wf_ids [OF wf catalog_children_ids(1) [OF wf kids]]
  show "distinct (map e_id es)" using lists by blast
  show "child_count c i = length es"
    by (simp add: child_count_def catalog_children_ids(1) [OF wf kids])
  show "e \<in> set es \<longleftrightarrow> catalog_entry c (e_id e) = Some e \<and> e_parent_id e = i"
  proof
    assume e: "e \<in> set es"
    then have "e_id e \<in> set (map e_id es)" by simp
    then obtain x where x: "hm_get (entries c) (e_id e) = Some x" "e_parent_id x = i"
      using lists by blast
    have "e \<in> set (map (\<lambda>k. the (hm_get (entries c) k)) (map e_id es))"
      using e catalog_children_ids(2) [OF wf kids] by simp
    then obtain k where k: "k \<in> set (map e_id es)" "e = the (hm_get (entries c) k)" by auto
    obtain y where y: "hm_get (entries c) k = Some y" using lists k(1) by blast
    then have "e = y" using k(2) by simp
    then have "e_id e = k" using catalog_wf_entry [OF wf y] by simp
    then have "x = e" using x(1) y \<open>e = y\<close> by simp
    then show "catalog_entry c (e_id e) = Some e \<and> e_parent_id e = i"
      using x by (simp add: catalog_entry_def)
  next
    assume a: "catalog_entry c (e_id e) = Some e \<and> e_parent_id e = i"
    then have "e_id e \<in> set (map e_id es)" using lists unfolding catalog_entry_def by blast
    then have "the (hm_get (entries c) (e_id e)) \<in>
        set (map (\<lambda>k. the (hm_get (entries c) k)) (map e_id es))" by force
    then have "the (hm_get (entries c) (e_id e)) \<in> set es"
      unfolding catalog_children_ids(2) [OF wf kids, symmetric] .
    then show "e \<in> set es" using a by (simp add: catalog_entry_def)
  qed
qed

section \<open>Listings\<close>

lemma listing_container:
  assumes "catalog_wf c" "is_container c i"
  obtains es where "catalog_children c i = Some es"
    "listing c i order = Inr (case order of None \<Rightarrow> es
       | Some reverse \<Rightarrow> (if reverse then rev (sort_by title_cmp es) else sort_by title_cmp es))"
proof -
  obtain es where es: "catalog_children c i = Some es" using dir.kids_container assms by blast
  have "\<not> (i \<noteq> ROOT_ID \<and> map_option e_kind (catalog_entry c i) \<noteq> Some Container)"
    using assms(2) by (auto simp: is_container_def catalog_entry_def)
  then show ?thesis by (intro that [OF es]) (simp add: listing_def es split: option.split)
qed

lemma listing_other: "\<not> is_container c i \<Longrightarrow> listing c i order = Inl (upnp_error 701)"
  by (auto simp: is_container_def listing_def catalog_entry_def)

lemma listing_perm:
  "catalog_wf c \<Longrightarrow> listing c i order = Inr es \<Longrightarrow>
    \<exists>kids. catalog_children c i = Some kids \<and> mset es = mset kids"
proof (cases "is_container c i")
  case True
  assume "catalog_wf c" and es: "listing c i order = Inr es"
  from this(1) True obtain kids where kids: "catalog_children c i = Some kids"
    and l: "listing c i order = Inr (case order of None \<Rightarrow> kids
       | Some reverse \<Rightarrow> (if reverse then rev (sort_by title_cmp kids) else sort_by title_cmp kids))"
    by (rule listing_container)
  have "mset es = mset kids" using es unfolding l by (auto split: option.splits if_splits)
  with kids show ?thesis by blast
qed (simp add: listing_other)

lemma title_cmp_key: "title_cmp = (\<lambda>l r. cmp (e_title l, e_id l) (e_title r, e_id r))"
  by (simp add: fun_eq_iff title_cmp_def then_with_cmp)

interpretation title_order: total_cmp title_cmp UNIV
  unfolding title_cmp_key by (rule total_cmp_key)

lemma listing_by_title:
  assumes "catalog_wf c" "listing c i (Some reverse) = Inr es"
  shows "sorted_by title_cmp (if reverse then rev es else es)"
proof (cases "is_container c i")
  case True
  obtain es' where "listing c i (Some reverse) =
      Inr (if reverse then rev (sort_by title_cmp es') else sort_by title_cmp es')"
    using listing_container [OF assms(1) True, of "Some reverse"] by auto
  then have "es = (if reverse then rev (sort_by title_cmp es') else sort_by title_cmp es')"
    using assms(2) by simp
  then show ?thesis using title_order.sorted_sort_by [OF subset_UNIV, of es'] by simp
qed (use assms(2) in \<open>simp add: listing_other\<close>)


section \<open>\<open>Browse\<close> on every branch\<close>

lemma append_entry_append:
  "append_entry doc e c bookmarks base f = doc @ append_entry [] e c bookmarks base f"
  by (simp add: append_entry_def Let_def split: entry_kind.split)

lemma append_entries_concat:
  "append_entries doc es c bookmarks base f =
    doc @ concat (map (\<lambda>e. append_entry [] e c bookmarks base f) es)"
proof (induction es arbitrary: doc)
  case (Cons e es)
  then show ?case by (simp add: append_entry_append [of doc])
qed simp

text \<open>The arguments of a \<open>Browse\<close> as the code accepts them.\<close>

record browse_request =
  br_object :: string
  br_flag :: string
  br_start :: u32
  br_count :: u32
  br_order :: "bool option"
  br_filter :: string

definition browse_request :: "arguments \<Rightarrow> upnp_error_info + browse_request" where
  "browse_request args =
    bind_result (required args ''ObjectID'') (\<lambda>obj.
    bind_result (required args ''BrowseFlag'') (\<lambda>flag.
    bind_result (parse_u32 args ''StartingIndex'') (\<lambda>start.
    bind_result (parse_u32 args ''RequestedCount'') (\<lambda>count.
    bind_result (required args ''SortCriteria'') (\<lambda>criteria.
    bind_result (required args ''Filter'') (\<lambda>f.
    bind_result (title_sort criteria) (\<lambda>order.
      Inr \<lparr>br_object = obj, br_flag = flag, br_start = start, br_count = count,
           br_order = order, br_filter = f\<rparr>)))))))"

definition browse_output :: "string \<Rightarrow> nat \<Rightarrow> nat \<Rightarrow> u32 \<Rightarrow> (string \<times> string) list" where
  "browse_output elements returned matches update =
    [(''Result'', didl_header @ elements @ ''</DIDL-Lite>''),
     (''NumberReturned'', show_nat returned), (''TotalMatches'', show_nat matches),
     (''UpdateID'', show_word update)]"

lemma browse_bad_request: "browse_request args = Inl e \<Longrightarrow> browse args c bookmarks base = Inl e"
  by (auto simp: browse_request_def browse_def bind_result_Inl_iff)

lemma browse_request_error: "browse_request args = Inl e \<Longrightarrow> e = upnp_error 402 \<or> e = upnp_error 709"
  by (auto simp: browse_request_def required_def parse_u32_def title_sort_def result_splits
      split: if_splits)

lemma browse_request_parts:
  "browse_request args = Inr r \<Longrightarrow>
    \<exists>criteria. required args ''ObjectID'' = Inr (br_object r)
      \<and> required args ''BrowseFlag'' = Inr (br_flag r)
      \<and> parse_u32 args ''StartingIndex'' = Inr (br_start r)
      \<and> parse_u32 args ''RequestedCount'' = Inr (br_count r)
      \<and> required args ''SortCriteria'' = Inr criteria
      \<and> required args ''Filter'' = Inr (br_filter r)
      \<and> title_sort criteria = Inr (br_order r)"
  by (auto simp: browse_request_def bind_result_Inr_iff)

text \<open>Which arguments are refused, and as what.\<close>

definition number_argument :: "arguments \<Rightarrow> string \<Rightarrow> nat \<Rightarrow> bool" where
  "number_argument args name n = (\<exists>s. hm_get args name = Some s \<and> decimal s n \<and> n < 2 ^ 32)"

lemma parse_u32_iff: "parse_u32 args name = Inr w \<longleftrightarrow> number_argument args name (unat w)"
proof -
  have "unat w < 2 ^ 32" for w :: u32 using unsigned_less [of w, where 'a = nat] by simp
  then show ?thesis
    by (simp add: parse_u32_def required_def number_argument_def result_splits parse_word_decimal)
qed

lemma parse_u32_error:
  "parse_u32 args name = Inl e \<longleftrightarrow> (\<nexists>n. number_argument args name n) \<and> e = upnp_error 402"
proof (cases "parse_u32 args name")
  case (Inr w)
  then show ?thesis using parse_u32_iff [of args name w] by auto
next
  case (Inl x)
  have "\<not> number_argument args name n" for n
  proof
    assume n: "number_argument args name n"
    then have "number_argument args name (unat (word_of_nat n :: u32))"
      by (auto simp: number_argument_def unsigned_of_nat take_bit_nat_eq_self)
    with Inl show False by (simp flip: parse_u32_iff)
  qed
  moreover have "x = upnp_error 402"
    using Inl by (auto simp: parse_u32_def required_def result_splits)
  ultimately show ?thesis using Inl by auto
qed

definition malformed :: "arguments \<Rightarrow> bool" where
  "malformed args =
    ((\<exists>name \<in> {''ObjectID'', ''BrowseFlag'', ''SortCriteria'', ''Filter''}. hm_get args name = None)
     \<or> (\<exists>name \<in> {''StartingIndex'', ''RequestedCount''}. \<nexists>n. number_argument args name n))"

lemma browse_request_refused:
  "browse_request args = Inl e \<longleftrightarrow>
    (if malformed args then e = upnp_error 402
     else the (hm_get args ''SortCriteria'') \<notin> {[], ''+dc:title'', ''-dc:title''} \<and> e = upnp_error 709)"
proof -
  have err: "parse_u32 args name = (if \<nexists>n. number_argument args name n then Inl (upnp_error 402)
      else Inr (projr (parse_u32 args name)))" for name
  proof (cases "parse_u32 args name")
    case (Inl x)
    then show ?thesis using parse_u32_error [of args name x] by simp
  next
    case (Inr w)
    then show ?thesis using parse_u32_iff [of args name w] by auto
  qed
  show ?thesis
    unfolding browse_request_def malformed_def
    by (subst err [of "''StartingIndex''"], subst err [of "''RequestedCount''"])
      (auto simp: required_def title_sort_def ok_or_def split: option.splits)
qed

text \<open>What the accepted arguments say.\<close>

definition reads_as :: "arguments \<Rightarrow> browse_request \<Rightarrow> bool" where
  "reads_as args r =
    (hm_get args ''ObjectID'' = Some (br_object r) \<and> hm_get args ''BrowseFlag'' = Some (br_flag r)
     \<and> number_argument args ''StartingIndex'' (unat (br_start r))
     \<and> number_argument args ''RequestedCount'' (unat (br_count r))
     \<and> hm_get args ''SortCriteria'' = Some (case br_order r of None \<Rightarrow> []
        | Some reverse \<Rightarrow> if reverse then ''-dc:title'' else ''+dc:title'')
     \<and> hm_get args ''Filter'' = Some (br_filter r))"

lemma browse_request_reads: "browse_request args = Inr r \<Longrightarrow> reads_as args r"
  using browse_request_parts [of args r]
  by (cases "br_order r") (auto simp: reads_as_def required_def result_splits parse_u32_iff title_sort_def split: if_splits)

lemma append_root_append: "append_root doc c f = doc @ append_root [] c f"
  by (simp add: append_root_def)

definition metadata_elements ::
  "catalog \<Rightarrow> (string, u64) btree_map \<Rightarrow> string \<Rightarrow> browse_request \<Rightarrow> string option" where
  "metadata_elements c bookmarks base r =
    (if br_object r = ROOT_ID then Some (append_root [] c (br_filter r))
     else map_option (\<lambda>e. append_entry [] e c bookmarks base (br_filter r))
       (catalog_entry c (br_object r)))"

lemma browse_metadata:
  assumes "browse_request args = Inr r" "br_flag r = ''BrowseMetadata''"
  shows "browse args c bookmarks base =
    (case metadata_elements c bookmarks base r of
       None \<Rightarrow> Inl (upnp_error 701)
     | Some elements \<Rightarrow> Inr (browse_output elements 1 1 (object_update_id c (br_object r))))"
  using browse_request_parts [OF assms(1)] assms(2)
    append_entry_append [of didl_header] append_root_append [of didl_header]
  by (auto simp: browse_def metadata_elements_def browse_output_def ok_or_def split: option.splits)

lemma browse_children:
  assumes r: "browse_request args = Inr r" and flag: "br_flag r = ''BrowseDirectChildren''"
  shows "browse args c bookmarks base =
    bind_result (listing c (br_object r) (br_order r)) (\<lambda>kids.
      (let selected = page (unat (br_start r)) (unat (br_count r)) kids in
       Inr (browse_output
         (concat (map (\<lambda>e. append_entry [] e c bookmarks base (br_filter r)) selected))
         (length selected) (length kids) (object_update_id c (br_object r)))))"
proof -
  obtain criteria where parts: "required args ''ObjectID'' = Inr (br_object r)"
    "required args ''BrowseFlag'' = Inr ''BrowseDirectChildren''"
    "parse_u32 args ''StartingIndex'' = Inr (br_start r)"
    "parse_u32 args ''RequestedCount'' = Inr (br_count r)"
    "required args ''SortCriteria'' = Inr criteria" "required args ''Filter'' = Inr (br_filter r)"
    "title_sort criteria = Inr (br_order r)" using browse_request_parts [OF r] flag by auto
  show ?thesis
  proof (cases "listing c (br_object r) (br_order r)")
    case (Inl e)
    then show ?thesis by (simp add: browse_def parts)
  next
    case (Inr kids)
    then show ?thesis
      by (simp add: browse_def parts Let_def browse_output_def append_entries_concat)
  qed
qed

lemma browse_other_flag:
  assumes "browse_request args = Inr r"
    "br_flag r \<noteq> ''BrowseMetadata''" "br_flag r \<noteq> ''BrowseDirectChildren''"
  shows "browse args c bookmarks base = Inl (upnp_error 402)"
  using browse_request_parts [OF assms(1)] assms(2,3) by (auto simp: browse_def)

text \<open>What is refused once the arguments are accepted.\<close>

lemma browse_accepted_error:
  assumes wf: "catalog_wf c" and r: "browse_request args = Inr r"
  shows "browse args c bookmarks base = Inl e \<longleftrightarrow>
    (if br_flag r = ''BrowseMetadata''
     then br_object r \<noteq> ROOT_ID \<and> catalog_entry c (br_object r) = None \<and> e = upnp_error 701
     else if br_flag r = ''BrowseDirectChildren''
     then \<not> is_container c (br_object r) \<and> e = upnp_error 701
     else e = upnp_error 402)"
proof -
  consider "br_flag r = ''BrowseMetadata''" | "br_flag r = ''BrowseDirectChildren''"
    | "br_flag r \<noteq> ''BrowseMetadata''" "br_flag r \<noteq> ''BrowseDirectChildren''" by blast
  then show ?thesis
  proof cases
    case 1
    then show ?thesis using browse_metadata [OF r 1, of c bookmarks base]
      by (auto simp: metadata_elements_def split: option.splits if_splits)
  next
    case 2
    show ?thesis
    proof (cases "is_container c (br_object r)")
      case True
      obtain es where "listing c (br_object r) (br_order r) = Inr es"
        using listing_container [OF wf True] by metis
      then show ?thesis using browse_children [OF r 2, of c bookmarks base] 2 True by (simp add: Let_def)
    next
      case False
      then show ?thesis
        using browse_children [OF r 2, of c bookmarks base] 2 by (auto simp: listing_other)
    qed
  next
    case 3
    then show ?thesis using browse_other_flag [OF r 3, of c bookmarks base] by auto
  qed
qed

lemma listing_error: "listing c i order = Inl e \<Longrightarrow> e = upnp_error 701"
  by (auto simp: listing_def result_splits split: if_splits)

lemma browse_errors:
  assumes "browse args c bookmarks base = Inl e"
  shows "e = upnp_error 402 \<or> e = upnp_error 701 \<or> e = upnp_error 709"
proof (cases "browse_request args")
  case (Inl e')
  then show ?thesis using browse_bad_request [OF Inl] browse_request_error [OF Inl] assms by auto
next
  case (Inr r)
  show ?thesis
  proof (cases "br_flag r = ''BrowseMetadata''")
    case True
    then show ?thesis using browse_metadata [OF Inr True] assms by (auto split: option.splits)
  next
    case False
    show ?thesis
    proof (cases "br_flag r = ''BrowseDirectChildren''")
      case True
      then show ?thesis using browse_children [OF Inr True] assms listing_error
        by (auto simp: bind_result_Inl_iff Let_def)
    qed (use browse_other_flag [OF Inr False] assms in simp)
  qed
qed

section \<open>Services answer what they announce\<close>

lemma browse_names: "browse args c bookmarks base = Inr out \<Longrightarrow>
    map fst out = [''Result'', ''NumberReturned'', ''TotalMatches'', ''UpdateID'']"
  by (auto simp: browse_def bind_result_Inr_iff)

lemma content_directory_names:
  "content_directory_output action args c bookmarks base = Inr out \<Longrightarrow>
    map_of content_directory_actions action \<noteq> None
    \<and> map fst out = out_args (the (map_of content_directory_actions action))"
  by (auto simp: content_directory_output_def content_directory_actions_def out_args_def
      browse_names split: if_splits)

lemma content_directory_unknown:
  "content_directory_output action args c bookmarks base = Inl (upnp_error 401) \<longleftrightarrow>
    map_of content_directory_actions action = None"
proof -
  have "browse args c bookmarks base \<noteq> Inl (upnp_error 401)"
    using browse_errors [of args c bookmarks base "upnp_error 401"] by (auto simp: upnp_error_def)
  then show ?thesis
    by (auto simp: content_directory_output_def content_directory_actions_def)
qed

lemma connection_manager_names:
  "connection_manager_output action args = Inr out \<Longrightarrow>
    map_of connection_manager_actions action \<noteq> None
    \<and> map fst out = out_args (the (map_of connection_manager_actions action))"
  by (auto simp: connection_manager_output_def connection_manager_actions_def out_args_def
      split: if_splits)

lemma connection_manager_unknown:
  "connection_manager_output action args = Inl (upnp_error 401) \<longleftrightarrow>
    map_of connection_manager_actions action = None"
  by (auto simp: connection_manager_output_def connection_manager_actions_def upnp_error_def)

section \<open>No outside text adds markup\<close>

lemma count_list_0: "x \<notin> set xs \<Longrightarrow> count_list xs x = 0"
  by (simp add: count_list_0_iff)

lemma no_lt_escape: "CHR ''<'' \<notin> set (escape_text s)"
  by (rule escape_text_no_markup) simp

lemma no_lt_digits: "CHR ''<'' \<notin> set (show_nat n)" "CHR ''<'' \<notin> set (show_word w)"
  using show_nat_digits [of "CHR ''<''"] by (auto simp: show_word_def is_ascii_digit_def)

lemma no_lt_count: "CHR ''<'' \<notin> set (child_count_attribute c i f)"
  by (simp add: child_count_attribute_def no_lt_digits)

lemmas no_lt = no_lt_escape no_lt_digits no_lt_count

lemma entry_markup_container:
  "e_kind e = Container \<Longrightarrow> count_list (append_entry [] e c bookmarks base f) CHR ''<'' = 6"
  by (simp add: append_entry_def count_list_0 no_lt)

definition has_bookmark :: "entry \<Rightarrow> (string, u64) btree_map \<Rightarrow> string \<Rightarrow> bool" where
  "has_bookmark e bookmarks f = (filter_has f ''sec:dcmInfo'' \<and> bt_get bookmarks (e_id e) \<noteq> None)"

lemma entry_markup_media:
  assumes "e_kind e = Media k" and "CHR ''<'' \<notin> set (mk_upnp_class k)"
  shows "count_list (append_entry [] e c bookmarks base f) CHR ''<'' =
    (if has_bookmark e bookmarks f then if filter_has f ''res'' then 10 else 8
     else if filter_has f ''res'' then 8 else 6)"
proof (cases "has_bookmark e bookmarks f")
  case True
  then have "filter_has f ''sec:dcmInfo''" and "\<exists>n. bt_get bookmarks (e_id e) = Some n"
    by (auto simp: has_bookmark_def)
  then show ?thesis using assms True
    by (cases "filter_has f ''res''") (auto simp: append_entry_def Let_def no_lt)
next
  case False
  have "(if filter_has f ''sec:dcmInfo'' then
      (case bt_get bookmarks (e_id e) of None \<Rightarrow> [] | Some p \<Rightarrow> g p) else []) = []" for g :: "u64 \<Rightarrow> string"
    using False by (auto simp: has_bookmark_def)
  then show ?thesis using assms False
    by (cases "filter_has f ''res''") (simp_all add: append_entry_def Let_def no_lt)
qed

lemma media_table_class: "k \<in> snd ` set media_table \<Longrightarrow> CHR ''<'' \<notin> set (mk_upnp_class k)"
proof -
  assume "k \<in> snd ` set media_table"
  then have "mk_upnp_class k = category_class (mk_category k)"
    using media_table_consistent by (auto simp: list_all_iff)
  then show ?thesis by (cases "mk_category k") (simp_all add: category_class_def)
qed

section \<open>What a control point reads\<close>

text \<open>
  The text of the first element with a given name, as an XML reader gives it.  A reader first takes a
  carriage return, with a line feed behind it or not, as a line feed (XML 1.0, 2.11).
\<close>

fun line_ends :: "bool \<Rightarrow> string \<Rightarrow> string" where
  "line_ends after_cr [] = []"
| "line_ends after_cr (c # s) =
    (if c = CR then LF # line_ends True s
     else if c = LF \<and> after_cr then line_ends False s
     else c # line_ends False s)"

fun find_after :: "string \<Rightarrow> string \<Rightarrow> string option" where
  "find_after t [] = (if t = [] then Some [] else None)"
| "find_after t (c # s) =
    (case strip_prefix t (c # s) of Some r \<Rightarrow> Some r | None \<Rightarrow> find_after t s)"

definition element_value :: "string \<Rightarrow> string \<Rightarrow> string option" where
  "element_value name doc =
    map_option (\<lambda>r. xml_unescape (takeWhile (\<lambda>c. c \<noteq> CHR ''<'') r))
      (find_after (''<'' @ name @ ''>'') (line_ends False doc))"

definition clean_text :: "string \<Rightarrow> string" where
  "clean_text s = of_chars (map xml_clean (chars s))"

lemma find_after_here: "find_after t (t @ r) = Some r"
proof (cases "t @ r")
  case (Cons c s)
  then have "strip_prefix t (c # s) = Some r" using strip_prefix_append [of t r] by simp
  then show ?thesis unfolding Cons by simp
qed auto

lemma find_after_skip:
  "CHR ''<'' \<notin> set u \<Longrightarrow> find_after (CHR ''<'' # t) (u @ s) = find_after (CHR ''<'' # t) s"
  by (induction u) (auto simp: strip_prefix_def)

lemma takeWhile_no: "x \<notin> set u \<Longrightarrow> takeWhile (\<lambda>c. c \<noteq> x) (u @ x # s) = u"
  by (induction u) auto

lemma unescape_escape: "xml_unescape (escape_text s) = clean_text s"
  using xml_unescape_escape_chars [of "chars s" "[]"] by (simp add: escape_text_def clean_text_def)

text \<open>Line ends, piece by piece.\<close>

lemma line_ends_plain: "CR \<notin> set u \<Longrightarrow> line_ends False (u @ s) = u @ line_ends False s"
  by (induction u) auto

lemma line_ends_id: "CR \<notin> set u \<Longrightarrow> line_ends False u = u"
  using line_ends_plain [of u "[]"] by simp

lemma line_ends_chunk: "line_ends b (u @ CHR ''<'' # s) = line_ends b u @ CHR ''<'' # line_ends False s"
  by (induction u arbitrary: b) (auto simp: CR_def LF_def)

lemma set_line_ends: "set (line_ends b s) \<subseteq> insert LF (set s)"
proof (induction s arbitrary: b)
  case (Cons c s)
  then show ?case using Cons.IH [of True] Cons.IH [of False] by auto
qed simp

lemma CR_neq_LF: "CR \<noteq> LF" "LF \<noteq> CR"
  by (simp_all add: CR_def LF_def)

lemma push_char_line_end: "push_char 13 = [CR]" "push_char 10 = [LF]"
  by (simp_all add: push_char_ascii CR_def LF_def) code_simp+

lemma push_char_not_line_end:
  assumes "is_scalar n" "n \<noteq> 13" "n \<noteq> 10"
  shows "CR \<notin> set (push_char n)" "LF \<notin> set (push_char n)" "push_char n \<noteq> []"
  using assms push_char_no_ascii [of n CR] push_char_no_ascii [of n LF]
  by (simp_all add: CR_def LF_def) (simp add: push_char_def of_bytes_def encode_char_def)

lemma line_ends_text: "CR \<notin> set u \<Longrightarrow> LF \<notin> set u \<Longrightarrow> u \<noteq> [] \<Longrightarrow> line_ends b (u @ s) = u @ line_ends False s"
  by (cases u) (auto simp: line_ends_plain)

lemma escape_char_line_end: "escape_char 13 = [CR]" "escape_char 10 = [LF]" "xml_clean 13 = 13" "xml_clean 10 = 10"
  by (simp_all add: escape_char_def xml_char_def push_char_line_end xml_clean_def)

lemma escape_char_not_line_end:
  assumes "n \<noteq> 13" "n \<noteq> 10"
  shows "CR \<notin> set (escape_char n)" "LF \<notin> set (escape_char n)" "escape_char n \<noteq> []"
proof -
  have "xml_clean n \<noteq> 13" "xml_clean n \<noteq> 10" using assms by (auto simp: xml_clean_def)
  note clean = push_char_not_line_end [OF xml_clean_scalar this]
  have "escape_char n = push_char (xml_clean n)
      \<or> escape_char n \<in> {''&amp;'', ''&lt;'', ''&gt;'', ''&apos;'', ''&quot;''}"
    by (auto simp: escape_char_def xml_clean_def)
  with clean show "CR \<notin> set (escape_char n)" "LF \<notin> set (escape_char n)" "escape_char n \<noteq> []"
    by (auto simp: CR_def LF_def)
qed

text \<open>What is read back of escaped text is the text with its line ends taken so.\<close>

lemma unescape_line_ends_chars:
  "xml_unescape (line_ends b (concat (map escape_char ns))) = line_ends b (of_chars (map xml_clean ns))"
proof (induction ns arbitrary: b)
  case Nil
  then show ?case by (simp add: of_chars_def)
next
  case (Cons n ns)
  have "LF \<noteq> CHR ''&''" by (simp add: LF_def)
  then have line: "xml_unescape (LF # u) = LF # xml_unescape u" for u by simp
  consider "n = 13" | "n = 10" | "n \<noteq> 13" "n \<noteq> 10" by blast
  then show ?case
  proof cases
    case 1
    then show ?thesis using Cons.IH [of True]
      by (simp add: escape_char_line_end of_chars_Cons push_char_line_end line del: xml_unescape.simps)
  next
    case 2
    then show ?thesis using Cons.IH [of False] Cons.IH [of True]
      by (simp add: escape_char_line_end of_chars_Cons push_char_line_end line CR_neq_LF del: xml_unescape.simps)
  next
    case 3
    then have "xml_clean n \<noteq> 13" "xml_clean n \<noteq> 10" by (auto simp: xml_clean_def)
    note clean = push_char_not_line_end [OF xml_clean_scalar this]
    show ?thesis using Cons.IH [of False]
      by (simp add: of_chars_Cons line_ends_text [OF escape_char_not_line_end [OF 3]] line_ends_text [OF clean]
          xml_unescape_escape_char)
  qed
qed

lemma unescape_line_ends: "xml_unescape (line_ends False (escape_text s)) = line_ends False (clean_text s)"
  by (simp add: escape_text_def clean_text_def unescape_line_ends_chars)

lemma element_value_first:
  assumes "find_after (''<'' @ name @ ''>'') (line_ends False doc) =
      Some (line_ends False (escape_text s) @ CHR ''<'' # rest)"
  shows "element_value name doc = Some (line_ends False (clean_text s))"
proof -
  have "CHR ''<'' \<notin> set (line_ends False (escape_text s))"
    using set_line_ends [of False "escape_text s"] no_lt_escape [of s] by (auto simp: LF_def)
  then show ?thesis using assms by (simp add: element_value_def takeWhile_no unescape_line_ends)
qed

lemma clean_text_printable:
  assumes "\<forall>c \<in> set s. 0x20 \<le> byte c \<and> byte c < 0x80"
  shows "clean_text s = s"
proof -
  have s: "of_chars (map byte s) = s" using assms by (simp add: push_chars_ascii)
  have "chars s = map byte s" using assms by (simp add: chars_ascii)
  moreover have "map xml_clean (map byte s) = map byte s"
    using assms by (auto simp: xml_clean_def xml_char_def)
  ultimately show ?thesis by (simp only: clean_text_def s)
qed

lemma clean_text_show [simp]: "clean_text (show_nat n) = show_nat n"
proof (intro clean_text_printable ballI)
  fix c assume "c \<in> set (show_nat n)"
  then have "is_ascii_digit c" by (rule show_nat_digits)
  then show "0x20 \<le> byte c \<and> byte c < 0x80" by (simp add: is_ascii_digit_def)
qed

lemma clean_text_show_word [simp]: "clean_text (show_word w) = show_word w"
  by (simp add: show_word_def)

text \<open>A document as the pieces its \<open><\<close> characters start.\<close>

definition of_chunks :: "string list \<Rightarrow> string" where
  "of_chunks us = concat (map (\<lambda>u. CHR ''<'' # u) us)"

lemma strip_prefix_chunk:
  assumes "CHR ''<'' \<notin> set t" "strip_prefix t u = None"
  shows "strip_prefix t (u @ of_chunks us) = None"
proof (cases "length t \<le> length u")
  case True
  then show ?thesis using assms(2) by (simp add: strip_prefix_def split: if_splits)
next
  case False
  show ?thesis
  proof (rule ccontr)
    assume "strip_prefix t (u @ of_chunks us) \<noteq> None"
    then obtain r where r: "u @ of_chunks us = t @ r" by (auto simp: strip_prefix_Some)
    then obtain w where w: "t = u @ w" "of_chunks us = w @ r" "w \<noteq> []"
      using False by (auto simp: append_eq_append_conv2)
    then have "CHR ''<'' \<in> set w" by (cases us; cases w) (auto simp: of_chunks_def)
    with assms(1) w(1) show False by simp
  qed
qed

lemma line_ends_chunks:
  "line_ends b (of_chunks (us @ vs)) = of_chunks (map (line_ends False) us) @ line_ends False (of_chunks vs)"
proof (induction us arbitrary: b)
    case Nil
    then show ?case by (cases vs) (auto simp: of_chunks_def CR_def LF_def)
  next
    case (Cons u us)
    have "line_ends b (of_chunks ((u # us) @ vs)) = CHR ''<'' # line_ends False (u @ of_chunks (us @ vs))"
      by (simp add: of_chunks_def CR_def LF_def)
    also have "line_ends False (u @ of_chunks (us @ vs)) =
        line_ends False u @ line_ends False (of_chunks (us @ vs))"
    proof (cases "us @ vs")
      case (Cons v ws)
      then have "of_chunks (us @ vs) = CHR ''<'' # v @ of_chunks ws" by (simp add: of_chunks_def)
      then show ?thesis by (simp add: line_ends_chunk CR_def LF_def)
    qed (simp add: of_chunks_def)
    finally show ?case using Cons.IH [of False] by (simp add: of_chunks_def)
qed

lemma element_value_chunks:
  assumes pre: "\<forall>u \<in> set pre. CHR ''<'' \<notin> set u \<and> strip_prefix (name @ ''>'') (line_ends False u) = None"
    and name: "CHR ''<'' \<notin> set name" "CR \<notin> set name"
  shows "element_value name (of_chunks (pre @ (name @ ''>'' @ escape_text s) # u # post)) =
    Some (line_ends False (clean_text s))"
proof -
  let ?t = "line_ends False (escape_text s)" and ?rest = "line_ends False (u @ of_chunks post)"
  define pre' where "pre' = map (line_ends False) pre"
  have pre': "\<forall>u \<in> set pre'. CHR ''<'' \<notin> set u \<and> strip_prefix (name @ ''>'') u = None"
    using pre set_line_ends by (fastforce simp: pre'_def LF_def)
  have "line_ends False (of_chunks ((name @ ''>'' @ escape_text s) # u # post)) =
      ''<'' @ name @ ''>'' @ ?t @ CHR ''<'' # ?rest"
  proof -
    have "of_chunks ((name @ ''>'' @ escape_text s) # u # post) =
        (''<'' @ name @ ''>'') @ escape_text s @ CHR ''<'' # u @ of_chunks post"
      by (simp add: of_chunks_def)
    moreover have "CR \<notin> set (''<'' @ name @ ''>'')" using name(2) by (simp add: CR_def)
    note line_ends_plain [OF this, of "escape_text s @ CHR ''<'' # u @ of_chunks post"]
    ultimately show ?thesis by (simp only: line_ends_chunk append_assoc)
  qed
  then have doc: "line_ends False (of_chunks (pre @ (name @ ''>'' @ escape_text s) # u # post)) =
      of_chunks pre' @ (''<'' @ name @ ''>'') @ ?t @ CHR ''<'' # ?rest"
    by (simp add: line_ends_chunks pre'_def)
  have find: "find_after (''<'' @ name @ ''>'')
      (of_chunks pre' @ (''<'' @ name @ ''>'') @ ?t @ CHR ''<'' # ?rest) = Some (?t @ CHR ''<'' # ?rest)"
    using pre'
  proof (induction pre')
    case Nil
    show ?case unfolding of_chunks_def by (simp only: list.map concat.simps append_Nil find_after_here)
  next
    case (Cons v vs)
    let ?behind = "of_chunks vs @ (''<'' @ name @ ''>'') @ ?t @ CHR ''<'' # ?rest"
    have chunks: "?behind = of_chunks (vs @ [name @ ''>'' @ ?t, ?rest])" by (simp add: of_chunks_def)
    have eq: "of_chunks (v # vs) @ (''<'' @ name @ ''>'') @ ?t @ CHR ''<'' # ?rest = CHR ''<'' # v @ ?behind"
      by (simp add: of_chunks_def)
    have "strip_prefix (name @ ''>'') (v @ ?behind) = None"
      unfolding chunks using Cons.prems name(1) by (intro strip_prefix_chunk) simp_all
    then have no: "strip_prefix (CHR ''<'' # name @ ''>'') (CHR ''<'' # v @ ?behind) = None"
      by (simp add: strip_prefix_def split: if_splits)
    have "find_after (CHR ''<'' # name @ ''>'') (v @ ?behind) = find_after (CHR ''<'' # name @ ''>'') ?behind"
      using Cons.prems by (intro find_after_skip) simp
    then show ?case unfolding eq using no Cons.IH Cons.prems by simp
  qed
  show ?thesis by (rule element_value_first [where rest = ?rest]) (simp only: doc find)
qed

lemma numeral_text [simp]: "line_ends False (show_nat n) = show_nat n" "line_ends False (show_word w) = show_word w"
proof -
  have "CR \<notin> set (show_nat n)" for n using show_nat_digits [of CR n] by (auto simp: CR_def is_ascii_digit_def)
  then show "line_ends False (show_nat n) = show_nat n" "line_ends False (show_word w) = show_word w"
    by (simp_all add: line_ends_id show_word_def)
qed

text \<open>A successful \<open>Browse\<close> is read back field by field.\<close>

lemma browse_response_values:
  assumes "doc = soap_response CONTENT_DIRECTORY_TYPE ''Browse'' (browse_output els m n u)"
  shows "element_value ''Result'' doc =
      Some (line_ends False (clean_text (didl_header @ els @ ''</DIDL-Lite>'')))"
    and "element_value ''NumberReturned'' doc = Some (show_nat m)"
    and "element_value ''TotalMatches'' doc = Some (show_nat n)"
    and "element_value ''UpdateID'' doc = Some (show_word u)"
proof -
  let ?didl = "didl_header @ els @ ''</DIDL-Lite>''"
  define hd' where "hd' =
    [''?xml version=\"1.0\" encoding=\"utf-8\"?>'',
     ''s:Envelope xmlns:s=\"http://schemas.xmlsoap.org/soap/envelope/\" s:encodingStyle=\"http://schemas.xmlsoap.org/soap/encoding/\">'',
     ''s:Body>'',
     ''u:BrowseResponse xmlns:u=\"urn:schemas-upnp-org:service:ContentDirectory:1\">'']"
  let ?r = "''Result'' @ ''>'' @ escape_text ?didl"
  let ?m = "''NumberReturned'' @ ''>'' @ escape_text (show_nat m)"
  let ?n = "''TotalMatches'' @ ''>'' @ escape_text (show_nat n)"
  let ?u = "''UpdateID'' @ ''>'' @ escape_text (show_word u)"
  let ?post = "[''/u:BrowseResponse>'', ''/s:Body>'', ''/s:Envelope>'']"
  have doc: "doc = of_chunks (hd' @ ?r # ''/Result>'' # ?m # ''/NumberReturned>'' # ?n
      # ''/TotalMatches>'' # ?u # ''/UpdateID>'' # ?post)"
    by (simp add: assms soap_response_def browse_output_def element_def CONTENT_DIRECTORY_TYPE_def
        of_chunks_def hd'_def)
  have hd': "\<forall>u \<in> set hd'. CHR ''<'' \<notin> set u \<and> strip_prefix ''Result>'' u = None
      \<and> strip_prefix ''NumberReturned>'' u = None \<and> strip_prefix ''TotalMatches>'' u = None
      \<and> strip_prefix ''UpdateID>'' u = None"
    unfolding hd'_def by code_simp
  have same: "line_ends False u = u" if "u \<in> set hd'" for u
    using that by (intro line_ends_id) (auto simp: hd'_def CR_def)
  note val = element_value_chunks [where name = "''Result''"]
    element_value_chunks [where name = "''NumberReturned''"]
    element_value_chunks [where name = "''TotalMatches''"]
    element_value_chunks [where name = "''UpdateID''"]
  show "element_value ''Result'' doc = Some (line_ends False (clean_text ?didl))"
    unfolding doc by (rule val(1)) (use hd' same in \<open>simp_all add: CR_def\<close>)
  have "element_value ''NumberReturned'' (of_chunks ((hd' @ [?r, ''/Result>''])
      @ ?m # ''/NumberReturned>'' # ?n # ''/TotalMatches>'' # ?u # ''/UpdateID>'' # ?post)) =
      Some (line_ends False (clean_text (show_nat m)))"
    by (rule val(2)) (use hd' same in \<open>auto simp: no_lt_escape strip_prefix_def CR_def LF_def\<close>)
  then show "element_value ''NumberReturned'' doc = Some (show_nat m)" unfolding doc by simp
  have "element_value ''TotalMatches'' (of_chunks ((hd' @ [?r, ''/Result>'', ?m, ''/NumberReturned>''])
      @ ?n # ''/TotalMatches>'' # ?u # ''/UpdateID>'' # ?post)) =
      Some (line_ends False (clean_text (show_nat n)))"
    by (rule val(3)) (use hd' same in \<open>auto simp: no_lt_escape strip_prefix_def CR_def LF_def\<close>)
  then show "element_value ''TotalMatches'' doc = Some (show_nat n)" unfolding doc by simp
  have "element_value ''UpdateID'' (of_chunks ((hd' @ [?r, ''/Result>'', ?m, ''/NumberReturned>'',
      ?n, ''/TotalMatches>'']) @ ?u # ''/UpdateID>'' # ?post)) = Some (line_ends False (clean_text (show_word u)))"
    by (rule val(4)) (use hd' same in \<open>auto simp: no_lt_escape strip_prefix_def CR_def LF_def\<close>)
  then show "element_value ''UpdateID'' doc = Some (show_word u)" unfolding doc by simp
qed

section \<open>Requests\<close>

text \<open>
  A request as the reader reports it: an envelope whose action element holds one element per
  argument.  An argument is an element that closes itself (\<open>None\<close>) or one that holds events which
  open and close nothing: texts, and between them references, CDATA sections or comments.
\<close>

type_synonym written = "xml_event list option"

definition content_event :: "xml_event \<Rightarrow> bool" where
  "content_event e = (case e of TextEvent _ \<Rightarrow> True | OtherEvent \<Rightarrow> True | _ \<Rightarrow> False)"

definition written_ok :: "written \<Rightarrow> bool" where
  "written_ok w = (case w of None \<Rightarrow> True | Some ps \<Rightarrow> list_all content_event ps)"

fun argument_events :: "(string \<times> written) list \<Rightarrow> (string + xml_event) list" where
  "argument_events [] = []"
| "argument_events ((name, None) # rest) = Inr (EmptyEvent name) # argument_events rest"
| "argument_events ((name, Some ps) # rest) =
    (Inr (StartEvent name) # map Inr ps) @ Inr EndEvent # argument_events rest"

definition request_events :: "string \<Rightarrow> (string \<times> written) list \<Rightarrow> (string + xml_event) list" where
  "request_events action args =
    [Inr (StartEvent ''Envelope''), Inr (StartEvent ''Body''), Inr (StartEvent action)]
    @ argument_events args @ [Inr EndEvent, Inr EndEvent, Inr EndEvent, Inr EofEvent]"

text \<open>The value of an argument is its first text, unescaped; without one it is empty.\<close>

fun first_text :: "xml_event list \<Rightarrow> string option" where
  "first_text [] = None"
| "first_text (TextEvent t # ps) = Some t"
| "first_text (_ # ps) = first_text ps"

definition written_value :: "(string \<Rightarrow> string option) \<Rightarrow> written \<Rightarrow> string option" where
  "written_value unescape w =
    (case Option.bind w first_text of None \<Rightarrow> Some [] | Some t \<Rightarrow> unescape (to_string_lossy t))"

definition plain_text :: "(string \<Rightarrow> string option) \<Rightarrow> string \<Rightarrow> bool" where
  "plain_text unescape s = (to_string_lossy s = s \<and> unescape s = Some s)"

lemma skip_content:
  "list_all content_event ps \<Longrightarrow>
    read_arguments unescape (map Inr ps @ rest) None m = read_arguments unescape rest None m"
  by (induction ps) (auto simp: content_event_def split: xml_event.splits)

lemma read_content:
  assumes "list_all content_event ps"
  shows "read_arguments unescape (map Inr ps @ Inr EndEvent # rest) (Some n) m =
    (case first_text ps of
       None \<Rightarrow> read_arguments unescape rest None (hm_or_default n [] m)
     | Some t \<Rightarrow>
        (case unescape (to_string_lossy t) of
           None \<Rightarrow> Inl (InvalidXml ''escape'')
         | Some v \<Rightarrow> read_arguments unescape rest None (hm_insert n v m)))"
  using assms
proof (induction ps)
  case (Cons p ps)
  then consider t where "p = TextEvent t" | "p = OtherEvent"
    by (auto simp: content_event_def split: xml_event.splits)
  then show ?case
    by cases (use Cons in \<open>auto simp: skip_content split: option.split\<close>)
qed simp

lemma read_argument:
  assumes "to_string_lossy n = n" "written_ok w"
  shows "case written_value unescape w of
       None \<Rightarrow> read_arguments unescape (argument_events ((n, w) # args) @ rest) current m =
         Inl (InvalidXml ''escape'')
     | Some v \<Rightarrow> \<exists>m'. read_arguments unescape (argument_events ((n, w) # args) @ rest) current m =
           read_arguments unescape (argument_events args @ rest) None m'
         \<and> (hm_get m n = None \<longrightarrow> hm_get m' = (hm_get m)(n \<mapsto> v))"
proof (cases w)
  case None
  then show ?thesis using assms(1)
    by (auto simp: written_value_def fun_eq_iff hm_get_or_default intro!: exI [of _ "hm_or_default n [] m"])
next
  case (Some ps)
  then have "list_all content_event ps" using assms(2) by (simp add: written_ok_def)
  note read_content [OF this, of unescape "argument_events args @ rest" n m]
  then have "read_arguments unescape (argument_events ((n, w) # args) @ rest) current m =
    (case first_text ps of
       None \<Rightarrow> read_arguments unescape (argument_events args @ rest) None (hm_or_default n [] m)
     | Some t \<Rightarrow>
        (case unescape (to_string_lossy t) of
           None \<Rightarrow> Inl (InvalidXml ''escape'')
         | Some v \<Rightarrow> read_arguments unescape (argument_events args @ rest) None (hm_insert n v m)))"
    using assms(1) by (simp add: Some)
  moreover have "hm_get m n = None \<Longrightarrow> hm_get (hm_or_default n [] m) = (hm_get m)(n \<mapsto> [])"
    by (auto simp: fun_eq_iff hm_get_or_default)
  moreover have "hm_get (hm_insert n v m) = (hm_get m)(n \<mapsto> v)" for v by (auto simp: fun_eq_iff)
  ultimately show ?thesis unfolding written_value_def Some
    by (cases "first_text ps") (force split: option.split)+
qed

lemma read_bad_argument:
  assumes "\<forall>(n, w) \<in> set args. to_string_lossy n = n \<and> written_ok w"
    and "\<exists>(n, w) \<in> set args. written_value unescape w = None"
  shows "read_arguments unescape (argument_events args @ rest) current m = Inl (InvalidXml ''escape'')"
  using assms
proof (induction args arbitrary: m current)
  case (Cons a args)
  obtain n w where a: "a = (n, w)" by force
  then have "to_string_lossy n = n" "written_ok w" using Cons.prems(1) by auto
  note step = read_argument [OF this, of unescape args rest current m]
  show ?case
  proof (cases "written_value unescape w")
    case None
    then show ?thesis using step by (simp add: a)
  next
    case (Some v)
    then obtain m' where "read_arguments unescape (argument_events (a # args) @ rest) current m =
        read_arguments unescape (argument_events args @ rest) None m'" using step by (auto simp: a)
    moreover have "\<exists>(n, w) \<in> set args. written_value unescape w = None" using Cons.prems(2) Some a by auto
    ultimately show ?thesis using Cons.IH Cons.prems(1) by simp
  qed
qed simp

lemma read_good_arguments:
  assumes "\<forall>(n, w) \<in> set args. to_string_lossy n = n \<and> written_ok w \<and> written_value unescape w \<noteq> None"
    and "distinct (map fst args)" and "\<forall>n \<in> set (map fst args). hm_get m n = None" and "args \<noteq> []"
  shows "\<exists>m'. read_arguments unescape (argument_events args @ rest) current m =
      read_arguments unescape rest None m'
    \<and> hm_get m' = (\<lambda>k. case map_of args k of None \<Rightarrow> hm_get m k | Some w \<Rightarrow> written_value unescape w)"
  using assms
proof (induction args arbitrary: m current)
  case (Cons a args)
  obtain n w where a: "a = (n, w)" by force
  then have "to_string_lossy n = n" "written_ok w" using Cons.prems(1) by auto
  note step = read_argument [OF this, of unescape args rest current m]
  obtain v where v: "written_value unescape w = Some v" using Cons.prems(1) a by auto
  with step Cons.prems(3) obtain m1
    where m1: "read_arguments unescape (argument_events (a # args) @ rest) current m =
        read_arguments unescape (argument_events args @ rest) None m1"
      "hm_get m1 = (hm_get m)(n \<mapsto> v)"
    by (auto simp: a)
  have none: "map_of args n = None" using Cons.prems(2) by (simp add: a map_of_eq_None_iff)
  show ?case
  proof (cases "args = []")
    case True
    then show ?thesis using m1 v by (auto simp: a fun_eq_iff intro!: exI [of _ m1])
  next
    case False
    have "\<forall>n \<in> set (map fst args). hm_get m1 n = None" using Cons.prems(2,3) by (auto simp: a m1)
    then obtain m' where m': "read_arguments unescape (argument_events args @ rest) None m1 =
        read_arguments unescape rest None m'"
      "hm_get m' = (\<lambda>k. case map_of args k of None \<Rightarrow> hm_get m1 k | Some w \<Rightarrow> written_value unescape w)"
      using Cons.IH [of m1 None] Cons.prems(1,2) False by auto
    have "hm_get m' = (\<lambda>k. case map_of (a # args) k of None \<Rightarrow> hm_get m k | Some w \<Rightarrow> written_value unescape w)"
      unfolding m'(2) m1(2) using none v by (auto simp: a fun_eq_iff split: option.split)
    then show ?thesis using m1(1) m'(1) by auto
  qed
qed simp

text \<open>An action element without arguments is taken as an argument itself.\<close>

definition request_arguments ::
  "(string \<Rightarrow> string option) \<Rightarrow> string \<Rightarrow> (string \<times> written) list \<Rightarrow> string \<Rightarrow> string option" where
  "request_arguments unescape action args =
    (if args = [] then [to_string_lossy action \<mapsto> []]
     else (\<lambda>n. Option.bind (map_of args n) (written_value unescape)))"

lemma read_request_events:
  assumes "\<forall>(n, w) \<in> set args. to_string_lossy n = n \<and> written_ok w" and "distinct (map fst args)"
  shows "if \<exists>(n, w) \<in> set args. written_value unescape w = None
    then read_arguments unescape (request_events action args) None [] = Inl (InvalidXml ''escape'')
    else \<exists>m. read_arguments unescape (request_events action args) None [] = Inr m
      \<and> hm_get m = request_arguments unescape action args"
proof -
  let ?tail = "[Inr EndEvent, Inr EndEvent, Inr EndEvent, Inr EofEvent]"
  have head: "read_arguments unescape (request_events action args) None [] =
      read_arguments unescape (argument_events args @ ?tail) (Some (to_string_lossy action)) []"
    by (simp add: request_events_def)
  consider "args = []" | "\<exists>(n, w) \<in> set args. written_value unescape w = None"
    | "args \<noteq> []" "\<not> (\<exists>(n, w) \<in> set args. written_value unescape w = None)" by blast
  then show ?thesis
  proof cases
    case 1
    then show ?thesis unfolding head
      by (auto simp: request_arguments_def fun_eq_iff hm_get_or_default)
  next
    case 2
    then show ?thesis unfolding head using read_bad_argument [OF assms(1)] by simp
  next
    case 3
    then have "\<forall>(n, w) \<in> set args. to_string_lossy n = n \<and> written_ok w \<and> written_value unescape w \<noteq> None"
      using assms(1) by blast
    from read_good_arguments [OF this assms(2) _ 3(1), of "[]" ?tail "Some (to_string_lossy action)"]
    obtain m where m: "read_arguments unescape (argument_events args @ ?tail)
        (Some (to_string_lossy action)) [] = read_arguments unescape ?tail None m"
      "hm_get m = (\<lambda>k. case map_of args k of None \<Rightarrow> hm_get [] k | Some w \<Rightarrow> written_value unescape w)"
      by auto
    have "hm_get m = request_arguments unescape action args"
      using 3(1) by (auto simp: m(2) request_arguments_def fun_eq_iff split: option.split)
    with m(1) 3(2) show ?thesis unfolding head by auto
  qed
qed

lemma soap_action_header:
  assumes "CHR ''#'' \<notin> set action" "CHR 0x22 \<notin> set action" "CHR '' '' \<notin> set action" "action \<noteq> []"
    and "service \<noteq> []" "hd service \<noteq> CHR 0x22" "hd service \<noteq> CHR '' ''"
  shows "rsplit_once CHR ''#'' (trim_matches (\<lambda>c. c = CHR 0x22 \<or> c = CHR '' '')
      (CHR 0x22 # service @ CHR ''#'' # action @ [CHR 0x22])) = Some (service, action)"
proof -
  let ?p = "\<lambda>c. c = CHR 0x22 \<or> c = CHR '' ''"
  have front: "dropWhile ?p (CHR 0x22 # service @ CHR ''#'' # action @ [CHR 0x22]) =
      service @ CHR ''#'' # action @ [CHR 0x22]"
    using assms(5-7) by (cases service) auto
  obtain c cs where c: "rev action = c # cs" using assms(4) by (cases "rev action") auto
  have "\<not> ?p c" using assms(2,3) c by (metis list.set_intros(1) set_rev)
  then have "dropWhile ?p (rev action @ CHR ''#'' # rev service) = rev action @ CHR ''#'' # rev service"
    by (simp add: c)
  then have "trim_matches ?p (CHR 0x22 # service @ CHR ''#'' # action @ [CHR 0x22]) =
      service @ CHR ''#'' # action"
    unfolding trim_matches_def front by simp
  then show ?thesis using rsplit_once_append [OF assms(1)] by simp
qed

text \<open>
  An argument is the text up to the first event that is not text, so what follows a general
  reference or a CDATA section inside an argument is lost.
\<close>

lemma argument_cut_at_reference:
  assumes "plain_text unescape a" "to_string_lossy n = n"
  shows "read_arguments unescape
      [Inr (StartEvent n), Inr (TextEvent a), Inr OtherEvent, Inr (TextEvent b), Inr EndEvent,
       Inr EofEvent] None [] = Inr [(n, a)]"
  using assms by (simp add: plain_text_def)

end
