(* ===== verification/Events.thy ===== *)
theory Events
  imports Description Filesystem Stores
begin

text \<open>
  UPnP eventing of \<open>crates/joedlna-core/src/events.rs\<close>: subscriptions, their renewal, expiry and
  cancellation, and the notifications sent to them.

  The state behind the mutex is \<open>event_manager\<close>; every method is a function from the state to
  the state and what it returns or sends, one critical section of the code each.  Parameters
  stand for what is not in the repository: \<open>header_map\<close> gives the value of a request header
  where it is readable text (\<open>HeaderMap::get\<close> and \<open>HeaderValue::to_str\<close>), the identifier a
  subscription gets is made from a UUID passed in (\<open>Uuid::new_v4\<close>), and clock readings are
  arguments.  Connecting and writing to a subscriber is not modelled, the bytes written are.
\<close>

section \<open>The data\<close>

datatype event_service = ContentDirectory | ConnectionManager

record subscription_response =
  sr_sid :: string
  sr_timeout_seconds :: u64
  sr_is_new :: bool

datatype subscription_error =
  IncompatibleHeaders | InvalidCallback | UnsafeCallback | InvalidNt | InvalidSid

record callback =
  cb_address :: socket_addr_v4
  cb_path :: string

text \<open>Instants are nanoseconds of the monotonic clock.\<close>

type_synonym instant = nat

record subscription =
  sub_service :: event_service
  sub_callback :: callback
  sub_expires :: instant
  sub_sequence :: u32

record event_manager =
  em_subscriptions :: "(string, subscription) hash_map"
  em_interface :: ipv4

record notification_msg =
  nt_callback :: callback
  nt_sid :: string
  nt_sequence :: u32
  nt_body :: string

type_synonym header_map = "string \<Rightarrow> string option"

definition new_manager :: "ipv4 \<Rightarrow> event_manager" where
  "new_manager interface = \<lparr>em_subscriptions = [], em_interface = interface\<rparr>"

section \<open>Reading the headers\<close>

definition DEFAULT_TIMEOUT_SECONDS :: u64 where "DEFAULT_TIMEOUT_SECONDS = 1800"
definition MAX_TIMEOUT_SECONDS :: u64 where "MAX_TIMEOUT_SECONDS = 86400"

definition clamp :: "'a::linorder \<Rightarrow> 'a \<Rightarrow> 'a \<Rightarrow> 'a" where
  "clamp lo hi x = (if x < lo then lo else if hi < x then hi else x)"

definition parse_timeout :: "string option \<Rightarrow> u64" where
  "parse_timeout v =
    clamp 1 MAX_TIMEOUT_SECONDS
      (case Option.bind (Option.bind v (strip_prefix ''Second-'')) parse_word of
         Some n \<Rightarrow> n
       | None \<Rightarrow> DEFAULT_TIMEOUT_SECONDS)"

definition parse_callback :: "string \<Rightarrow> subscription_error + callback" where
  "parse_callback v =
    bind_result
      (ok_or
        (Option.bind (strip_prefix ''<'' (trim v))
          (\<lambda>v. map_option fst (split_once CHR ''>'' v)))
        InvalidCallback) (\<lambda>url.
    bind_result (ok_or (strip_prefix ''http://'' url) InvalidCallback) (\<lambda>authority_and_path.
    (case (case split_once CHR ''/'' authority_and_path of
             None \<Rightarrow> (authority_and_path, ''/'')
           | Some (authority, p) \<Rightarrow> (authority, p)) of
       (authority, p) \<Rightarrow>
         bind_result (ok_or (rsplit_once CHR '':'' authority) InvalidCallback) (\<lambda>(host, port).
         bind_result (ok_or (parse_ipv4 host) InvalidCallback) (\<lambda>ip.
         bind_result (ok_or (parse_word port) InvalidCallback) (\<lambda>port'.
           Inr \<lparr>cb_address = \<lparr>addr_ip = ip, addr_port = port'\<rparr>,
                cb_path = (if p = ''/'' then p else ''/'' @ p)\<rparr>))))))"

fun same_private_network :: "ipv4 \<Rightarrow> ipv4 \<Rightarrow> bool" where
  "same_private_network (a, b, c, d) (a', b', c', d') =
    ((a = 10 \<and> a' = 10)
     \<or> (a = 172 \<and> a' = 172 \<and> 16 \<le> b \<and> b \<le> 31 \<and> 16 \<le> b' \<and> b' \<le> 31)
     \<or> (a = 192 \<and> b = 168 \<and> a' = 192 \<and> b' = 168)
     \<or> (a = 169 \<and> b = 254 \<and> a' = 169 \<and> b' = 254)
     \<or> (a = 127 \<and> a' = 127))"

section \<open>Subscribing\<close>

definition prune_expired ::
  "instant \<Rightarrow> (string, subscription) hash_map \<Rightarrow> (string, subscription) hash_map" where
  "prune_expired now = hm_retain (\<lambda>sid s. now < sub_expires s)"

definition subscribe ::
  "instant \<Rightarrow> instant \<Rightarrow> string \<Rightarrow> event_service \<Rightarrow> header_map \<Rightarrow> ipv4 \<Rightarrow> event_manager \<Rightarrow>
    (subscription_error + subscription_response) \<times> event_manager" where
  "subscribe now later uuid service headers requester em =
    (let callback = headers ''callback''; nt = headers ''nt'';
         timeout_seconds = parse_timeout (headers ''timeout'')
     in case headers ''sid'' of
       Some sid \<Rightarrow>
         if callback \<noteq> None \<or> nt \<noteq> None then (Inl IncompatibleHeaders, em)
         else
           (let subs = prune_expired now (em_subscriptions em);
                em' = em\<lparr>em_subscriptions := subs\<rparr>
            in case hm_get subs sid of
              None \<Rightarrow> (Inl InvalidSid, em')
            | Some s \<Rightarrow>
                if sub_service s \<noteq> service then (Inl InvalidSid, em')
                else
                  (Inr \<lparr>sr_sid = sid, sr_timeout_seconds = timeout_seconds, sr_is_new = False\<rparr>,
                   em\<lparr>em_subscriptions :=
                     hm_insert sid (s\<lparr>sub_expires := later + from_secs timeout_seconds\<rparr>) subs\<rparr>))
     | None \<Rightarrow>
         if nt \<noteq> Some ''upnp:event'' then (Inl InvalidNt, em)
         else case bind_result (ok_or callback InvalidCallback) parse_callback of
           Inl e \<Rightarrow> (Inl e, em)
         | Inr cb \<Rightarrow>
             if addr_ip (cb_address cb) \<noteq> requester
                \<or> \<not> same_private_network (em_interface em) (addr_ip (cb_address cb))
             then (Inl UnsafeCallback, em)
             else
               (let sid = ''uuid:'' @ uuid in
                (Inr \<lparr>sr_sid = sid, sr_timeout_seconds = timeout_seconds, sr_is_new = True\<rparr>,
                 em\<lparr>em_subscriptions :=
                   hm_insert sid
                     \<lparr>sub_service = service, sub_callback = cb,
                      sub_expires = later + from_secs timeout_seconds, sub_sequence = 0\<rparr>
                     (em_subscriptions em)\<rparr>)))"

definition unsubscribe ::
  "event_service \<Rightarrow> header_map \<Rightarrow> event_manager \<Rightarrow> (subscription_error + unit) \<times> event_manager" where
  "unsubscribe service headers em =
    (if headers ''callback'' \<noteq> None \<or> headers ''nt'' \<noteq> None then (Inl IncompatibleHeaders, em)
     else case headers ''sid'' of
       None \<Rightarrow> (Inl InvalidSid, em)
     | Some sid \<Rightarrow>
         if map_option sub_service (hm_get (em_subscriptions em) sid) \<noteq> Some service
         then (Inl InvalidSid, em)
         else (Inr (), em\<lparr>em_subscriptions := hm_remove sid (em_subscriptions em)\<rparr>))"

section \<open>Notifications\<close>

definition event_body :: "event_service \<Rightarrow> u32 \<Rightarrow> string" where
  \<open>event_body service update =
    ''<?xml version="1.0" encoding="utf-8"?>''
    @ ''<e:propertyset xmlns:e="urn:schemas-upnp-org:event-1-0">''
    @ (case service of
         ContentDirectory \<Rightarrow>
           ''<e:property><SystemUpdateID>'' @ show_word update @ ''</SystemUpdateID></e:property>''
       | ConnectionManager \<Rightarrow>
           ''<e:property><SourceProtocolInfo>'' @ escape_text source_protocol_info
           @ ''</SourceProtocolInfo></e:property><e:property><SinkProtocolInfo>''
           @ ''</SinkProtocolInfo></e:property><e:property><CurrentConnectionIDs>0''
           @ ''</CurrentConnectionIDs></e:property>'')
    @ ''</e:propertyset>''\<close>

definition next_sequence :: "u32 \<Rightarrow> u32" where
  "next_sequence q = (if q = - 1 then 1 else q + 1)"

definition notification :: "string \<Rightarrow> subscription \<Rightarrow> u32 \<Rightarrow> notification_msg \<times> subscription" where
  "notification sid s update =
    (\<lparr>nt_callback = sub_callback s, nt_sid = sid, nt_sequence = sub_sequence s,
      nt_body = event_body (sub_service s) update\<rparr>,
     s\<lparr>sub_sequence := next_sequence (sub_sequence s)\<rparr>)"

definition notify_initial :: "string \<Rightarrow> u32 \<Rightarrow> event_manager \<Rightarrow> notification_msg list \<times> event_manager" where
  "notify_initial sid update em =
    (case hm_get (em_subscriptions em) sid of
       None \<Rightarrow> ([], em)
     | Some s \<Rightarrow>
         (case notification sid s update of
            (n, s') \<Rightarrow> ([n], em\<lparr>em_subscriptions := hm_insert sid s' (em_subscriptions em)\<rparr>)))"

text \<open>The iteration over the map, in its own order, with the subscriptions updated in place.\<close>

fun notify_each ::
  "u32 \<Rightarrow> (string, subscription) hash_map \<Rightarrow> notification_msg list \<times> (string, subscription) hash_map" where
  "notify_each update [] = ([], [])"
| "notify_each update ((sid, s) # rest) =
    (case notify_each update rest of
       (ns, rest') \<Rightarrow>
         if sub_service s = ContentDirectory
         then (case notification sid s update of (n, s') \<Rightarrow> (n # ns, (sid, s') # rest'))
         else (ns, (sid, s) # rest'))"

definition notify_content_changed ::
  "instant \<Rightarrow> u32 \<Rightarrow> event_manager \<Rightarrow> notification_msg list \<times> event_manager" where
  "notify_content_changed now update em =
    (case notify_each update (prune_expired now (em_subscriptions em)) of
       (ns, subs) \<Rightarrow> (ns, em\<lparr>em_subscriptions := subs\<rparr>))"

text \<open>What \<open>send_notification\<close> writes to the subscriber's socket.\<close>

definition notify_request :: "notification_msg \<Rightarrow> string" where
  \<open>notify_request n =
    ''NOTIFY '' @ cb_path (nt_callback n) @ '' HTTP/1.1'' @ crlf
    @ ''HOST: '' @ show_socket_addr (cb_address (nt_callback n)) @ crlf
    @ ''CONTENT-TYPE: text/xml; charset="utf-8"'' @ crlf
    @ ''CONTENT-LENGTH: '' @ show_nat (length (nt_body n)) @ crlf
    @ ''NT: upnp:event'' @ crlf @ ''NTS: upnp:propchange'' @ crlf
    @ ''SID: '' @ nt_sid n @ crlf @ ''SEQ: '' @ show_word (nt_sequence n) @ crlf
    @ ''CONNECTION: close'' @ crlf @ crlf @ nt_body n\<close>

end
