(* ===== verification/Events_Facts.thy ===== *)
theory Events_Facts
  imports Events
begin

text \<open>
  Lemmas on \<open>Events\<close>: the timeouts and callbacks a subscription may have, the state machine of
  the subscription table with its invariant and the numbering of notifications, and the
  request a notification is sent as.
\<close>

section \<open>Timeouts\<close>

lemma clamp_bounds: "lo \<le> hi \<Longrightarrow> lo \<le> clamp lo hi x \<and> clamp lo hi x \<le> hi"
  for lo hi x :: "'a::linorder"
  by (auto simp: clamp_def)

lemma clamp_id: "lo \<le> x \<Longrightarrow> x \<le> hi \<Longrightarrow> clamp lo hi x = x"
  for lo hi x :: "'a::linorder"
  by (auto simp: clamp_def)

lemma parse_timeout_bounds: "1 \<le> parse_timeout v \<and> parse_timeout v \<le> 86400"
  unfolding parse_timeout_def MAX_TIMEOUT_SECONDS_def by (rule clamp_bounds) simp

lemma parse_timeout_seconds:
  "1 \<le> n \<Longrightarrow> n \<le> 86400 \<Longrightarrow> parse_timeout (Some (''Second-'' @ show_word n)) = n"
  unfolding parse_timeout_def MAX_TIMEOUT_SECONDS_def
  using strip_prefix_append [of "''Second-''" "show_word n"] by (simp add: clamp_id)

section \<open>The subscription table\<close>

text \<open>Every stored callback is in the private network of the interface.\<close>

definition manager_inv :: "event_manager \<Rightarrow> bool" where
  "manager_inv em =
    (hm_ok (em_subscriptions em)
     \<and> (\<forall>sid s. hm_get (em_subscriptions em) sid = Some s \<longrightarrow>
          same_private_network (em_interface em) (addr_ip (cb_address (sub_callback s)))))"

lemma manager_invI:
  assumes "hm_ok (em_subscriptions em)"
    and "\<And>sid s. hm_get (em_subscriptions em) sid = Some s \<Longrightarrow>
      same_private_network (em_interface em) (addr_ip (cb_address (sub_callback s)))"
  shows "manager_inv em"
  using assms by (simp add: manager_inv_def)

lemma manager_inv_ok: "manager_inv em \<Longrightarrow> hm_ok (em_subscriptions em)"
  by (simp add: manager_inv_def)

lemma manager_inv_get:
  "manager_inv em \<Longrightarrow> hm_get (em_subscriptions em) sid = Some s \<Longrightarrow>
    same_private_network (em_interface em) (addr_ip (cb_address (sub_callback s)))"
  unfolding manager_inv_def by blast

lemma new_manager_inv: "manager_inv (new_manager interface)"
  by (simp add: manager_inv_def new_manager_def hm.wf_nil)

lemma prune_get:
  "hm_ok m \<Longrightarrow> hm_get (prune_expired now m) sid = Some s \<longleftrightarrow> hm_get m sid = Some s \<and> now < sub_expires s"
  unfolding prune_expired_def by (rule hm.get_retain_Some)

lemma prune_ok: "hm_ok m \<Longrightarrow> hm_ok (prune_expired now m)"
  unfolding prune_expired_def by (rule hm.wf_retain)

lemma prune_inv: "manager_inv em \<Longrightarrow> manager_inv (em\<lparr>em_subscriptions := prune_expired now (em_subscriptions em)\<rparr>)"
  using manager_inv_ok [of em] manager_inv_get [of em]
  by (intro manager_invI) (auto simp: prune_ok prune_get)

lemma insert_inv:
  assumes "manager_inv em"
    and "same_private_network (em_interface em) (addr_ip (cb_address (sub_callback s)))"
  shows "manager_inv (em\<lparr>em_subscriptions := hm_insert sid s (em_subscriptions em)\<rparr>)"
  using assms manager_inv_ok [OF assms(1)] manager_inv_get [OF assms(1)]
  by (intro manager_invI) (auto split: if_splits)

lemma remove_inv:
  "manager_inv em \<Longrightarrow> manager_inv (em\<lparr>em_subscriptions := hm_remove sid (em_subscriptions em)\<rparr>)"
  using manager_inv_ok [of em] manager_inv_get [of em]
  by (intro manager_invI) (auto simp: hm.wf_del hm.get_del split: if_splits)

text \<open>Subscribing, case by case.\<close>

lemma subscribe_new:
  assumes "headers ''sid'' = None" "headers ''nt'' = Some ''upnp:event''"
    "headers ''callback'' = Some v" "parse_callback v = Inr cb"
    "addr_ip (cb_address cb) = requester" "same_private_network (em_interface em) requester"
  shows "subscribe now later uuid service headers requester em =
    (Inr \<lparr>sr_sid = ''uuid:'' @ uuid, sr_timeout_seconds = parse_timeout (headers ''timeout''),
      sr_is_new = True\<rparr>,
     em\<lparr>em_subscriptions := hm_insert (''uuid:'' @ uuid)
       \<lparr>sub_service = service, sub_callback = cb,
        sub_expires = later + from_secs (parse_timeout (headers ''timeout'')), sub_sequence = 0\<rparr>
       (em_subscriptions em)\<rparr>)"
  using assms by (simp add: subscribe_def Let_def)

lemma subscribe_new_cases:
  assumes "headers ''sid'' = None"
  obtains (refused) e where "subscribe now later uuid service headers requester em = (Inl e, em)"
  | (granted) v cb where "headers ''nt'' = Some ''upnp:event''" "headers ''callback'' = Some v"
      "parse_callback v = Inr cb" "addr_ip (cb_address cb) = requester"
      "same_private_network (em_interface em) requester"
proof (cases "headers ''nt'' = Some ''upnp:event''")
  case nt: True
  show ?thesis
  proof (cases "headers ''callback''")
    case None
    then show ?thesis by (intro refused) (simp add: subscribe_def Let_def assms nt)
  next
    case v: (Some v)
    show ?thesis
    proof (cases "parse_callback v")
      case (Inl e)
      then show ?thesis by (intro refused) (simp add: subscribe_def Let_def assms nt v)
    next
      case (Inr cb)
      show ?thesis
      proof (cases "addr_ip (cb_address cb) = requester \<and> same_private_network (em_interface em) requester")
        case True
        then show ?thesis using granted [OF nt v Inr] by blast
      next
        case False
        then show ?thesis by (intro refused) (auto simp: subscribe_def Let_def assms nt v Inr)
      qed
    qed
  qed
next
  case False
  then show ?thesis by (intro refused) (simp add: subscribe_def Let_def assms)
qed

lemma subscribe_renew:
  assumes "headers ''sid'' = Some sid" "headers ''callback'' = None" "headers ''nt'' = None"
    "hm_get (prune_expired now (em_subscriptions em)) sid = Some s" "sub_service s = service"
  shows "subscribe now later uuid service headers requester em =
    (Inr \<lparr>sr_sid = sid, sr_timeout_seconds = parse_timeout (headers ''timeout''),
      sr_is_new = False\<rparr>,
     em\<lparr>em_subscriptions :=
       hm_insert sid (s\<lparr>sub_expires := later + from_secs (parse_timeout (headers ''timeout''))\<rparr>)
         (prune_expired now (em_subscriptions em))\<rparr>)"
  using assms by (simp add: subscribe_def Let_def)

lemma subscribe_renew_cases:
  assumes "headers ''sid'' = Some sid"
  obtains (refused) e em' where "subscribe now later uuid service headers requester em = (Inl e, em')"
      "em' = em \<or> em' = em\<lparr>em_subscriptions := prune_expired now (em_subscriptions em)\<rparr>"
  | (granted) s where "headers ''callback'' = None" "headers ''nt'' = None"
      "hm_get (prune_expired now (em_subscriptions em)) sid = Some s" "sub_service s = service"
proof (cases "headers ''callback'' \<noteq> None \<or> headers ''nt'' \<noteq> None")
  case True
  then show ?thesis by (intro refused [of IncompatibleHeaders em]) (simp_all add: subscribe_def Let_def assms)
next
  case False
  then have h: "headers ''callback'' = None" "headers ''nt'' = None" by simp_all
  let ?em = "em\<lparr>em_subscriptions := prune_expired now (em_subscriptions em)\<rparr>"
  show ?thesis
  proof (cases "hm_get (prune_expired now (em_subscriptions em)) sid")
    case None
    then show ?thesis by (intro refused [of InvalidSid ?em]) (simp_all add: subscribe_def Let_def assms h)
  next
    case (Some s)
    show ?thesis
    proof (cases "sub_service s = service")
      case True
      then show ?thesis by (rule granted [OF h Some])
    next
      case False
      then show ?thesis using Some
        by (intro refused [of InvalidSid ?em]) (simp_all add: subscribe_def Let_def assms h)
    qed
  qed
qed

lemma subscribe_inv:
  assumes inv: "manager_inv em"
  shows "manager_inv (snd (subscribe now later uuid service headers requester em))"
proof (cases "headers ''sid''")
  case None
  then show ?thesis
  proof (cases rule: subscribe_new_cases [where em = em and requester = requester and now = now
        and later = later and uuid = uuid and service = service])
    case (granted v cb)
    then show ?thesis
      by (simp add: subscribe_new [OF None granted(1-5)] insert_inv [OF inv])
  qed (simp add: inv)
next
  case (Some sid)
  let ?em = "em\<lparr>em_subscriptions := prune_expired now (em_subscriptions em)\<rparr>"
  show ?thesis
    using Some
  proof (cases rule: subscribe_renew_cases [where em = em and requester = requester and now = now
        and later = later and uuid = uuid and service = service])
    case (refused e em')
    then show ?thesis using inv prune_inv by auto
  next
    case (granted s)
    have "manager_inv (?em\<lparr>em_subscriptions :=
        hm_insert sid (s\<lparr>sub_expires := later + from_secs (parse_timeout (headers ''timeout''))\<rparr>)
          (em_subscriptions ?em)\<rparr>)"
      using manager_inv_get [OF prune_inv [OF inv, of now], of sid s] granted(3)
      by (intro insert_inv prune_inv inv) simp
    then show ?thesis by (simp add: subscribe_renew [OF Some granted])
  qed
qed

lemma unsubscribe_inv: "manager_inv em \<Longrightarrow> manager_inv (snd (unsubscribe service headers em))"
  by (auto simp: unsubscribe_def remove_inv split: option.splits)

lemma notification_simps [simp]:
  "nt_sid (fst (notification sid s u)) = sid"
  "nt_sequence (fst (notification sid s u)) = sub_sequence s"
  "nt_callback (fst (notification sid s u)) = sub_callback s"
  "sub_callback (snd (notification sid s u)) = sub_callback s"
  "sub_service (snd (notification sid s u)) = sub_service s"
  "sub_expires (snd (notification sid s u)) = sub_expires s"
  "sub_sequence (snd (notification sid s u)) = next_sequence (sub_sequence s)"
  by (simp_all add: notification_def)

lemma notify_each_eq:
  "notify_each u m =
    (map (\<lambda>(sid, s). fst (notification sid s u)) (filter (\<lambda>(sid, s). sub_service s = ContentDirectory) m),
     map (\<lambda>(sid, s). (sid, if sub_service s = ContentDirectory then snd (notification sid s u) else s)) m)"
  by (induction u m rule: notify_each.induct) (auto split: prod.splits)

lemma notify_each_get:
  "hm_get (snd (notify_each u m)) sid =
    map_option (\<lambda>s. if sub_service s = ContentDirectory then snd (notification sid s u) else s)
      (hm_get m sid)"
  unfolding notify_each_eq snd_conv by (induction m) auto

lemma notify_each_ok: "hm_ok m \<Longrightarrow> hm_ok (snd (notify_each u m))"
  by (simp add: notify_each_eq hm_ok_def comp_def case_prod_beta)

text \<open>What one subscriber gets of the notifications of a change.\<close>

lemma notify_each_to:
  "hm_ok m \<Longrightarrow> filter (\<lambda>n. nt_sid n = sid) (fst (notify_each u m)) =
    (case hm_get m sid of
       None \<Rightarrow> []
     | Some s \<Rightarrow> if sub_service s = ContentDirectory then [fst (notification sid s u)] else [])"
proof (induction m)
  case (Cons a m)
  obtain k s where a: "a = (k, s)" by force
  have "hm_ok m" "hm_get m k = None" using Cons.prems by (auto simp: a hm_ok_def map_of_eq_None_iff)
  moreover have "fst (notify_each u (a # m)) =
      (if sub_service s = ContentDirectory then [fst (notification k s u)] else [])
      @ fst (notify_each u m)" by (simp add: notify_each_eq a)
  ultimately show ?case using Cons.IH by (simp add: a)
qed simp

lemma notify_content_changed_eq:
  "notify_content_changed now u em =
    (fst (notify_each u (prune_expired now (em_subscriptions em))),
     em\<lparr>em_subscriptions := snd (notify_each u (prune_expired now (em_subscriptions em)))\<rparr>)"
  by (simp add: notify_content_changed_def split: prod.split)

lemma notify_initial_inv: "manager_inv em \<Longrightarrow> manager_inv (snd (notify_initial sid u em))"
  using manager_inv_get [of em sid]
  by (auto simp: notify_initial_def notification_def insert_inv split: option.splits)

lemma notify_content_changed_inv: "manager_inv em \<Longrightarrow> manager_inv (snd (notify_content_changed now u em))"
  using manager_inv_ok [of em] manager_inv_get [of em]
  by (intro manager_invI)
    (auto simp: notify_content_changed_eq notify_each_ok prune_ok notify_each_get prune_get)

section \<open>Histories\<close>

text \<open>
  The operations handlers and the scanner perform on the shared manager, in the order in which
  they take the lock, and what each sends.
\<close>

datatype event_op =
    Subscribe instant instant string event_service header_map ipv4
  | Unsubscribe event_service header_map
  | Initial string u32
  | Changed instant u32

fun event_step :: "event_op \<Rightarrow> event_manager \<Rightarrow> notification_msg list \<times> event_manager" where
  "event_step (Subscribe now later uuid service headers requester) em =
    ([], snd (subscribe now later uuid service headers requester em))"
| "event_step (Unsubscribe service headers) em = ([], snd (unsubscribe service headers em))"
| "event_step (Initial sid u) em = notify_initial sid u em"
| "event_step (Changed now u) em = notify_content_changed now u em"

fun event_run :: "event_op list \<Rightarrow> event_manager \<Rightarrow> notification_msg list \<times> event_manager" where
  "event_run [] em = ([], em)"
| "event_run (x # xs) em =
    (case event_step x em of (ns, em') \<Rightarrow>
      (case event_run xs em' of (ms, em'') \<Rightarrow> (ns @ ms, em'')))"

lemma event_run_Cons:
  "event_run (x # xs) em =
    (fst (event_step x em) @ fst (event_run xs (snd (event_step x em))),
     snd (event_run xs (snd (event_step x em))))"
  by (simp split: prod.split)

declare event_run.simps(2) [simp del]

lemma event_step_inv: "manager_inv em \<Longrightarrow> manager_inv (snd (event_step x em))"
  by (cases x)
    (simp_all add: subscribe_inv unsubscribe_inv notify_initial_inv notify_content_changed_inv)

lemma event_run_inv: "manager_inv em \<Longrightarrow> manager_inv (snd (event_run xs em))"
proof (induction xs arbitrary: em)
  case (Cons x xs)
  show ?case unfolding event_run_Cons snd_conv by (intro Cons.IH event_step_inv Cons.prems)
qed simp

text \<open>Every notification goes to a callback of the private network.\<close>

lemma event_step_private:
  assumes inv: "manager_inv em" and n: "n \<in> set (fst (event_step x em))"
  shows "same_private_network (em_interface em) (addr_ip (cb_address (nt_callback n)))"
proof (cases x)
  case (Initial sid u)
  then show ?thesis using n manager_inv_get [OF inv, of sid]
    by (auto simp: notify_initial_def notification_def split: option.splits)
next
  case (Changed now u)
  then obtain sid s where "(sid, s) \<in> set (prune_expired now (em_subscriptions em))"
    "nt_callback n = sub_callback s"
    using n by (auto simp: notify_content_changed_eq notify_each_eq notification_def)
  then have "hm_get (em_subscriptions em) sid = Some s"
    using manager_inv_ok [OF inv] by (auto simp: prune_expired_def hm_retain_def hm_ok_def)
  then show ?thesis using manager_inv_get [OF inv] \<open>nt_callback n = _\<close> by simp
qed (use n in simp_all)

lemma event_step_interface: "em_interface (snd (event_step x em)) = em_interface em"
proof (cases x)
  case (Subscribe now later uuid service headers requester)
  then show ?thesis by (auto simp: subscribe_def Let_def split: option.splits sum.splits)
next
  case (Unsubscribe service headers)
  then show ?thesis by (auto simp: unsubscribe_def split: option.splits)
next
  case (Initial sid u)
  then show ?thesis by (auto simp: notify_initial_def notification_def split: option.splits)
next
  case (Changed now u)
  then show ?thesis by (simp add: notify_content_changed_eq)
qed

lemma event_run_private:
  "manager_inv em \<Longrightarrow> n \<in> set (fst (event_run xs em)) \<Longrightarrow>
    same_private_network (em_interface em) (addr_ip (cb_address (nt_callback n)))"
proof (induction xs arbitrary: em)
  case (Cons x xs)
  let ?em = "snd (event_step x em)"
  have "manager_inv ?em" by (rule event_step_inv [OF Cons.prems(1)])
  moreover have "em_interface ?em = em_interface em" by (rule event_step_interface)
  ultimately show ?case
    using Cons.prems(2) Cons.IH [of ?em] event_step_private [OF Cons.prems(1), of n x]
    by (auto simp: event_run_Cons)
qed simp

section \<open>Numbering of notifications\<close>

text \<open>The sequence numbers of a subscription: from zero, and from \<open>u32::MAX\<close> on to one.\<close>

fun seq_at :: "nat \<Rightarrow> u32" where
  "seq_at 0 = 0"
| "seq_at (Suc n) = next_sequence (seq_at n)"

lemma next_sequence_of_nat:
  "m < 2 ^ 32 - 1 \<Longrightarrow> next_sequence (word_of_nat (Suc m)) = word_of_nat (Suc (Suc m mod (2 ^ 32 - 1)))"
proof -
  assume m: "m < 2 ^ 32 - 1"
  have max: "unat (- 1 :: u32) = 2 ^ 32 - 1" using unat_max_word [where 'a = 32] by simp
  have u: "unat (word_of_nat (Suc m) :: u32) = Suc m"
    using m by (simp add: unsigned_of_nat take_bit_eq_mod del: of_nat_Suc)
  show ?thesis
  proof (cases "Suc m = 2 ^ 32 - 1")
    case True
    then have "(word_of_nat (Suc m) :: u32) = - 1" using u max by (metis unat_inj_eq)
    then show ?thesis using True by (simp add: next_sequence_def)
  next
    case False
    then have "(word_of_nat (Suc m) :: u32) \<noteq> - 1" using u max by metis
    moreover have "Suc m mod (2 ^ 32 - 1) = Suc m" using False m by (intro mod_less) linarith
    ultimately show ?thesis by (simp add: next_sequence_def)
  qed
qed

lemma seq_at_Suc: "seq_at (Suc n) = word_of_nat (Suc (n mod (2 ^ 32 - 1)))"
proof (induction n)
  case 0
  show ?case by (simp add: next_sequence_def)
next
  case (Suc n)
  have "seq_at (Suc (Suc n)) = next_sequence (word_of_nat (Suc (n mod (2 ^ 32 - 1))))"
    using Suc by simp
  also have "\<dots> = word_of_nat (Suc (Suc (n mod (2 ^ 32 - 1)) mod (2 ^ 32 - 1)))"
    by (rule next_sequence_of_nat) simp
  also have "Suc (n mod (2 ^ 32 - 1)) mod (2 ^ 32 - 1) = Suc n mod (2 ^ 32 - 1)"
    by (rule mod_Suc_eq)
  finally show ?case .
qed

text \<open>Zero marks the first notification only.\<close>

lemma seq_at_zero: "seq_at n = 0 \<longleftrightarrow> n = 0"
proof (cases n)
  case (Suc m)
  have "Suc (m mod (2 ^ 32 - 1)) < 2 ^ 32"
    using mod_less_divisor [of "2 ^ 32 - 1" m] by simp
  then have "unat (seq_at n) = Suc (m mod (2 ^ 32 - 1))"
    unfolding Suc seq_at_Suc by (simp add: unsigned_of_nat take_bit_eq_mod del: of_nat_Suc)
  then show ?thesis using Suc by auto
qed simp

definition sent :: "string \<Rightarrow> notification_msg list \<Rightarrow> u32 list" where
  "sent sid ns = map nt_sequence (filter (\<lambda>n. nt_sid n = sid) ns)"

lemma sent_append: "sent sid (ns @ ms) = sent sid ns @ sent sid ms"
  by (simp add: sent_def)

text \<open>An operation that gives out \<open>sid\<close> as a new identifier.\<close>

fun creates :: "string \<Rightarrow> event_op \<Rightarrow> bool" where
  "creates sid (Subscribe now later uuid service headers requester) =
    (headers ''sid'' = None \<and> sid = ''uuid:'' @ uuid)"
| "creates sid x = False"

lemma sent_each:
  "hm_ok m \<Longrightarrow> sent sid (fst (notify_each u m)) =
    (case hm_get m sid of
       Some s \<Rightarrow> if sub_service s = ContentDirectory then [sub_sequence s] else []
     | None \<Rightarrow> [])"
  by (simp add: sent_def notify_each_to split: option.split)

text \<open>What one operation does to a subscription: drop it, keep its number, or send and count.\<close>

definition advances :: "subscription \<Rightarrow> subscription option \<Rightarrow> u32 list \<Rightarrow> bool" where
  "advances s r qs =
    ((qs = [] \<and> (case r of None \<Rightarrow> True | Some s' \<Rightarrow> sub_sequence s' = sub_sequence s
        \<and> sub_callback s' = sub_callback s \<and> sub_service s' = sub_service s))
     \<or> (qs = [sub_sequence s] \<and> (\<exists>s'. r = Some s' \<and> sub_sequence s' = next_sequence (sub_sequence s)
        \<and> sub_callback s' = sub_callback s \<and> sub_service s' = sub_service s)))"

lemma sent_Nil [simp]: "sent sid [] = []"
  by (simp add: sent_def)

lemma event_step_advances:
  assumes inv: "manager_inv em" and new: "\<not> creates sid x"
    and s: "hm_get (em_subscriptions em) sid = Some s"
  shows "advances s (hm_get (em_subscriptions (snd (event_step x em))) sid) (sent sid (fst (event_step x em)))"
proof (cases x)
  case (Subscribe now later uuid service headers requester)
  show ?thesis
  proof (cases "headers ''sid''")
    case None
    then show ?thesis
      by (cases rule: subscribe_new_cases [where em = em and requester = requester and now = now
            and later = later and uuid = uuid and service = service])
        (use None Subscribe new s in \<open>simp_all add: advances_def subscribe_new\<close>)
  next
    case (Some sid')
    then show ?thesis
    proof (cases rule: subscribe_renew_cases [where em = em and requester = requester and now = now
            and later = later and uuid = uuid and service = service])
      case (refused e em')
      then show ?thesis using Subscribe s prune_get [OF manager_inv_ok [OF inv]]
        by (auto simp: advances_def split: option.split)
    next
      case (granted s')
      then show ?thesis using Subscribe s prune_get [OF manager_inv_ok [OF inv]]
        by (auto simp: advances_def subscribe_renew [OF Some granted] split: option.split)
    qed
  qed
next
  case (Unsubscribe service headers)
  then show ?thesis using s
    by (auto simp: advances_def unsubscribe_def hm.get_del [OF manager_inv_ok [OF inv]]
        split: option.splits)
next
  case (Initial sid' u)
  then show ?thesis using s
    by (auto simp: advances_def notify_initial_def notification_def sent_def split: option.splits)
next
  case (Changed now u)
  have ok: "hm_ok (prune_expired now (em_subscriptions em))"
    by (rule prune_ok [OF manager_inv_ok [OF inv]])
  have get: "hm_get (prune_expired now (em_subscriptions em)) sid =
      (if now < sub_expires s then Some s else None)"
    using s prune_get [OF manager_inv_ok [OF inv], of now sid]
    by (metis option.exhaust option.inject)
  show ?thesis
    using Changed get
    by (auto simp: advances_def notify_content_changed_eq sent_each [OF ok] notify_each_get)
qed

lemma event_step_silent:
  assumes inv: "manager_inv em" and new: "\<not> creates sid x"
    and s: "hm_get (em_subscriptions em) sid = None"
  shows "hm_get (em_subscriptions (snd (event_step x em))) sid = None \<and> sent sid (fst (event_step x em)) = []"
proof (cases x)
  case (Subscribe now later uuid service headers requester)
  show ?thesis
  proof (cases "headers ''sid''")
    case None
    then show ?thesis
      by (cases rule: subscribe_new_cases [where em = em and requester = requester and now = now
            and later = later and uuid = uuid and service = service])
        (use None Subscribe new s in \<open>simp_all add: subscribe_new\<close>)
  next
    case (Some sid')
    have none: "hm_get (prune_expired now (em_subscriptions em)) sid = None"
      using prune_get [OF manager_inv_ok [OF inv], of now sid] s by (metis option.exhaust option.distinct(1))
    from Some show ?thesis
    proof (cases rule: subscribe_renew_cases [where em = em and requester = requester and now = now
            and later = later and uuid = uuid and service = service])
      case (refused e em')
      then show ?thesis using Subscribe s none by auto
    next
      case (granted s')
      then show ?thesis using Subscribe none by (auto simp: subscribe_renew [OF Some granted])
    qed
  qed
next
  case (Unsubscribe service headers)
  then show ?thesis using s
    by (auto simp: unsubscribe_def hm.get_del [OF manager_inv_ok [OF inv]] split: option.splits)
next
  case (Initial sid' u)
  then show ?thesis using s
    by (auto simp: notify_initial_def notification_def sent_def split: option.splits)
next
  case (Changed now u)
  have ok: "hm_ok (prune_expired now (em_subscriptions em))"
    by (rule prune_ok [OF manager_inv_ok [OF inv]])
  have none: "hm_get (prune_expired now (em_subscriptions em)) sid = None"
    using prune_get [OF manager_inv_ok [OF inv], of now sid] s by (metis option.exhaust option.distinct(1))
  then show ?thesis
    using Changed by (simp add: notify_content_changed_eq sent_each [OF ok] notify_each_get)
qed

lemma event_run_silent:
  "manager_inv em \<Longrightarrow> \<forall>x \<in> set xs. \<not> creates sid x \<Longrightarrow> hm_get (em_subscriptions em) sid = None \<Longrightarrow>
    sent sid (fst (event_run xs em)) = []"
proof (induction xs arbitrary: em)
  case (Cons x xs)
  let ?em = "snd (event_step x em)"
  have "manager_inv ?em" by (rule event_step_inv [OF Cons.prems(1)])
  moreover have "hm_get (em_subscriptions ?em) sid = None \<and> sent sid (fst (event_step x em)) = []"
    using event_step_silent [OF Cons.prems(1) _ Cons.prems(3), of x] Cons.prems(2) by simp
  ultimately show ?case using Cons.IH [of ?em] Cons.prems(2) by (simp add: event_run_Cons sent_append)
qed simp

text \<open>From any point on, a subscription's notifications carry the next numbers, gapless.\<close>

lemma event_run_numbers:
  "manager_inv em \<Longrightarrow> \<forall>x \<in> set xs. \<not> creates sid x \<Longrightarrow>
    hm_get (em_subscriptions em) sid = Some s \<Longrightarrow> sub_sequence s = seq_at j \<Longrightarrow>
    \<exists>k. sent sid (fst (event_run xs em)) = map seq_at [j..<j + k]"
proof (induction xs arbitrary: em s j)
  case Nil
  then show ?case by (intro exI [of _ 0]) simp
next
  case (Cons x xs)
  obtain ns em' where s: "event_step x em = (ns, em')" by force
  have inv: "manager_inv em'" using event_step_inv [OF Cons.prems(1), of x] s by simp
  have run: "sent sid (fst (event_run (x # xs) em)) = sent sid ns @ sent sid (fst (event_run xs em'))"
    by (simp add: s event_run_Cons sent_append)
  have adv: "advances s (hm_get (em_subscriptions em') sid) (sent sid ns)"
    using event_step_advances [OF Cons.prems(1) _ Cons.prems(3), of x] Cons.prems(2) s by simp
  show ?case
  proof (cases "hm_get (em_subscriptions em') sid")
    case None
    then have "sent sid ns = []" using adv by (simp add: advances_def)
    then have "sent sid (fst (event_run (x # xs) em)) = map seq_at [j..<j + 0]"
      using run event_run_silent [OF inv _ None] Cons.prems(2) by simp
    then show ?thesis by blast
  next
    case (Some s')
    consider "sent sid ns = []" "sub_sequence s' = seq_at j"
      | "sent sid ns = [seq_at j]" "sub_sequence s' = seq_at (Suc j)"
      using adv Some Cons.prems(4) by (auto simp: advances_def)
    then show ?thesis
    proof cases
      case 1
      then show ?thesis using Cons.IH [OF inv _ Some] Cons.prems(2) run by simp
    next
      case 2
      obtain k where "sent sid (fst (event_run xs em')) = map seq_at [Suc j..<Suc j + k]"
        using Cons.IH [OF inv _ Some 2(2)] Cons.prems(2) by auto
      then have "sent sid (fst (event_run (x # xs) em)) = map seq_at [j..<j + Suc k]"
        using run 2(1) by (simp add: upt_conv_Cons del: upt_Suc)
      then show ?thesis by blast
    qed
  qed
qed

end
