(* ===== verification/Events_Text.thy ===== *)
theory Events_Text
  imports Events
begin

text \<open>
  The texts eventing reads and writes: \<open>parse_callback\<close> reads back every callback URL of the
  usual form, and the request of a notification has the header lines the code means it to
  have, whatever the path a subscriber chose.
\<close>

section \<open>Addresses\<close>

lemma show_nat_unfold:
  "show_nat n = (if n < 10 then [digit_char n] else show_nat (n div 10) @ [digit_char (n mod 10)])"
  by (rule show_nat.simps)

lemma length_show_nat_less: "n < 10 \<Longrightarrow> length (show_nat n) = 1"
  by (subst show_nat_unfold) simp

lemma length_show_nat_step: "10 \<le> n \<Longrightarrow> length (show_nat n) = Suc (length (show_nat (n div 10)))"
  by (subst show_nat_unfold) simp

lemma length_show_nat:
  "n < 1000 \<Longrightarrow> length (show_nat n) = (if n < 10 then 1 else if n < 100 then 2 else 3)"
  using length_show_nat_less [of n] length_show_nat_step [of n] length_show_nat_less [of "n div 10"]
    length_show_nat_step [of "n div 10"] length_show_nat_less [of "n div 10 div 10"]
  by auto

lemma hd_show_nat: "0 < n \<Longrightarrow> hd (show_nat n) \<noteq> CHR ''0''"
proof (induction n rule: show_nat.induct)
  case (1 n)
  show ?case
  proof (cases "n < 10")
    case True
    then have "byte (digit_char n) \<noteq> byte CHR ''0''" using 1(2) by (simp add: byte_digit_char)
    then have "digit_char n \<noteq> CHR ''0''" by auto
    then show ?thesis using True by (subst show_nat_unfold) simp
  next
    case False
    then show ?thesis using 1 by (subst show_nat_unfold) simp
  qed
qed

lemma parse_octet_show [simp]: "parse_octet (show_word w) = Some w"
  for w :: u8
proof -
  have w: "unat w < 256" using unsigned_less [of w] by simp
  have "length (show_nat (unat w)) \<le> 3" using w length_show_nat [of "unat w"] by simp
  moreover have "1 < length (show_nat (unat w)) \<Longrightarrow> hd (show_nat (unat w)) \<noteq> CHR ''0''"
    using w length_show_nat [of "unat w"] by (intro hd_show_nat) (simp split: if_splits)
  moreover have "parse_digits 255 0 (show_nat (unat w)) = Some (unat w)"
    using w by (simp add: parse_digits_show)
  ultimately show ?thesis by (auto simp: parse_octet_def show_word_def)
qed

lemma show_word_digits: "c \<in> set (show_word w) \<Longrightarrow> is_ascii_digit c"
  by (simp add: show_word_def show_nat_digits)

lemma not_in_show_word: "\<not> is_ascii_digit c \<Longrightarrow> c \<notin> set (show_word w)"
  using show_word_digits by blast

lemma parse_show_ipv4 [simp]: "parse_ipv4 (show_ipv4 ip) = Some ip"
proof -
  obtain a b c d where ip: "ip = (a, b, c, d)" by (cases ip)
  have "split_on CHR ''.'' (show_ipv4 ip) = [show_word a, show_word b, show_word c, show_word d]"
    unfolding ip
    by (simp add: split_on_prefix split_on_plain not_in_show_word is_ascii_digit_def)
  then show ?thesis by (simp add: parse_ipv4_def ip)
qed

lemma show_ipv4_chars: "c \<in> set (show_ipv4 ip) \<Longrightarrow> is_ascii_digit c \<or> c = CHR ''.''"
  by (cases ip) (auto dest: show_word_digits)

lemma show_socket_addr_chars:
  "c \<in> set (show_socket_addr a) \<Longrightarrow> is_ascii_digit c \<or> c = CHR ''.'' \<or> c = CHR '':''"
  by (auto simp: show_socket_addr_def dest: show_word_digits show_ipv4_chars)

section \<open>Callback URLs\<close>

lemma trim_graphic:
  assumes "\<forall>c \<in> set s. 0x21 \<le> byte c \<and> byte c < 0x7F"
  shows "trim s = s"
proof -
  have ws: "\<not> is_whitespace (byte c)" if "c \<in> set s" for c
    using assms that by (auto simp: is_whitespace_def)
  have chars: "chars s = map byte s" using assms by (intro chars_ascii) auto
  have left: "dropWhile is_whitespace (map byte s) = map byte s"
    using ws by (cases s) auto
  have right: "dropWhile is_whitespace (rev (map byte s)) = rev (map byte s)"
    using ws by (cases "rev s") (auto simp: rev_map [symmetric] dest: arg_cong [where f = set])
  have "trim s = of_chars (map byte s)" unfolding trim_def chars left right by simp
  moreover have "of_chars (map byte s) = s" using assms by (intro push_chars_ascii) auto
  ultimately show ?thesis by simp
qed

lemma parse_callback_url:
  assumes path: "hd p = CHR ''/''" "p \<noteq> []" "p \<noteq> ''//''"
    and graphic: "\<forall>c \<in> set p. 0x21 \<le> byte c \<and> byte c < 0x7F" "CHR ''>'' \<notin> set p"
  shows "parse_callback (''<http://'' @ show_socket_addr a @ p @ ''>'') =
    Inr \<lparr>cb_address = a, cb_path = p\<rparr>"
proof -
  let ?url = "''http://'' @ show_socket_addr a @ p"
  obtain q where q: "p = CHR ''/'' # q" using path(1,2) by (cases p) auto
  have digits: "0x21 \<le> byte c \<and> byte c < 0x7F \<and> c \<noteq> CHR ''>'' \<and> c \<noteq> CHR ''/''"
    if "c \<in> set (show_socket_addr a)" for c
    using show_socket_addr_chars [OF that] by (auto simp: is_ascii_digit_def)
  have trim: "trim (''<'' @ ?url @ ''>'') = ''<'' @ ?url @ ''>''"
    using graphic digits by (intro trim_graphic) auto
  have url: "split_once CHR ''>'' (?url @ [CHR ''>'']) = Some (?url, [])"
    using split_once_append [of "CHR ''>''" ?url "[]"] graphic digits by auto
  have auth: "split_once CHR ''/'' (show_socket_addr a @ CHR ''/'' # q) = Some (show_socket_addr a, q)"
    using digits by (intro split_once_append) auto
  have host: "rsplit_once CHR '':'' (show_socket_addr a) =
      Some (show_ipv4 (addr_ip a), show_word (addr_port a))"
    unfolding show_socket_addr_def
    using rsplit_once_append [of "CHR '':''" "show_word (addr_port a)" "show_ipv4 (addr_ip a)"]
    by (simp add: not_in_show_word is_ascii_digit_def)
  have path': "(if q = ''/'' then q else ''/'' @ q) = p" using path(3) by (simp add: q)
  have "strip_prefix ''<'' (''<'' @ ?url @ ''>'') = Some (?url @ ''>'')" by (rule strip_prefix_append)
  then show ?thesis
    using trim url auth host path' strip_prefix_append [of "''http://''" "show_socket_addr a @ p"]
    by (simp add: parse_callback_def q)
qed

text \<open>What a path may contain: text of the header it came in, behind a slash.\<close>

definition header_text :: "string \<Rightarrow> bool" where
  "header_text s = (\<forall>c \<in> set s. byte c = 9 \<or> (0x20 \<le> byte c \<and> byte c < 0x7F))"

lemma trim_subset:
  assumes "header_text s"
  shows "set (trim s) \<subseteq> set s"
proof -
  have ascii: "\<forall>c \<in> set s. byte c < 0x80" using assms by (auto simp: header_text_def)
  let ?r = "rev (dropWhile is_whitespace (rev (dropWhile is_whitespace (map byte s))))"
  have sub: "set ?r \<subseteq> byte ` set s"
    by (auto dest!: set_dropWhileD)
  have map: "?r = map byte (map char_of ?r)"
    unfolding map_map by (rule sym, rule map_idI) (use sub in auto)
  have "of_chars ?r = map char_of ?r"
    by (subst map, rule push_chars_ascii) (use sub ascii in \<open>auto simp: subset_iff image_iff\<close>)
  then have "trim s = map char_of ?r" unfolding trim_def chars_ascii [OF ascii] .
  then have "set (trim s) = char_of ` set ?r" by (simp only: set_map)
  also have "\<dots> \<subseteq> char_of ` byte ` set s" using sub by (rule image_mono)
  also have "\<dots> = set s" by (simp add: image_image)
  finally show ?thesis .
qed

lemma parse_callback_path:
  assumes "parse_callback v = Inr cb" "header_text v"
  shows "header_text (cb_path cb)"
proof -
  let ?split = "\<lambda>ap. case split_once CHR ''/'' ap of None \<Rightarrow> (ap, ''/'') | Some (a, q) \<Rightarrow> (a, q)"
  obtain u ap where "Option.bind (strip_prefix ''<'' (trim v))
      (\<lambda>v. map_option fst (split_once CHR ''>'' v)) = Some u"
    and http: "strip_prefix ''http://'' u = Some ap"
    and rest: "cb_path cb = (if snd (?split ap) = ''/'' then ''/'' else ''/'' @ snd (?split ap))"
    using assms(1)
    by (auto simp: parse_callback_def bind_result_Inr_iff ok_or_Inr_iff case_prod_beta simp del: prod.case_eq_if)
  then obtain w r where w: "strip_prefix ''<'' (trim v) = Some w" "split_once CHR ''>'' w = Some (u, r)"
    by (auto simp: bind_eq_Some_conv)
  have u: "cb_path cb = ''/'' \<or> (\<exists>a q. split_once CHR ''/'' ap = Some (a, q) \<and> cb_path cb = ''/'' @ q)"
    using rest by (cases "split_once CHR ''/'' ap") (auto split: if_splits)
  have "trim v = ''<'' @ w" "w = u @ CHR ''>'' # r" "u = ''http://'' @ ap"
    using w(1) http split_once_Some [OF w(2)] by (simp_all add: strip_prefix_Some)
  then have ap: "set ap \<subseteq> set v" using trim_subset [OF assms(2)] by auto
  from u show ?thesis
  proof (elim disjE exE conjE)
    fix a q assume "split_once CHR ''/'' ap = Some (a, q)" "cb_path cb = ''/'' @ q"
    moreover from this(1) have "set q \<subseteq> set ap" using split_once_Some by fastforce
    ultimately show ?thesis using ap assms(2) by (auto simp: header_text_def)
  qed (simp add: header_text_def)
qed

section \<open>The request of a notification\<close>

lemma split_crlf_nonempty: "split_crlf s \<noteq> []"
  by (induction s rule: split_crlf.induct) (auto split: list.splits)

lemma split_crlf_line: "CR \<notin> set s \<Longrightarrow> split_crlf (s @ crlf @ t) = s # split_crlf t"
proof (induction s)
  case Nil
  then show ?case by (simp add: crlf_def)
next
  case (Cons c s)
  then obtain d r where "s @ crlf @ t = d # r" by (cases "s @ crlf @ t") (auto simp: crlf_def)
  with Cons show ?case by auto
qed

lemma split_crlf_last: "CR \<notin> set s \<Longrightarrow> split_crlf s = [s]"
proof (induction s)
  case (Cons c s)
  then show ?case by (cases s) auto
qed simp

lemma no_CR_header_text: "header_text s \<Longrightarrow> CR \<notin> set s"
  by (auto simp: header_text_def CR_def)

lemma no_CR_digits: "CR \<notin> set (show_nat n)" "CR \<notin> set (show_word w)" "CR \<notin> set (show_socket_addr a)"
  using show_nat_digits [of CR] show_word_digits [of CR] show_socket_addr_chars [of CR]
  by (auto simp: CR_def is_ascii_digit_def)

lemma escape_text_printable:
  assumes "\<forall>c \<in> set s. 0x20 \<le> byte c \<and> byte c < 0x80"
  shows "\<forall>c \<in> set (escape_text s). 0x20 \<le> byte c \<and> byte c < 0x80"
proof -
  have "0x20 \<le> byte d \<and> byte d < 0x80" if "0x20 \<le> n" "n < 0x80" "d \<in> set (escape_char n)" for n d
    using that by (auto simp: escape_char_def push_char_ascii xml_char_def split: if_splits)
  then show ?thesis using assms by (auto simp: escape_text_def chars_ascii)
qed

lemma source_protocol_info_printable:
  "list_all (\<lambda>c. 0x20 \<le> byte c \<and> byte c < 0x80) source_protocol_info"
  by (simp add: source_protocol_info_def MIME_TYPES_def)

lemma no_CR_body: "CR \<notin> set (event_body service u)"
proof -
  have "\<forall>c \<in> set (escape_text source_protocol_info). 0x20 \<le> byte c \<and> byte c < 0x80"
    using source_protocol_info_printable unfolding list_all_iff by (rule escape_text_printable)
  moreover have "\<not> 0x20 \<le> byte CR" by (simp add: CR_def)
  ultimately have "CR \<notin> set (escape_text source_protocol_info)" by blast
  then show ?thesis
    by (cases service) (simp_all add: event_body_def no_CR_digits, simp_all add: CR_def)
qed

lemma notify_request_lines:
  assumes path: "header_text (cb_path (nt_callback n))" and sid: "CR \<notin> set (nt_sid n)"
    and body: "nt_body n = event_body service u"
  shows "split_crlf (notify_request n) =
    [''NOTIFY '' @ cb_path (nt_callback n) @ '' HTTP/1.1'',
     ''HOST: '' @ show_socket_addr (cb_address (nt_callback n)),
     ''CONTENT-TYPE: text/xml; charset='' @ CHR 0x22 # ''utf-8'' @ [CHR 0x22],
     ''CONTENT-LENGTH: '' @ show_nat (length (nt_body n)),
     ''NT: upnp:event'', ''NTS: upnp:propchange'', ''SID: '' @ nt_sid n,
     ''SEQ: '' @ show_word (nt_sequence n), ''CONNECTION: close'', [], nt_body n]"
proof -
  have join: "notify_request n =
     (''NOTIFY '' @ cb_path (nt_callback n) @ '' HTTP/1.1'') @ crlf
     @ (''HOST: '' @ show_socket_addr (cb_address (nt_callback n))) @ crlf
     @ (''CONTENT-TYPE: text/xml; charset='' @ CHR 0x22 # ''utf-8'' @ [CHR 0x22]) @ crlf
     @ (''CONTENT-LENGTH: '' @ show_nat (length (nt_body n))) @ crlf
     @ ''NT: upnp:event'' @ crlf @ ''NTS: upnp:propchange'' @ crlf @ (''SID: '' @ nt_sid n) @ crlf
     @ (''SEQ: '' @ show_word (nt_sequence n)) @ crlf @ ''CONNECTION: close'' @ crlf
     @ [] @ crlf @ nt_body n"
    by (simp add: notify_request_def)
  have nocr: "CR \<notin> set (''NOTIFY '' @ cb_path (nt_callback n) @ '' HTTP/1.1'')"
    "CR \<notin> set (''HOST: '' @ show_socket_addr (cb_address (nt_callback n)))"
    "CR \<notin> set (''CONTENT-TYPE: text/xml; charset='' @ CHR 0x22 # ''utf-8'' @ [CHR 0x22])"
    "CR \<notin> set (''CONTENT-LENGTH: '' @ show_nat (length (nt_body n)))"
    "CR \<notin> set ''NT: upnp:event''" "CR \<notin> set ''NTS: upnp:propchange''"
    "CR \<notin> set (''SID: '' @ nt_sid n)" "CR \<notin> set (''SEQ: '' @ show_word (nt_sequence n))"
    "CR \<notin> set ''CONNECTION: close''" "CR \<notin> set []"
    using no_CR_header_text [OF path] sid by (simp_all add: no_CR_digits) (simp_all add: CR_def)
  have "split_crlf (nt_body n) = [nt_body n]"
    unfolding body by (rule split_crlf_last [OF no_CR_body])
  then show ?thesis unfolding join by (simp only: split_crlf_line nocr not_False_eq_True)
qed

end
