(* ===== verification/Protocol_Properties.thy ===== *)
theory Protocol_Properties
  imports Data_Properties Soap_Facts Events_Facts Events_Text
begin

text \<open>
  Properties of the protocols towards control points: the services of \<open>Soap\<close> and the eventing of
  \<open>Events\<close>, over the catalogs of \<open>Core_Properties\<close>.
\<close>

section \<open>Content directory\<close>

text \<open>A catalog with one container, found by the example's scan, and requests on it.\<close>

definition example_catalog :: catalog where
  "example_catalog =
    \<lparr>entries = [(e_id example_root, example_root)],
     children = [(ROOT_ID, [e_id example_root]), (e_id example_root, [])],
     update_id = 0, file_count = 0, total_bytes = 0\<rparr>"

definition example_browse :: "string \<Rightarrow> string \<Rightarrow> arguments" where
  "example_browse obj flag =
    [(''ObjectID'', obj), (''BrowseFlag'', flag), (''StartingIndex'', show_word (0 :: u32)),
     (''RequestedCount'', show_word (1 :: u32)), (''SortCriteria'', ''+dc:title''), (''Filter'', ''*'')]"

lemma example_catalog_wf: "catalog_wf example_catalog"
proof -
  have "insert_entry example_root empty_catalog = Inr example_catalog"
    using example_ids(1)
    by (simp add: insert_entry_def empty_catalog_def example_catalog_def example_root_def
        root_entry_def hm_or_default_def object_id_not_root [THEN not_sym])
  then show ?thesis
    using insert_entry_wf [of example_root empty_catalog example_catalog] empty_catalog_inv example_ids(1)
    by (simp add: catalog_inv_def is_container_def example_root_def)
qed

lemma example_browse_request:
  "browse_request (example_browse obj flag) =
    Inr \<lparr>br_object = obj, br_flag = flag, br_start = 0, br_count = 1, br_order = Some False,
         br_filter = ''*''\<rparr>"
  using parse_word_show [where 'a = 32, of 0] parse_word_show [where 'a = 32, of 1]
  by (simp add: browse_request_def example_browse_def required_def parse_u32_def title_sort_def)

lemma example_unknown: "hm_get (entries example_catalog) ''x'' = None"
proof -
  have "length (e_id example_root) = 33" by (simp add: example_root_def root_entry_def)
  then have "e_id example_root \<noteq> ''x''" by auto
  then show ?thesis by (simp add: example_catalog_def)
qed

text \<open>C10. \<open>BrowseDirectChildren\<close> answers with the requested part of the container's children: on a
  well-formed catalog a request with acceptable arguments, which are taken as they are written,
  succeeds exactly on containers, and is refused with 701 on anything else.  It lists each child
  once, by title and identifier, up or down, when a sort is asked for, returns the elements of the page from the starting index (all of the rest when the
  count is zero), and reports how many it returned and how many children there are.\<close>

theorem browse_children_correct:
  assumes "catalog_wf c" and "browse_request args = Inr r" and "br_flag r = ''BrowseDirectChildren''"
  shows "reads_as args r \<and> (if is_container c (br_object r)
    then \<exists>kids es. catalog_children c (br_object r) = Some kids \<and> mset es = mset kids \<and> distinct es
      \<and> (case br_order r of None \<Rightarrow> es = kids
         | Some reverse \<Rightarrow> sorted_by title_cmp (if reverse then rev es else es))
      \<and> browse args c bookmarks base = Inr (browse_output
          (concat (map (\<lambda>e. append_entry [] e c bookmarks base (br_filter r))
            (page (unat (br_start r)) (unat (br_count r)) es)))
          (length (page (unat (br_start r)) (unat (br_count r)) es))
          (child_count c (br_object r)) (object_update_id c (br_object r)))
    else browse args c bookmarks base = Inl (upnp_error 701))"
proof (cases "is_container c (br_object r)")
  case True
  obtain kids where kids: "catalog_children c (br_object r) = Some kids"
    and l: "listing c (br_object r) (br_order r) = Inr (case br_order r of None \<Rightarrow> kids
       | Some reverse \<Rightarrow> (if reverse then rev (sort_by title_cmp kids) else sort_by title_cmp kids))"
    using listing_container [OF assms(1) True] by metis
  define es where "es = (case br_order r of None \<Rightarrow> kids
       | Some reverse \<Rightarrow> (if reverse then rev (sort_by title_cmp kids) else sort_by title_cmp kids))"
  have perm: "mset es = mset kids" by (simp add: es_def split: option.split)
  have "distinct es"
    using dir.kids_distinct [OF assms(1) kids] perm by (metis mset_eq_imp_distinct_iff)
  moreover have "case br_order r of None \<Rightarrow> es = kids
       | Some reverse \<Rightarrow> sorted_by title_cmp (if reverse then rev es else es)"
    using title_order.sorted_sort_by [OF subset_UNIV] by (simp add: es_def split: option.split)
  moreover have "length es = child_count c (br_object r)"
    using dir.kids_count [OF assms(1) kids] perm by (metis mset_eq_length)
  moreover have "listing c (br_object r) (br_order r) = Inr es" using l by (simp add: es_def)
  ultimately show ?thesis
    using browse_children [OF assms(2,3), of c bookmarks base] kids perm True
    by (simp only: if_True) (intro conjI [OF browse_request_reads [OF assms(2)]] exI [of _ kids] exI [of _ es],
      simp_all add: Let_def)
qed (use browse_children [OF assms(2,3), of c bookmarks base] in \<open>simp add: listing_other browse_request_reads [OF assms(2)]\<close>)

theorem browse_children_correct_witness:
  "(\<exists>out. browse (example_browse ROOT_ID ''BrowseDirectChildren'') example_catalog [] ''http://h'' = Inr out)
   \<and> browse (example_browse ''x'' ''BrowseDirectChildren'') example_catalog [] ''http://h'' = Inl (upnp_error 701)"
  using browse_children_correct [OF example_catalog_wf example_browse_request, of ROOT_ID
      "''BrowseDirectChildren''" "[]" "''http://h''"]
    browse_children_correct [OF example_catalog_wf example_browse_request, of "''x''"
      "''BrowseDirectChildren''" "[]" "''http://h''"]
    example_unknown
  by (auto simp: is_container_def catalog_entry_def ROOT_ID_def)

text \<open>Paging loses nothing and repeats nothing: with a fixed page size, consecutive pages of a
  listing put together are the listing, and every child of the container is on exactly one of the
  pages.\<close>

theorem browse_paging:
  assumes "catalog_wf c" and "listing c i order = Inr es" and "0 < n" and "length es \<le> m * n"
  shows "concat (map (\<lambda>k. page (k * n) n es) [0..<m]) = es
    \<and> (\<forall>e. catalog_entry c (e_id e) = Some e \<and> e_parent_id e = i \<longrightarrow>
        (\<exists>!k. e \<in> set (page (k * n) n es)))"
proof -
  obtain kids where kids: "catalog_children c i = Some kids" "mset es = mset kids"
    using listing_perm [OF assms(1,2)] by blast
  show ?thesis
    using pages_whole [OF assms(3,4)] dir.child_on_one_page [OF assms(1) kids assms(3)] by blast
qed

theorem browse_paging_witness:
  "\<exists>es. listing example_catalog ROOT_ID None = Inr es \<and>
    concat (map (\<lambda>k. page (k * 1) 1 es) [0..<length es]) = es"
proof -
  obtain es where es: "listing example_catalog ROOT_ID None = Inr es"
    using listing_container [OF example_catalog_wf, of ROOT_ID None] by (auto simp: is_container_def)
  from browse_paging [OF example_catalog_wf es, of 1 "length es"] es show ?thesis by auto
qed

text \<open>C25. On a well-formed catalog every refusal of \<open>Browse\<close> is the documented one, checked in this order: an argument is
  missing, or an index or count is not a decimal number below 2 to the 32nd (402); the sort is none
  of the three supported ones (709); the object of a \<open>BrowseMetadata\<close> is unknown, or that of a
  \<open>BrowseDirectChildren\<close> is not a container (701); the flag is neither of the two (402).  In every
  other case the request succeeds.\<close>

theorem browse_error_exact:
  assumes "catalog_wf c"
  shows "browse args c bookmarks base = Inl e \<longleftrightarrow>
    (let obj = the (hm_get args ''ObjectID''); flag = the (hm_get args ''BrowseFlag'');
         sort = the (hm_get args ''SortCriteria'')
     in if malformed args then e = \<lparr>ue_code = 402, ue_description = ''Invalid Args''\<rparr>
        else if sort \<noteq> [] \<and> sort \<noteq> ''+dc:title'' \<and> sort \<noteq> ''-dc:title''
        then e = \<lparr>ue_code = 709, ue_description = ''Unsupported or Invalid Sort Criteria''\<rparr>
        else if flag = ''BrowseMetadata''
        then obj \<noteq> ROOT_ID \<and> catalog_entry c obj = None
          \<and> e = \<lparr>ue_code = 701, ue_description = ''No Such Object''\<rparr>
        else if flag = ''BrowseDirectChildren''
        then \<not> is_container c obj \<and> e = \<lparr>ue_code = 701, ue_description = ''No Such Object''\<rparr>
        else e = \<lparr>ue_code = 402, ue_description = ''Invalid Args''\<rparr>)"
proof (cases "browse_request args")
  case (Inl x)
  then show ?thesis
    using browse_bad_request [OF Inl, of c bookmarks base] browse_request_refused [of args x]
    by (auto simp: Let_def upnp_error_def split: if_splits)
next
  case (Inr r)
  have ok: "\<not> malformed args" "the (hm_get args ''SortCriteria'') \<in> {[], ''+dc:title'', ''-dc:title''}"
    using Inr browse_request_refused [of args "upnp_error 402"] browse_request_refused [of args "upnp_error 709"]
    by (auto split: if_splits)
  have parts: "the (hm_get args ''ObjectID'') = br_object r" "the (hm_get args ''BrowseFlag'') = br_flag r"
    using browse_request_parts [OF Inr] by (auto simp: required_def ok_or_Inr_iff)
  from browse_accepted_error [OF assms Inr, of bookmarks base e] ok
  show ?thesis by (auto simp: Let_def parts upnp_error_def)
qed

theorem browse_error_exact_witness:
  "browse (example_browse ''x'' ''BrowseMetadata'') example_catalog [] ''http://h'' = Inl (upnp_error 701)
   \<and> browse [(''ObjectID'', ''0'')] example_catalog [] ''http://h'' = Inl (upnp_error 402)"
proof
  have "\<not> malformed (example_browse ''x'' ''BrowseMetadata'')"
    using example_browse_request [of "''x''" "''BrowseMetadata''"]
      browse_request_refused [of "example_browse ''x'' ''BrowseMetadata''" "upnp_error 402"] by auto
  moreover have "catalog_entry example_catalog ''x'' = None"
    by (simp add: catalog_entry_def example_unknown)
  ultimately show "browse (example_browse ''x'' ''BrowseMetadata'') example_catalog [] ''http://h'' = Inl (upnp_error 701)"
    using browse_error_exact [OF example_catalog_wf, of "example_browse ''x'' ''BrowseMetadata''"
        "[]" "''http://h''" "upnp_error 701"]
    by (simp add: ROOT_ID_def example_browse_def upnp_error_def)
  show "browse [(''ObjectID'', ''0'')] example_catalog [] ''http://h'' = Inl (upnp_error 402)"
    using browse_error_exact [OF example_catalog_wf, of "[(''ObjectID'', ''0'')]"
        "[]" "''http://h''" "upnp_error 402"]
    by (simp add: malformed_def upnp_error_def)
qed

text \<open>C28. The services answer what their descriptions announce: the service documents are the
  rendering of the tables of actions, whose arguments are all typed by declared variables; an
  action is refused as invalid (401) if and only if it is not announced, and an answer carries
  exactly the announced output arguments in order.\<close>

theorem services_match_descriptions:
  "CONTENT_DIRECTORY_SCPD = scpd_document content_directory_actions content_directory_variables
   \<and> CONNECTION_MANAGER_SCPD = scpd_document connection_manager_actions connection_manager_variables
   \<and> scpd_closed content_directory_actions content_directory_variables
   \<and> scpd_closed connection_manager_actions connection_manager_variables
   \<and> (case content_directory_output action args c bookmarks base of
        Inl e \<Rightarrow> (e = upnp_error 401) = (map_of content_directory_actions action = None)
      | Inr out \<Rightarrow> \<exists>sig. map_of content_directory_actions action = Some sig \<and> map fst out = out_args sig)
   \<and> (case connection_manager_output action args of
        Inl e \<Rightarrow> (e = upnp_error 401) = (map_of connection_manager_actions action = None)
      | Inr out \<Rightarrow> \<exists>sig. map_of connection_manager_actions action = Some sig \<and> map fst out = out_args sig)"
proof -
  have "case content_directory_output action args c bookmarks base of
        Inl e \<Rightarrow> (e = upnp_error 401) = (map_of content_directory_actions action = None)
      | Inr out \<Rightarrow> \<exists>sig. map_of content_directory_actions action = Some sig \<and> map fst out = out_args sig"
    using content_directory_unknown [of action args c bookmarks base]
      content_directory_names [of action args c bookmarks base] by (auto split: sum.split)
  moreover have "case connection_manager_output action args of
        Inl e \<Rightarrow> (e = upnp_error 401) = (map_of connection_manager_actions action = None)
      | Inr out \<Rightarrow> \<exists>sig. map_of connection_manager_actions action = Some sig \<and> map fst out = out_args sig"
    using connection_manager_unknown [of action args] connection_manager_names [of action args]
    by (auto split: sum.split)
  ultimately show ?thesis
    using content_directory_scpd_document connection_manager_scpd_document scpds_closed by blast
qed

text \<open>C29. No file name can add markup: the number of tags in the element of an entry is
  fixed by the kind of entry, the filter, and whether the filter asks for a bookmark that the entry
  has; nothing in the text of the title, the identifiers, the path or the base address changes it.\<close>

theorem entry_markup_fixed:
  assumes "\<And>k. e_kind e = Media k \<Longrightarrow> media_kind (e_path e) = Some k"
  shows "count_list (append_entry [] e c bookmarks base f) CHR ''<'' =
    (case e_kind e of
       Container \<Rightarrow> 6
     | Media _ \<Rightarrow> if has_bookmark e bookmarks f then if filter_has f ''res'' then 10 else 8
         else if filter_has f ''res'' then 8 else 6)"
proof (cases "e_kind e")
  case Container
  then show ?thesis using entry_markup_container by simp
next
  case (Media k)
  then have "CHR ''<'' \<notin> set (mk_upnp_class k)"
    using assms media_kind_in_table media_table_class by blast
  then show ?thesis using Media entry_markup_media by simp
qed

theorem entry_markup_fixed_witness:
  "count_list (append_entry [] (example_file 0) example_catalog [] ''http://<h>'' ''*'') CHR ''<'' = 8"
proof -
  have "media_kind (e_path (example_file 0)) = Some k" if "e_kind (example_file 0) = Media k" for k
    using that example_kinds(1) by (auto simp: example_file_def)
  from entry_markup_fixed [OF this] show ?thesis
    by (simp add: example_file_def has_bookmark_def filter_has_def)
qed

text \<open>C26. A \<open>Browse\<close> response is read back field by field: what an XML reader finds in the response
  is the two counts and the update identifier that \<open>Browse\<close> computed, and its DIDL-Lite document with
  characters XML forbids replaced and line ends taken as a reader takes them.  So the document comes
  back unchanged but for the forbidden characters whatever file names it mentions, unless one has a
  carriage return: that is written as it is and read as a line feed.\<close>

theorem browse_response_roundtrip:
  assumes "content_directory_response ''Browse'' args c bookmarks base = Inr doc"
  shows "\<exists>elements returned matches update.
    browse args c bookmarks base = Inr (browse_output elements returned matches update)
    \<and> element_value ''Result'' doc =
        Some (line_ends False (clean_text (didl_header @ elements @ ''</DIDL-Lite>'')))
    \<and> (CR \<notin> set (clean_text (didl_header @ elements @ ''</DIDL-Lite>'')) \<longrightarrow>
        element_value ''Result'' doc = Some (clean_text (didl_header @ elements @ ''</DIDL-Lite>'')))
    \<and> element_value ''NumberReturned'' doc = Some (show_nat returned)
    \<and> element_value ''TotalMatches'' doc = Some (show_nat matches)
    \<and> element_value ''UpdateID'' doc = Some (show_word update)"
proof -
  obtain out where out: "browse args c bookmarks base = Inr out"
    and doc: "doc = soap_response CONTENT_DIRECTORY_TYPE ''Browse'' out"
    using assms by (auto simp: content_directory_response_def content_directory_output_def
        bind_result_Inr_iff)
  have "\<exists>els m n u. out = browse_output els m n u"
  proof (cases "browse_request args")
    case (Inl e)
    then show ?thesis using browse_bad_request [OF Inl] out by simp
  next
    case (Inr r)
    show ?thesis
    proof (cases "br_flag r = ''BrowseMetadata''")
      case True
      from browse_metadata [OF Inr True, of c bookmarks base] out show ?thesis
        by (cases "metadata_elements c bookmarks base r") auto
    next
      case False
      show ?thesis
      proof (cases "br_flag r = ''BrowseDirectChildren''")
        case True
        from browse_children [OF Inr True, of c bookmarks base] out show ?thesis
          by (cases "listing c (br_object r) (br_order r)") (auto simp: Let_def)
      qed (use browse_other_flag [OF Inr False, of c bookmarks base] out in simp)
    qed
  qed
  then obtain els m n u where o: "out = browse_output els m n u" by blast
  from browse_response_values [OF doc [unfolded o]] out o show ?thesis
    using line_ends_id [of "clean_text (didl_header @ els @ ''</DIDL-Lite>'')"] by metis
qed

theorem browse_response_roundtrip_witness:
  "\<exists>doc. content_directory_response ''Browse'' (example_browse ROOT_ID ''BrowseMetadata'')
      example_catalog [] ''http://h'' = Inr doc \<and> element_value ''NumberReturned'' doc = Some ''1''
    \<and> element_value ''Result'' doc = Some (didl_header @ append_root [] example_catalog ''*'' @ ''</DIDL-Lite>'')"
proof -
  let ?args = "example_browse ROOT_ID ''BrowseMetadata''" and ?els = "append_root [] example_catalog ''*''"
  let ?didl = "didl_header @ ?els @ ''</DIDL-Lite>''"
  have b: "browse ?args example_catalog [] ''http://h'' =
      Inr (browse_output ?els 1 1 (object_update_id example_catalog ROOT_ID))"
    using browse_metadata [OF example_browse_request, of ROOT_ID "''BrowseMetadata''"]
    by (simp add: metadata_elements_def)
  then obtain doc where doc: "content_directory_response ''Browse'' ?args example_catalog [] ''http://h'' = Inr doc"
    by (simp add: content_directory_response_def content_directory_output_def)
  have one: "show_nat 1 = ''1''" by code_simp
  have digit: "32 \<le> byte c \<and> byte c < 128" if "c \<in> set (show_nat n)" for c n
    using show_nat_digits [OF that] by (simp add: is_ascii_digit_def)
  have printable: "\<forall>c \<in> set ?didl. 0x20 \<le> byte c \<and> byte c < 0x80"
    using digit by (auto simp: append_root_def didl_header_def child_count_attribute_def)
  have "CR \<notin> set (clean_text ?didl)"
    unfolding clean_text_printable [OF printable]
    using bspec [OF printable, of CR] by (auto simp: CR_def simp del: set_append)
  then show ?thesis
    using browse_response_roundtrip [OF doc] b doc clean_text_printable [OF printable]
    by (auto simp: browse_output_def simp flip: one)
qed



text \<open>What an argument holds behind a general reference is lost: with a reader that reports
  references as events of their own, the text after the first one in an argument never reaches the
  handler, which sees the truncated text as the whole value.\<close>

theorem argument_truncated:
  assumes "plain_text unescape a" and "to_string_lossy n = n"
    and "reader body = [Inr (StartEvent n), Inr (TextEvent a), Inr OtherEvent, Inr (TextEvent b),
      Inr EndEvent, Inr EofEvent]"
    and "rsplit_once CHR ''#'' (trim_matches (\<lambda>c. c = CHR 0x22 \<or> c = CHR '' '') h) = Some (s, action)"
  shows "parse_request reader unescape (Some h) body = Inr (action, [(n, a)])"
  using argument_cut_at_reference [OF assms(1,2)] assms(3,4) by (simp add: parse_request_def)

theorem argument_truncated_witness:
  "parse_request (\<lambda>_. [Inr (StartEvent ''Filter''), Inr (TextEvent ''a''), Inr OtherEvent,
      Inr (TextEvent ''b''), Inr EndEvent, Inr EofEvent]) Some (Some ''u#Browse'') [] =
    Inr (''Browse'', [(''Filter'', ''a'')])"
proof (rule argument_truncated [where b = "''b''" and s = "''u''"])
  show "plain_text Some ''a''" by (simp add: plain_text_def to_string_lossy_ascii)
  show "to_string_lossy ''Filter'' = ''Filter''" by (simp add: to_string_lossy_ascii)
qed (simp, simp add: trim_matches_def rsplit_once_def)

text \<open>Everything the server publishes it announces: the protocol information of every file type
  it recognises is one of the comma-separated entries of the source protocols.\<close>

theorem media_announced:
  assumes "media_kind p = Some k"
  shows "''http-get:*:'' @ mk_mime_type k @ '':*'' \<in> set (split_on CHR '','' source_protocol_info)"
proof -
  have "mk_mime_type k \<in> set MIME_TYPES"
    using media_kind_in_table [OF assms] mime_types_complete by force
  moreover have "list_all (\<lambda>m. CHR '','' \<notin> set m) MIME_TYPES" by (simp add: MIME_TYPES_def)
  ultimately show ?thesis
    by (subst source_protocol_info_def, subst split_join_with)
      (auto simp: list_all_iff MIME_TYPES_def)
qed

theorem media_announced_witness:
  "''http-get:*:'' @ mk_mime_type (audio_kind ''audio/mpeg'') @ '':*'' \<in> set (split_on CHR '','' source_protocol_info)"
  by (rule media_announced [OF example_kinds(1)])

end
