(* ===== verification/Events_Properties.thy ===== *)
theory Events_Properties
  imports Events_Facts Events_Text
begin

text \<open>
  Properties of eventing: where notifications may go, how they are numbered, who gets one, what
  a renewal changes, and what is written to a subscriber.
\<close>

section \<open>An example\<close>

text \<open>A television at 10.0.0.5 subscribes to the content directory of a server at 10.0.0.2.\<close>

definition example_address :: socket_addr_v4 where
  "example_address = \<lparr>addr_ip = (10, 0, 0, 5), addr_port = 49152\<rparr>"

definition example_headers :: header_map where
  "example_headers =
    [''nt'' \<mapsto> ''upnp:event'',
     ''callback'' \<mapsto> ''<http://'' @ show_socket_addr example_address @ ''/e'' @ ''>'']"

definition example_subscribe :: "event_manager \<Rightarrow> (subscription_error + subscription_response) \<times> event_manager" where
  "example_subscribe em =
    subscribe 5 6 ''u1'' ContentDirectory example_headers (10, 0, 0, 5) em"

lemma example_callback:
  "parse_callback (''<http://'' @ show_socket_addr example_address @ ''/e'' @ ''>'') =
    Inr \<lparr>cb_address = example_address, cb_path = ''/e''\<rparr>"
  by (rule parse_callback_url) simp_all

lemma example_subscribed:
  "example_subscribe (new_manager (10, 0, 0, 2)) =
    (Inr \<lparr>sr_sid = ''uuid:u1'', sr_timeout_seconds = parse_timeout None, sr_is_new = True\<rparr>,
     \<lparr>em_subscriptions = [(''uuid:u1'',
        \<lparr>sub_service = ContentDirectory,
         sub_callback = \<lparr>cb_address = example_address, cb_path = ''/e''\<rparr>,
         sub_expires = 6 + from_secs (parse_timeout None), sub_sequence = 0\<rparr>)],
      em_interface = (10, 0, 0, 2)\<rparr>)"
proof -
  have h: "example_headers ''sid'' = None" "example_headers ''nt'' = Some ''upnp:event''"
    "example_headers ''callback'' = Some (''<http://'' @ show_socket_addr example_address @ ''/e'' @ ''>'')"
    "example_headers ''timeout'' = None" by (simp_all add: example_headers_def)
  show ?thesis
    using subscribe_new [OF h(1-3) example_callback, of "(10, 0, 0, 5)" "new_manager (10, 0, 0, 2)" 5 6
        "''u1''" ContentDirectory]
    by (simp add: example_subscribe_def h(4) example_address_def new_manager_def)
qed

section \<open>Where notifications go\<close>

text \<open>C9. The server is no open relay: in every history of subscriptions, renewals, cancellations
  and notifications from the start of the server, every notification is sent to an address in the
  same private network as the server's own interface.\<close>

theorem notifications_private:
  assumes "n \<in> set (fst (event_run ops (new_manager interface)))"
  shows "same_private_network interface (addr_ip (cb_address (nt_callback n)))"
  using event_run_private [OF new_manager_inv assms] by (simp add: new_manager_def)

theorem notifications_private_witness:
  "\<exists>n. n \<in> set (fst (event_run
      [Subscribe 5 6 ''u1'' ContentDirectory example_headers (10, 0, 0, 5), Initial ''uuid:u1'' 3]
      (new_manager (10, 0, 0, 2))))
    \<and> same_private_network (10, 0, 0, 2) (addr_ip (cb_address (nt_callback n)))"
proof -
  let ?ops = "[Subscribe 5 6 ''u1'' ContentDirectory example_headers (10, 0, 0, 5), Initial ''uuid:u1'' 3]"
  have "\<exists>n. n \<in> set (fst (event_run ?ops (new_manager (10, 0, 0, 2))))"
    using example_subscribed
    by (simp add: event_run_Cons example_subscribe_def notify_initial_def notification_def)
  then show ?thesis using notifications_private [of _ ?ops "(10, 0, 0, 2)"] by blast
qed



section \<open>Numbering\<close>

text \<open>C18. Notifications of a subscription are numbered without gaps: after a granted subscription,
  whatever operations follow in whatever order, as long as its identifier is not given out again,
  the numbers sent under it are the first ones of the sequence 0, 1, 2, ..., \<open>u32::MAX\<close>, 1, 2, ...
  in order.  So zero is the number of the first notification sent and of no later one, whichever
  notification that is.\<close>

theorem notifications_numbered:
  assumes "manager_inv em" and "headers ''sid'' = None"
    and "subscribe now later uuid service headers requester em = (Inr r, em')"
    and "\<forall>x \<in> set ops. \<not> creates (sr_sid r) x"
  shows "\<exists>k. sent (sr_sid r) (fst (event_run ops em')) = map seq_at [0..<k]
    \<and> (\<forall>i. seq_at i = (if i = 0 then 0 else word_of_nat (1 + (i - 1) mod (2 ^ 32 - 1))))
    \<and> (\<forall>i. seq_at i = 0 \<longleftrightarrow> i = 0)"
proof -
  have inv: "manager_inv em'"
    using subscribe_inv [OF assms(1), of now later uuid service headers requester] assms(3) by simp
  obtain s where s: "hm_get (em_subscriptions em') (sr_sid r) = Some s" "sub_sequence s = 0"
    using assms(2)
  proof (cases rule: subscribe_new_cases [where em = em and requester = requester and now = now
        and later = later and uuid = uuid and service = service])
    case (granted v cb)
    then show ?thesis using that assms(3) subscribe_new [OF assms(2) granted, of now later uuid service]
      by auto
  qed (use assms(3) in simp)
  have "seq_at i = (if i = 0 then 0 else word_of_nat (1 + (i - 1) mod (2 ^ 32 - 1)))" for i
    by (cases i) (simp_all only: seq_at.simps(1) seq_at_Suc, simp_all)
  moreover have "\<exists>k. sent (sr_sid r) (fst (event_run ops em')) = map seq_at [0..<0 + k]"
    using event_run_numbers [OF inv assms(4) s(1), of 0] s(2) by simp
  ultimately show ?thesis using seq_at_zero by auto
qed

theorem notifications_numbered_witness:
  "\<exists>em' k. example_subscribe (new_manager (10, 0, 0, 2)) =
      (Inr \<lparr>sr_sid = ''uuid:u1'', sr_timeout_seconds = parse_timeout None, sr_is_new = True\<rparr>, em')
    \<and> sent ''uuid:u1'' (fst (event_run [Changed 7 3, Initial ''uuid:u1'' 4] em')) = map seq_at [0..<k]"
proof -
  let ?r = "\<lparr>sr_sid = ''uuid:u1'', sr_timeout_seconds = parse_timeout None, sr_is_new = True\<rparr>"
  obtain em' where s: "example_subscribe (new_manager (10, 0, 0, 2)) = (Inr ?r, em')"
    by (simp add: example_subscribed)
  have h: "example_headers ''sid'' = None" by (simp add: example_headers_def)
  from notifications_numbered [OF new_manager_inv h s [unfolded example_subscribe_def],
      of "[Changed 7 3, Initial ''uuid:u1'' 4]"] s show ?thesis by auto
qed

section \<open>Who is notified\<close>

text \<open>C22. A change of content reaches exactly the live subscribers of the content directory: each
  subscription that has not expired gets one notification, carrying its next number and the new
  update identifier; expired ones are dropped, subscriptions to the other service keep their
  number, and nothing else changes.\<close>

theorem content_change_notifies:
  assumes "manager_inv em" and "notify_content_changed now u em = (ns, em')"
  shows "hm_get (em_subscriptions em') sid =
      (case hm_get (em_subscriptions em) sid of
         None \<Rightarrow> None
       | Some s \<Rightarrow> if sub_expires s \<le> now then None
           else if sub_service s = ContentDirectory
           then Some (s\<lparr>sub_sequence := next_sequence (sub_sequence s)\<rparr>) else Some s)
    \<and> filter (\<lambda>n. nt_sid n = sid) ns =
      (case hm_get (em_subscriptions em) sid of
         None \<Rightarrow> []
       | Some s \<Rightarrow> if now < sub_expires s \<and> sub_service s = ContentDirectory
           then [\<lparr>nt_callback = sub_callback s, nt_sid = sid, nt_sequence = sub_sequence s,
                  nt_body = event_body ContentDirectory u\<rparr>] else [])"
proof -
  let ?p = "prune_expired now (em_subscriptions em)"
  have ok: "hm_ok ?p" by (rule prune_ok [OF manager_inv_ok [OF assms(1)]])
  have ns: "ns = fst (notify_each u ?p)" "em_subscriptions em' = snd (notify_each u ?p)"
    using assms(2) by (auto simp: notify_content_changed_eq)
  have get: "hm_get ?p sid = (case hm_get (em_subscriptions em) sid of None \<Rightarrow> None
      | Some s \<Rightarrow> if now < sub_expires s then Some s else None)"
    unfolding prune_expired_def by (rule hm.get_retain [OF manager_inv_ok [OF assms(1)]])
  show ?thesis
    unfolding ns notify_each_to [OF ok] notify_each_get get
    by (auto simp: notification_def split: option.split)
qed

theorem content_change_notifies_witness:
  "\<exists>em em' ns. manager_inv em \<and> notify_content_changed 7 3 em = (ns, em') \<and>
    length (filter (\<lambda>n. nt_sid n = ''uuid:u1'') ns) = 1"
proof -
  obtain em where s: "snd (example_subscribe (new_manager (10, 0, 0, 2))) = em" by blast
  have inv: "manager_inv em"
    unfolding s [symmetric] example_subscribe_def by (rule subscribe_inv [OF new_manager_inv])
  obtain ns em' where n: "notify_content_changed 7 3 em = (ns, em')" by force
  have "7 < 6 + from_secs (parse_timeout None)"
  proof -
    have "parse_timeout None = 1800"
      by (simp add: parse_timeout_def clamp_def MAX_TIMEOUT_SECONDS_def DEFAULT_TIMEOUT_SECONDS_def)
    then show ?thesis by (simp add: from_secs_def)
  qed
  then have "length (filter (\<lambda>n. nt_sid n = ''uuid:u1'') ns) = 1"
    using content_change_notifies [OF inv n, of "''uuid:u1''"] s by (auto simp: example_subscribed)
  with inv n show ?thesis by blast
qed

section \<open>Renewal and cancellation\<close>

text \<open>C34. A renewal extends and changes nothing else: it is granted exactly for a live subscription
  to the same service named without a callback or type, and then only the expiry changes, so
  numbering and callback carry on; otherwise the subscriptions stay as they are, expired ones
  apart.\<close>

theorem renewal_correct:
  assumes "manager_inv em" and "headers ''sid'' = Some sid"
    and "subscribe now later uuid service headers requester em = (result, em')"
  shows "(is_ok result \<longleftrightarrow> headers ''callback'' = None \<and> headers ''nt'' = None \<and>
      (\<exists>s. hm_get (em_subscriptions em) sid = Some s \<and> now < sub_expires s \<and> sub_service s = service))
    \<and> (\<forall>k s. hm_get (em_subscriptions em) k = Some s \<and> now < sub_expires s \<longrightarrow>
        hm_get (em_subscriptions em') k =
          Some (if k = sid \<and> is_ok result
            then s\<lparr>sub_expires := later + from_secs (parse_timeout (headers ''timeout''))\<rparr> else s))"
proof -
  note get = prune_get [OF manager_inv_ok [OF assms(1)], of now]
  show ?thesis
  proof (cases "headers ''callback'' \<noteq> None \<or> headers ''nt'' \<noteq> None")
    case True
    then show ?thesis using assms(2,3) by (auto simp: subscribe_def Let_def)
  next
    case False
    then have h: "headers ''callback'' = None" "headers ''nt'' = None" by simp_all
    show ?thesis
    proof (cases "hm_get (prune_expired now (em_subscriptions em)) sid")
      case None
      then have r: "result = Inl InvalidSid"
        "em' = em\<lparr>em_subscriptions := prune_expired now (em_subscriptions em)\<rparr>"
        using assms(2,3) h by (auto simp: subscribe_def Let_def)
      have "\<not> (hm_get (em_subscriptions em) sid = Some s \<and> now < sub_expires s)" for s
        using None get [of sid s] by simp
      moreover have "hm_get (em_subscriptions em') k = Some s"
        if "hm_get (em_subscriptions em) k = Some s" "now < sub_expires s" for k s
        using that get [of k s] r(2) by simp
      ultimately show ?thesis using r(1) by auto
    next
      case (Some s)
      then have s: "hm_get (em_subscriptions em) sid = Some s" "now < sub_expires s" using get by auto
      show ?thesis
      proof (cases "sub_service s = service")
        case True
        then have r: "is_ok result" "em' = em\<lparr>em_subscriptions :=
            hm_insert sid (s\<lparr>sub_expires := later + from_secs (parse_timeout (headers ''timeout''))\<rparr>)
              (prune_expired now (em_subscriptions em))\<rparr>"
          using subscribe_renew [OF assms(2) h Some True] assms(3) by auto
        show ?thesis using r s True h get by auto
      next
        case False
        then have r: "result = Inl InvalidSid"
          "em' = em\<lparr>em_subscriptions := prune_expired now (em_subscriptions em)\<rparr>"
          using assms(2,3) h Some by (auto simp: subscribe_def Let_def)
        then show ?thesis using s False h get by auto
      qed
    qed
  qed
qed

theorem renewal_correct_witness:
  "\<exists>em result em'. manager_inv em
    \<and> subscribe 7 8 ''u2'' ContentDirectory [''sid'' \<mapsto> ''uuid:u1''] (10, 0, 0, 5) em = (result, em')
    \<and> is_ok result"
proof -
  obtain em where s: "snd (example_subscribe (new_manager (10, 0, 0, 2))) = em" by blast
  have inv: "manager_inv em"
    unfolding s [symmetric] example_subscribe_def by (rule subscribe_inv [OF new_manager_inv])
  obtain result em' where n: "subscribe 7 8 ''u2'' ContentDirectory [''sid'' \<mapsto> ''uuid:u1''] (10, 0, 0, 5) em =
      (result, em')" by force
  have "parse_timeout None = 1800"
    by (simp add: parse_timeout_def clamp_def MAX_TIMEOUT_SECONDS_def DEFAULT_TIMEOUT_SECONDS_def)
  then have "7 < 6 + from_secs (parse_timeout None)" by (simp add: from_secs_def)
  then have "is_ok result"
    using renewal_correct [OF inv _ n, of "''uuid:u1''"] s by (auto simp: example_subscribed)
  with inv n show ?thesis by blast
qed

section \<open>What is written\<close>

text \<open>Callback URLs of the usual form are read back exactly: address, port and path.\<close>

theorem callback_roundtrip:
  assumes "p \<noteq> []" "hd p = CHR ''/''" "p \<noteq> ''//''" "CHR ''>'' \<notin> set p"
    and "\<forall>c \<in> set p. 0x21 \<le> byte c \<and> byte c < 0x7F"
  shows "parse_callback (''<http://'' @ show_socket_addr a @ p @ ''>'') =
    Inr \<lparr>cb_address = a, cb_path = p\<rparr>"
  using parse_callback_url [OF assms(2,1,3,5,4)] .

theorem callback_roundtrip_witness:
  "parse_callback (''<http://'' @ show_socket_addr example_address @ ''/events'' @ ''>'') =
    Inr \<lparr>cb_address = example_address, cb_path = ''/events''\<rparr>"
  by (rule callback_roundtrip) simp_all

text \<open>C36. A subscriber cannot inject headers: whatever callback it sent (header values being visible
  ASCII or tabs), the request of a notification to it has exactly the intended header lines and
  then the body.\<close>

theorem notify_request_safe:
  assumes "header_text v" and "parse_callback v = Inr cb" and "header_text sid"
  shows "split_crlf (notify_request (fst (notification sid
      \<lparr>sub_service = service, sub_callback = cb, sub_expires = t, sub_sequence = q\<rparr> u))) =
    [''NOTIFY '' @ cb_path cb @ '' HTTP/1.1'', ''HOST: '' @ show_socket_addr (cb_address cb),
     ''CONTENT-TYPE: text/xml; charset='' @ CHR 0x22 # ''utf-8'' @ [CHR 0x22],
     ''CONTENT-LENGTH: '' @ show_nat (length (event_body service u)),
     ''NT: upnp:event'', ''NTS: upnp:propchange'', ''SID: '' @ sid, ''SEQ: '' @ show_word q,
     ''CONNECTION: close'', [], event_body service u]"
  using notify_request_lines [of "fst (notification sid
      \<lparr>sub_service = service, sub_callback = cb, sub_expires = t, sub_sequence = q\<rparr> u)" service u]
    parse_callback_path [OF assms(2,1)] no_CR_header_text [OF assms(3)]
  by (simp add: notification_def)

theorem notify_request_safe_witness:
  "length (split_crlf (notify_request (fst (notification ''uuid:u1''
      \<lparr>sub_service = ContentDirectory,
       sub_callback = \<lparr>cb_address = example_address, cb_path = ''/e''\<rparr>, sub_expires = 0,
       sub_sequence = 3\<rparr> 4)))) = 11"
proof -
  have "header_text (''<http://'' @ show_socket_addr example_address @ ''/e'' @ ''>'')"
  proof -
    have "0x20 \<le> byte c \<and> byte c < 0x7F" if "c \<in> set (show_socket_addr example_address)" for c
      using show_socket_addr_chars [OF that] by (auto simp: is_ascii_digit_def)
    then show ?thesis by (auto simp: header_text_def)
  qed
  from notify_request_safe [OF this example_callback, of "''uuid:u1''"] show ?thesis
    by (simp add: header_text_def)
qed

text \<open>Requested lifetimes are clamped and never fail: any header gives between one second and a
  day, \<open>Second-n\<close> in that range gives n, and anything else the default of 1800 seconds clamped.\<close>

theorem parse_timeout_correct:
  "1 \<le> parse_timeout v \<and> parse_timeout v \<le> 86400
   \<and> (1 \<le> n \<and> n \<le> 86400 \<longrightarrow> parse_timeout (Some (''Second-'' @ show_word n)) = n)
   \<and> parse_timeout None = 1800 \<and> parse_timeout (Some ''Second-infinite'') = 1800"
proof -
  have "parse_timeout (Some ''Second-infinite'') = 1800"
    by (simp add: parse_timeout_def strip_prefix_def parse_word_def parse_uint_def is_ascii_digit_def
        clamp_def MAX_TIMEOUT_SECONDS_def DEFAULT_TIMEOUT_SECONDS_def)
  moreover have "parse_timeout None = 1800"
    by (simp add: parse_timeout_def clamp_def MAX_TIMEOUT_SECONDS_def DEFAULT_TIMEOUT_SECONDS_def)
  ultimately show ?thesis using parse_timeout_bounds parse_timeout_seconds by blast
qed

theorem parse_timeout_correct_witness:
  "parse_timeout (Some (''Second-'' @ show_word (300 :: u64))) = 300"
  using parse_timeout_correct [of None 300] by simp

end
