(* ===== verification/Bookmarks.thy ===== *)
theory Bookmarks
  imports Stores Filesystem Rust_Text
begin

text \<open>
  The bookmark store, \<open>crates/joedlna-core/src/bookmarks.rs\<close>: positions in memory, saved to a TOML
  file on every change by writing a temporary file and renaming it.

  The disk is a value passed along.  It keeps the contents of every moment it went through, so
  what a process that stops in the middle leaves behind is an element of \<open>moments\<close>; a write goes
  through every prefix of what it writes, a rename is one step, as on every POSIX file system.
  Which calls fail, and how far a failing write got, is decided by the caller.  The TOML crate is a
  pair of functions, with \<open>toml_codec\<close> what the code relies on: reading gives a map, and what was
  written reads back.  The mutex is held over the whole of \<open>set\<close>, so calls do not interleave, as
  \<open>Bookmark_Tasks\<close> shows for calls that are not dropped, and only for those.
\<close>

section \<open>The disk\<close>

datatype io_kind = NotFound | AlreadyExists | PermissionDenied | OtherKind

type_synonym disk_error = "io_kind \<times> string"

type_synonym files = "path \<Rightarrow> string option"

record disk =
  files :: files
  moments :: "files list"

definition disk_pass :: "files \<Rightarrow> disk \<Rightarrow> disk" where
  "disk_pass fs d = d\<lparr>files := fs, moments := moments d @ [fs]\<rparr>"

definition disk_read :: "disk_error option \<Rightarrow> path \<Rightarrow> files \<Rightarrow> disk_error + string" where
  "disk_read fault p fs =
    (case fault of
       Some e \<Rightarrow> Inl e
     | None \<Rightarrow>
       (case fs p of
          None \<Rightarrow> Inl (NotFound, [])
        | Some s \<Rightarrow>
          if utf8_valid s then Inr s
          else Inl (OtherKind, ''stream did not contain valid UTF-8'')))"

text \<open>
  \<open>fs::write\<close> creates or empties the file and writes to it: a fault is an error with the number of
  bytes already written, or with \<open>None\<close> when the file could not be opened.
\<close>

definition disk_write ::
  "(disk_error \<times> nat option) option \<Rightarrow> path \<Rightarrow> string \<Rightarrow> disk \<Rightarrow> (disk_error + unit) \<times> disk" where
  "disk_write fault p s d =
    (let written = (\<lambda>n. fold (\<lambda>k. disk_pass ((files d)(p \<mapsto> take k s))) [0..<Suc n] d) in
     case fault of
       None \<Rightarrow> (Inr (), written (length s))
     | Some (e, None) \<Rightarrow> (Inl e, d)
     | Some (e, Some n) \<Rightarrow> (Inl e, written n))"

definition disk_rename ::
  "disk_error option \<Rightarrow> path \<Rightarrow> path \<Rightarrow> disk \<Rightarrow> (disk_error + unit) \<times> disk" where
  "disk_rename fault p q d =
    (case fault of
       Some e \<Rightarrow> (Inl e, d)
     | None \<Rightarrow>
       (case files d p of
          None \<Rightarrow> (Inl (NotFound, []), d)
        | Some s \<Rightarrow> (Inr (), disk_pass ((files d)(p := None, q \<mapsto> s)) d)))"

definition disk_remove :: "disk_error option \<Rightarrow> path \<Rightarrow> disk \<Rightarrow> (disk_error + unit) \<times> disk" where
  "disk_remove fault p d =
    (case fault of
       Some e \<Rightarrow> (Inl e, d)
     | None \<Rightarrow>
       (case files d p of
          None \<Rightarrow> (Inl (NotFound, []), d)
        | Some s \<Rightarrow> (Inr (), disk_pass ((files d)(p := None)) d)))"

text \<open>\<open>Path::with_extension\<close>, for a non-empty extension.\<close>

definition path_with_extension :: "path \<Rightarrow> string \<Rightarrow> path" where
  "path_with_extension p ext =
    (case path_file_stem p of None \<Rightarrow> p | Some stem \<Rightarrow> butlast p @ [stem @ ''.'' @ ext])"

section \<open>The store\<close>

type_synonym positions = "(string, u64) btree_map"

record bookmark_store =
  bs_path :: path
  bs_positions :: positions

datatype bookmark_error =
    BookmarkRead path disk_error
  | BookmarkParse path string
  | BookmarkSerialize string
  | BookmarkWrite path disk_error

definition load_bookmarks ::
  "(string \<Rightarrow> string + positions) \<Rightarrow> disk_error option \<Rightarrow> path \<Rightarrow> files \<Rightarrow>
    bookmark_error + bookmark_store" where
  "load_bookmarks from_toml fault p fs =
    bind_result
      (case disk_read fault p fs of
         Inr source \<Rightarrow> map_err (BookmarkParse p) (from_toml source)
       | Inl e \<Rightarrow> if fst e = NotFound then Inr [] else Inl (BookmarkRead p e))
      (\<lambda>state. Inr \<lparr>bs_path = p, bs_positions = state\<rparr>)"

definition snapshot :: "bookmark_store \<Rightarrow> positions" where
  "snapshot st = bs_positions st"

definition update_position :: "string \<Rightarrow> u64 \<Rightarrow> positions \<Rightarrow> positions" where
  "update_position obj position m =
    (if position = 0 then bt_remove obj m else bt_insert obj position m)"

record set_faults =
  write_fault :: "(disk_error \<times> nat option) option"
  rename_fault :: "disk_error option"
  remove_fault :: "disk_error option"
  retry_fault :: "disk_error option"

definition no_faults :: set_faults where
  "no_faults =
    \<lparr>write_fault = None, rename_fault = None, remove_fault = None, retry_fault = None\<rparr>"

text \<open>\<open>windows\<close> is \<open>cfg!(windows)\<close>: there an existing destination is removed first.\<close>

definition replace_file ::
  "bool \<Rightarrow> set_faults \<Rightarrow> path \<Rightarrow> path \<Rightarrow> disk \<Rightarrow> (disk_error + unit) \<times> disk" where
  "replace_file windows f temporary destination d =
    (case disk_rename (rename_fault f) temporary destination d of
       (Inr _, d1) \<Rightarrow> (Inr (), d1)
     | (Inl e, d1) \<Rightarrow>
       if windows \<and> (fst e = AlreadyExists \<or> fst e = PermissionDenied) then
         (case disk_remove (remove_fault f) destination d1 of
            (Inr _, d2) \<Rightarrow> disk_rename (retry_fault f) temporary destination d2
          | (Inl e', d2) \<Rightarrow>
            if fst e' = NotFound then disk_rename (retry_fault f) temporary destination d2
            else (Inl e', d2))
       else (Inl e, d1))"

definition set_position ::
  "(positions \<Rightarrow> string + string) \<Rightarrow> bool \<Rightarrow> set_faults \<Rightarrow> string \<Rightarrow> u64 \<Rightarrow> bookmark_store \<Rightarrow> disk \<Rightarrow>
    (bookmark_error + unit) \<times> bookmark_store \<times> disk" where
  "set_position to_toml windows f obj position st d =
    (let st' = st\<lparr>bs_positions := update_position obj position (bs_positions st)\<rparr>;
         temporary = path_with_extension (bs_path st) ''toml.tmp'' in
     case to_toml (bs_positions st') of
       Inl e \<Rightarrow> (Inl (BookmarkSerialize e), st', d)
     | Inr serialized \<Rightarrow>
       (case disk_write (write_fault f) temporary serialized d of
          (Inl e, d1) \<Rightarrow> (Inl (BookmarkWrite temporary e), st', d1)
        | (Inr _, d1) \<Rightarrow>
          (case replace_file windows f temporary (bs_path st) d1 of
             (r, d2) \<Rightarrow> (map_err (BookmarkWrite (bs_path st)) r, st', d2))))"

text \<open>A history of calls, with their results.\<close>

type_synonym set_op = "string \<times> u64 \<times> set_faults"

fun set_run ::
  "(positions \<Rightarrow> string + string) \<Rightarrow> bool \<Rightarrow> set_op list \<Rightarrow> bookmark_store \<Rightarrow> disk \<Rightarrow>
    (bookmark_error + unit) list \<times> bookmark_store \<times> disk" where
  "set_run to_toml windows [] st d = ([], st, d)"
| "set_run to_toml windows ((obj, position, f) # ops) st d =
    (case set_position to_toml windows f obj position st d of
       (r, st', d') \<Rightarrow>
         (case set_run to_toml windows ops st' d' of (rs, st'', d'') \<Rightarrow> (r # rs, st'', d'')))"

section \<open>Disk operations\<close>

lemma disk_pass_simps [simp]:
  "files (disk_pass fs d) = fs" "moments (disk_pass fs d) = moments d @ [fs]"
  by (simp_all add: disk_pass_def)

lemma fold_disk_pass:
  "moments (fold (\<lambda>k. disk_pass (g k)) ks d) = moments d @ map g ks"
  "files (fold (\<lambda>k. disk_pass (g k)) ks d) = (if ks = [] then files d else g (last ks))"
  by (induction ks arbitrary: d) (auto simp: disk_pass_def)

text \<open>
  What an operation on the files in \<open>ps\<close> may do: time goes on, and at every new moment, the last
  one included, all other files are as before.
\<close>

definition touches_only :: "path set \<Rightarrow> disk \<Rightarrow> disk \<Rightarrow> bool" where
  "touches_only ps d d' =
    ((\<exists>ms. moments d' = moments d @ ms
        \<and> (\<forall>m \<in> set ms. \<forall>q. q \<notin> ps \<longrightarrow> m q = files d q))
     \<and> (\<forall>q. q \<notin> ps \<longrightarrow> files d' q = files d q))"

lemma touches_only_refl [simp]: "touches_only ps d d"
  by (simp add: touches_only_def)

lemma touches_only_pass: "(\<And>q. q \<notin> ps \<Longrightarrow> fs q = files d q) \<Longrightarrow> touches_only ps d (disk_pass fs d)"
  by (simp add: touches_only_def)

lemma disk_write_touches: "disk_write fault p s d = (r, d') \<Longrightarrow> touches_only {p} d d'"
  by (auto simp: disk_write_def Let_def touches_only_def fold_disk_pass split: option.splits)

lemma disk_write_result:
  assumes "disk_write fault p s d = (r, d')"
  shows "is_ok r \<longleftrightarrow> fault = None" and "is_ok r \<Longrightarrow> files d' p = Some s"
  using assms
  by (auto simp: disk_write_def Let_def fold_disk_pass simp del: upt_Suc split: option.splits)

lemma path_with_extension_neq:
  assumes "p \<noteq> []"
  shows "path_with_extension p ''toml.tmp'' \<noteq> p"
proof
  assume eq: "path_with_extension p ''toml.tmp'' = p"
  have name: "path_file_name p = Some (last p)" using assms by (simp add: path_file_name_def)
  show False
  proof (cases "path_file_stem p")
    case None
    then show False by (auto simp: path_file_stem_def name split: option.splits if_splits)
  next
    case (Some stem)
    then have last: "last p = stem @ ''.toml.tmp''"
      using arg_cong [OF eq, of last] by (simp add: path_with_extension_def)
    have "rsplit_once CHR ''.'' (stem @ ''.toml.tmp'') = Some (stem @ ''.toml'', ''tmp'')"
      using rsplit_once_append [of "CHR ''.''" "''tmp''" "stem @ ''.toml''"] by simp
    then show False using Some by (simp add: path_file_stem_def name last)
  qed
qed

section \<open>Setting a position\<close>

lemma replace_file_unix:
  "replace_file False f p q d =
    (case disk_rename (rename_fault f) p q d of (r, d') \<Rightarrow> (r, d'))"
  by (auto simp: replace_file_def split: prod.splits sum.splits)

lemma set_position_memory:
  assumes "set_position to_toml windows f obj position st d = (r, st', d')"
  shows "bs_path st' = bs_path st"
    and "bs_positions st' = update_position obj position (bs_positions st)"
  using assms by (auto simp: set_position_def Let_def split: sum.splits prod.splits)

text \<open>On Unix there are four ways a call can go; only the last touches the file itself.\<close>

lemma set_position_unix_cases:
  assumes run: "set_position to_toml False f obj position st d = (r, st', d')"
    and path: "bs_path st \<noteq> []"
  defines "m \<equiv> update_position obj position (bs_positions st)"
    and "temporary \<equiv> path_with_extension (bs_path st) ''toml.tmp''"
  obtains (unserialized) e where "to_toml m = Inl e" "r = Inl (BookmarkSerialize e)" "d' = d"
  | (unwritten) s e where "to_toml m = Inr s" "write_fault f \<noteq> None"
      "r = Inl (BookmarkWrite temporary e)" "touches_only {temporary} d d'"
  | (unrenamed) s e where "to_toml m = Inr s" "write_fault f = None" "rename_fault f = Some e"
      "r = Inl (BookmarkWrite (bs_path st) e)" "touches_only {temporary} d d'"
  | (saved) s d1 where "to_toml m = Inr s" "write_fault f = None" "rename_fault f = None"
      "r = Inr ()" "touches_only {temporary} d d1"
      "d' = disk_pass ((files d1)(temporary := None, bs_path st \<mapsto> s)) d1"
proof (cases "to_toml m")
  case (Inl e)
  then show ?thesis using unserialized run by (simp add: set_position_def m_def)
next
  case (Inr s)
  obtain r1 d1 where w: "disk_write (write_fault f) temporary s d = (r1, d1)" by fastforce
  note touch = disk_write_touches [OF w] and result = disk_write_result [OF w]
  show ?thesis
  proof (cases r1)
    case (Inl e)
    with run Inr w have "r = Inl (BookmarkWrite temporary e)" "d' = d1"
      by (simp_all add: set_position_def Let_def m_def temporary_def)
    then show ?thesis using unwritten Inr touch result Inl by simp
  next
    case (Inr u)
    with result have ok: "write_fault f = None" "files d1 temporary = Some s" by simp_all
    from run \<open>to_toml m = Inr s\<close> w Inr
    have step: "(case disk_rename (rename_fault f) temporary (bs_path st) d1 of
        (q, d2) \<Rightarrow> (map_err (BookmarkWrite (bs_path st)) q, st', d2)) = (r, st', d')"
      by (simp add: set_position_def Let_def m_def temporary_def replace_file_unix split: prod.splits)
    show ?thesis
    proof (cases "rename_fault f")
      case None
      with step ok show ?thesis using saved \<open>to_toml m = Inr s\<close> touch by (simp add: disk_rename_def)
    next
      case (Some e)
      with step ok show ?thesis using unrenamed \<open>to_toml m = Inr s\<close> touch by (simp add: disk_rename_def)
    qed
  qed
qed

text \<open>
  So the file is replaced in one step or left alone: what it holds at any moment of a call is
  what it held before or all of the new text.
\<close>

lemma set_position_unix:
  assumes run: "set_position to_toml False f obj position st d = (r, st', d')"
    and path: "bs_path st \<noteq> []"
  defines "m \<equiv> update_position obj position (bs_positions st)"
    and "temporary \<equiv> path_with_extension (bs_path st) ''toml.tmp''"
  shows "is_ok r \<longleftrightarrow> (\<exists>s. to_toml m = Inr s) \<and> write_fault f = None \<and> rename_fault f = None"
    and "is_ok r \<Longrightarrow> \<exists>s. to_toml m = Inr s \<and> files d' (bs_path st) = Some s"
    and "\<not> is_ok r \<Longrightarrow> files d' (bs_path st) = files d (bs_path st)"
    and "\<exists>ms. moments d' = moments d @ ms \<and> (\<forall>x \<in> set ms.
      x (bs_path st) = files d (bs_path st) \<or> (\<exists>s. to_toml m = Inr s \<and> x (bs_path st) = Some s))"
    and "touches_only {bs_path st, temporary} d d'"
proof -
  have neq: "temporary \<noteq> bs_path st"
    using path_with_extension_neq [OF path] by (simp add: temporary_def)
  note cases = set_position_unix_cases [OF run path, folded m_def temporary_def]
  show "is_ok r \<longleftrightarrow> (\<exists>s. to_toml m = Inr s) \<and> write_fault f = None \<and> rename_fault f = None"
    by (cases rule: cases) simp_all
  show "is_ok r \<Longrightarrow> \<exists>s. to_toml m = Inr s \<and> files d' (bs_path st) = Some s"
    by (cases rule: cases) simp_all
  show "\<not> is_ok r \<Longrightarrow> files d' (bs_path st) = files d (bs_path st)"
    using neq by (cases rule: cases) (auto simp: touches_only_def)
  show "\<exists>ms. moments d' = moments d @ ms \<and> (\<forall>x \<in> set ms.
      x (bs_path st) = files d (bs_path st) \<or> (\<exists>s. to_toml m = Inr s \<and> x (bs_path st) = Some s))"
    using neq by (cases rule: cases) (auto simp: touches_only_def)
  show "touches_only {bs_path st, temporary} d d'"
    using neq by (cases rule: cases) (auto simp: touches_only_def)
qed

section \<open>Histories\<close>

lemma update_position_get:
  "bt_get (update_position obj position m) k =
    (if k = obj then if position = 0 then None else Some position else bt_get m k)"
  by (simp add: update_position_def bt_get_remove bt_get_insert)

lemma update_position_ok: "bt_ok m \<Longrightarrow> bt_ok (update_position obj position m)"
  by (simp add: update_position_def bt_ok_remove bt_ok_insert)

text \<open>What the calls make of the positions, and how many of them the file has seen.\<close>

fun applied :: "set_op list \<Rightarrow> positions \<Rightarrow> positions" where
  "applied [] m = m"
| "applied ((obj, position, f) # ops) m = applied ops (update_position obj position m)"

fun saved :: "(bookmark_error + unit) list \<Rightarrow> nat" where
  "saved [] = 0"
| "saved (r # rs) = (if saved rs > 0 then Suc (saved rs) else if is_ok r then 1 else 0)"

lemma applied_append: "applied (ops @ ops') m = applied ops' (applied ops m)"
  by (induction ops m rule: applied.induct) simp_all

lemma applied_ok: "bt_ok m \<Longrightarrow> bt_ok (applied ops m)"
  by (induction ops m rule: applied.induct) (simp_all add: update_position_ok)

lemma saved_le: "saved rs \<le> length rs"
  by (induction rs) auto

text \<open>
  The text of the file after a history: that of the positions at the last successful call, and
  the original one if there was none.
\<close>

lemma set_run_unix:
  assumes "set_run to_toml False ops st d = (rs, st', d')" and "bs_path st \<noteq> []"
  shows "length rs = length ops \<and> bs_path st' = bs_path st
    \<and> bs_positions st' = applied ops (bs_positions st)
    \<and> (if saved rs = 0 then files d' (bs_path st) = files d (bs_path st)
       else \<exists>s. to_toml (applied (take (saved rs) ops) (bs_positions st)) = Inr s
         \<and> files d' (bs_path st) = Some s)"
  using assms
proof (induction ops arbitrary: st d rs)
  case Nil
  then show ?case by simp
next
  case (Cons op ops)
  obtain obj position f where op: "op = (obj, position, f)" by (cases op)
  obtain r st1 d1 where one: "set_position to_toml False f obj position st d = (r, st1, d1)"
    by (metis prod_cases3)
  obtain rs1 st2 d2 where run: "set_run to_toml False ops st1 d1 = (rs1, st2, d2)"
    by (metis prod_cases3)
  from Cons.prems(1) have eq: "rs = r # rs1" "st' = st2" "d' = d2" by (simp_all add: op one run)
  note mem = set_position_memory [OF one] and disk = set_position_unix [OF one Cons.prems(2)]
  from Cons.IH [OF run [folded eq]] mem Cons.prems(2) have ih: "length rs1 = length ops"
    "bs_path st' = bs_path st" "bs_positions st' = applied (op # ops) (bs_positions st)"
    "if saved rs1 = 0 then files d' (bs_path st) = files d1 (bs_path st)
       else \<exists>s. to_toml (applied (take (saved rs1) ops) (bs_positions st1)) = Inr s
         \<and> files d' (bs_path st) = Some s" by (auto simp: op)
  have "if saved rs = 0 then files d' (bs_path st) = files d (bs_path st)
       else \<exists>s. to_toml (applied (take (saved rs) (op # ops)) (bs_positions st)) = Inr s
         \<and> files d' (bs_path st) = Some s"
  proof (cases "saved rs1 = 0")
    case True
    then show ?thesis using ih(4) disk(2,3) by (auto simp: eq op)
  next
    case False
    then show ?thesis using ih(4) mem by (simp add: eq op)
  qed
  then show ?case using ih(1-3) by (simp add: eq)
qed

section \<open>Loading\<close>

text \<open>
  What the code relies on of the TOML crate, for the maps it writes: a text that was written is
  UTF-8 and reads back, and reading gives maps.
\<close>

definition toml_codec ::
  "(positions \<Rightarrow> string + string) \<Rightarrow> (string \<Rightarrow> string + positions) \<Rightarrow> bool" where
  "toml_codec to_toml from_toml =
    ((\<forall>m s. bt_ok m \<longrightarrow> to_toml m = Inr s \<longrightarrow> utf8_valid s \<and> from_toml s = Inr m)
     \<and> (\<forall>s m. from_toml s = Inr m \<longrightarrow> bt_ok m))"

lemma toml_codec_written:
  "toml_codec to_toml from_toml \<Longrightarrow> bt_ok m \<Longrightarrow> to_toml m = Inr s \<Longrightarrow> utf8_valid s \<and> from_toml s = Inr m"
  unfolding toml_codec_def by blast

lemma toml_codec_read: "toml_codec to_toml from_toml \<Longrightarrow> from_toml s = Inr m \<Longrightarrow> bt_ok m"
  unfolding toml_codec_def by blast

lemma load_written:
  assumes "toml_codec to_toml from_toml" and "bt_ok m" and "to_toml m = Inr s" and "fs p = Some s"
  shows "load_bookmarks from_toml None p fs = Inr \<lparr>bs_path = p, bs_positions = m\<rparr>"
  using toml_codec_written [OF assms(1-3)] assms(4)
  by (simp add: load_bookmarks_def disk_read_def)

lemma load_cong:
  "fs p = fs' p \<Longrightarrow> load_bookmarks from_toml None p fs = load_bookmarks from_toml None p fs'"
  by (simp add: load_bookmarks_def disk_read_def)

lemma load_reads_ok:
  assumes read: "\<And>s m. from_toml s = Inr m \<Longrightarrow> bt_ok m"
    and load: "load_bookmarks from_toml fault p fs = Inr st"
  shows "bs_path st = p \<and> bt_ok (bs_positions st)"
proof -
  from load obtain m where m: "st = \<lparr>bs_path = p, bs_positions = m\<rparr>" "m = [] \<or> (\<exists>s. from_toml s = Inr m)"
    by (auto simp: load_bookmarks_def map_err_def bind_result_Inr_iff split: sum.splits if_splits)
  then show ?thesis using read bt_ok_Nil by auto
qed

lemma load_ok:
  "toml_codec to_toml from_toml \<Longrightarrow> load_bookmarks from_toml fault p fs = Inr st \<Longrightarrow>
    bs_path st = p \<and> bt_ok (bs_positions st)"
  using load_reads_ok toml_codec_read by blast

end
