(* ===== verification/Bookmarks_Properties.thy ===== *)
theory Bookmarks_Properties
  imports Bookmarks Xml
begin

text \<open>
  Properties of the bookmark store: what a call changes in memory and on disk, and what is left
  when the process stops at any moment.
\<close>

section \<open>An example\<close>

text \<open>A television stores second 5, then 7, of one film; the codec writes just these two maps.\<close>

definition example_to_toml :: "positions \<Rightarrow> string + string" where
  "example_to_toml m =
    (if m = [(''v'', 5)] then Inr ''v=5'' else if m = [(''v'', 7)] then Inr ''v=7'' else Inl ''?'')"

definition example_from_toml :: "string \<Rightarrow> string + positions" where
  "example_from_toml s =
    (if s = ''v=5'' then Inr [(''v'', 5)] else if s = ''v=7'' then Inr [(''v'', 7)] else Inl ''?'')"

definition example_torn :: set_faults where
  "example_torn = no_faults\<lparr>write_fault := Some ((OtherKind, ''disk full''), Some 2)\<rparr>"

lemma example_codec: "toml_codec example_to_toml example_from_toml"
  by (simp add: toml_codec_def example_to_toml_def example_from_toml_def bt_ok_def utf8_valid_ascii)

definition example_store :: bookmark_store where
  "example_store = \<lparr>bs_path = [''bookmarks.toml''], bs_positions = []\<rparr>"

definition example_disk :: disk where
  "example_disk = \<lparr>files = (\<lambda>_. None), moments = []\<rparr>"

lemma example_temporary:
  "path_with_extension [''bookmarks.toml''] ''toml.tmp'' = [''bookmarks.toml.tmp'']"
  by code_simp

lemma example_load:
  "load_bookmarks example_from_toml None [''bookmarks.toml''] (files example_disk) = Inr example_store"
  by (simp add: load_bookmarks_def disk_read_def example_disk_def example_store_def)

text \<open>The second call stops with the disk full, two bytes into the temporary file.\<close>

lemma example_torn_call:
  assumes "set_run example_to_toml False [(''v'', 5, no_faults)] example_store example_disk = (rs, st1, d1)"
    and "set_position example_to_toml False example_torn ''v'' 7 st1 d1 = (r, st2, d2)"
  shows "saved rs = 1 \<and> moments d2 = moments d1 @
    map (\<lambda>k. [[''bookmarks.toml''] \<mapsto> ''v=5'', [''bookmarks.toml.tmp''] \<mapsto> take k ''v=7'']) [0..<3]"
  using assms
  by (clarsimp simp: set_position_def disk_write_def replace_file_def disk_rename_def example_store_def
      example_disk_def example_to_toml_def update_position_def no_faults_def example_torn_def
      example_temporary disk_pass_def fun_upd_twist upt_rec Let_def)

section \<open>Properties\<close>

text \<open>Setting a position updates exactly that bookmark in memory, where 0 removes it, whatever
  happens on disk.  On Unix the call succeeds if and only if the map serializes, the temporary file
  is written and the rename succeeds; then the file holds the new map's text, and otherwise it is
  unchanged.  No other file than the two is touched.\<close>

theorem set_position_correct:
  assumes "set_position to_toml False f obj position st d = (r, st', d')" and "bs_path st \<noteq> []"
  shows "bt_get (snapshot st') k =
      (if k = obj then if position = 0 then None else Some position else bt_get (snapshot st) k)
    \<and> (is_ok r \<longleftrightarrow> is_ok (to_toml (snapshot st')) \<and> write_fault f = None \<and> rename_fault f = None)
    \<and> (if is_ok r then map_option Inr (files d' (bs_path st)) = Some (to_toml (snapshot st'))
       else files d' (bs_path st) = files d (bs_path st))
    \<and> touches_only {bs_path st, path_with_extension (bs_path st) ''toml.tmp''} d d'"
proof (intro conjI)
  note memory = set_position_memory [OF assms(1)] and disk = set_position_unix [OF assms]
  show "bt_get (snapshot st') k =
      (if k = obj then if position = 0 then None else Some position else bt_get (snapshot st) k)"
    by (simp add: snapshot_def memory update_position_get)
  show "is_ok r \<longleftrightarrow> is_ok (to_toml (snapshot st')) \<and> write_fault f = None \<and> rename_fault f = None"
    using disk(1) by (cases "to_toml (snapshot st')") (simp_all add: snapshot_def memory)
  show "if is_ok r then map_option Inr (files d' (bs_path st)) = Some (to_toml (snapshot st'))
      else files d' (bs_path st) = files d (bs_path st)"
    using disk(2,3) by (auto simp: snapshot_def memory)
  show "touches_only {bs_path st, path_with_extension (bs_path st) ''toml.tmp''} d d'"
    using disk(5) .
qed

theorem set_position_correct_witness:
  "case set_position example_to_toml False example_torn ''v'' 5 example_store example_disk of
    (r, st', d') \<Rightarrow> \<not> is_ok r \<and> bt_get (snapshot st') ''v'' = Some 5
      \<and> files d' [''bookmarks.toml''] = None"
proof -
  obtain r st' d' where run: "set_position example_to_toml False example_torn ''v'' 5
      example_store example_disk = (r, st', d')" by (metis prod_cases3)
  have "bs_path example_store \<noteq> []" by (simp add: example_store_def)
  note facts = set_position_correct [OF run this]
  from facts [of "''v''"]
  have "\<not> is_ok r" "bt_get (snapshot st') ''v'' = Some 5" "files d' [''bookmarks.toml''] = None"
    by (auto simp: example_torn_def example_store_def example_disk_def)
  then show ?thesis by (simp add: run)
qed

text \<open>On Windows there is a moment without the file: a rename that is refused because the file exists
  is tried again after removing it, and a process that stops in between starts without bookmarks.\<close>

lemma windows_gap:
  assumes "to_toml (update_position obj position (bs_positions st)) = Inr s"
    and "files d (bs_path st) = Some old" and "bs_path st \<noteq> []"
    and "f = no_faults\<lparr>rename_fault := Some (AlreadyExists, e)\<rparr>"
  shows "\<exists>x \<in> set (moments (snd (snd (set_position to_toml True f obj position st d)))).
    load_bookmarks from_toml None (bs_path st) x = Inr \<lparr>bs_path = bs_path st, bs_positions = []\<rparr>"
proof -
  let ?t = "path_with_extension (bs_path st) ''toml.tmp''"
  obtain r1 d1 where w: "disk_write None ?t s d = (r1, d1)" by fastforce
  have ok: "is_ok r1" and new: "files d1 ?t = Some s"
    using disk_write_result [OF w] by simp_all
  have kept: "files d1 (bs_path st) = Some old"
    using disk_write_touches [OF w] path_with_extension_neq [OF assms(3)] assms(2)
    by (auto simp: touches_only_def)
  let ?d2 = "disk_pass ((files d1)(bs_path st := None)) d1"
  have "snd (snd (set_position to_toml True f obj position st d)) =
      disk_pass ((files ?d2)(?t := None, bs_path st \<mapsto> s)) ?d2"
    using ok w new kept path_with_extension_neq [OF assms(3)]
    by (cases r1) (simp_all add: set_position_def Let_def assms(1,4) no_faults_def replace_file_def
        disk_rename_def disk_remove_def)
  moreover have "load_bookmarks from_toml None (bs_path st) ((files d1)(bs_path st := None)) =
      Inr \<lparr>bs_path = bs_path st, bs_positions = []\<rparr>"
    by (simp add: load_bookmarks_def disk_read_def)
  ultimately show ?thesis by (auto simp: fun_upd_def)
qed

text \<open>C11. On Unix, bookmarks survive crashes: after any history of calls, failed ones included but
  none dropped by its task, and at every moment of one more call, loading the file gives the
  bookmarks as they were after the last successful call or those after the call under way, never
  anything else; and once that call has succeeded, loading gives exactly what is in memory.  (On
  Windows the retry of a refused rename has a moment without the file, \<open>windows_gap\<close>.)\<close>

theorem bookmarks_durable:
  assumes codec: "toml_codec to_toml from_toml" and p: "p \<noteq> []"
    and load: "load_bookmarks from_toml None p (files d) = Inr st"
    and run: "set_run to_toml False ops st d = (rs, st1, d1)"
    and last: "set_position to_toml False f obj position st1 d1 = (r, st2, d2)"
    and moment: "moments d2 = moments d1 @ ms" "x \<in> set ms"
  shows "load_bookmarks from_toml None p x \<in>
      {Inr \<lparr>bs_path = p, bs_positions = applied (take (saved rs) ops) (snapshot st)\<rparr>,
       Inr \<lparr>bs_path = p, bs_positions = applied (ops @ [(obj, position, f)]) (snapshot st)\<rparr>}
    \<and> (is_ok r \<longrightarrow> load_bookmarks from_toml None p (files d2) = Inr st2)"
proof (intro conjI impI)
  from load_ok [OF codec load] have st: "bs_path st = p" "bt_ok (bs_positions st)" by simp_all
  from set_run_unix [OF run, unfolded st(1), OF p] have path1: "bs_path st1 = p"
    and pos1: "bs_positions st1 = applied ops (bs_positions st)"
    and file1: "if saved rs = 0 then files d1 p = files d p
       else \<exists>s. to_toml (applied (take (saved rs) ops) (bs_positions st)) = Inr s \<and> files d1 p = Some s"
    by simp_all
  let ?new = "update_position obj position (bs_positions st1)"
  note disk = set_position_unix [OF last, unfolded path1, OF p]
  have new_ok: "bt_ok ?new" using st(2) by (simp add: pos1 applied_ok update_position_ok)
  have load1: "load_bookmarks from_toml None p (files d1) =
      Inr \<lparr>bs_path = p, bs_positions = applied (take (saved rs) ops) (bs_positions st)\<rparr>"
  proof (cases "saved rs = 0")
    case True
    with file1 load_cong [of "files d1" p "files d" from_toml] load st(1) show ?thesis by simp
  next
    case False
    with file1 load_written [OF codec applied_ok [OF st(2)]] show ?thesis by auto
  qed
  from disk(4) moment have "x p = files d1 p \<or> (\<exists>s. to_toml ?new = Inr s \<and> x p = Some s)" by auto
  then show "load_bookmarks from_toml None p x \<in>
      {Inr \<lparr>bs_path = p, bs_positions = applied (take (saved rs) ops) (snapshot st)\<rparr>,
       Inr \<lparr>bs_path = p, bs_positions = applied (ops @ [(obj, position, f)]) (snapshot st)\<rparr>}"
    using load1 load_cong [of x p "files d1" from_toml] load_written [OF codec new_ok]
    by (auto simp: snapshot_def applied_append pos1)
  assume "is_ok r"
  with disk(2) obtain s where "to_toml ?new = Inr s" "files d2 p = Some s" by blast
  from load_written [where fs = "files d2" and p = p, OF codec new_ok this] set_position_memory [OF last] path1
  show "load_bookmarks from_toml None p (files d2) = Inr st2" by (cases st2) simp
qed

theorem bookmarks_durable_witness:
  "\<exists>x. x [''bookmarks.toml.tmp''] = Some ''v=''
    \<and> load_bookmarks example_from_toml None [''bookmarks.toml''] x \<in>
      {Inr \<lparr>bs_path = [''bookmarks.toml''], bs_positions = [(''v'', 5)]\<rparr>,
       Inr \<lparr>bs_path = [''bookmarks.toml''], bs_positions = [(''v'', 7)]\<rparr>}"
proof -
  obtain rs st1 d1 where run: "set_run example_to_toml False [(''v'', 5, no_faults)]
      example_store example_disk = (rs, st1, d1)" by (metis prod_cases3)
  obtain r st2 d2 where last: "set_position example_to_toml False example_torn ''v'' 7 st1 d1
      = (r, st2, d2)" by (metis prod_cases3)
  note torn = example_torn_call [OF run last]
  let ?x = "[[''bookmarks.toml''] \<mapsto> ''v=5'', [''bookmarks.toml.tmp''] \<mapsto> take 2 ''v=7'']"
  have "?x \<in> set (map (\<lambda>k. [[''bookmarks.toml''] \<mapsto> ''v=5'',
      [''bookmarks.toml.tmp''] \<mapsto> take k ''v=7'']) [0..<3])"
    unfolding set_map by (rule image_eqI [where x = 2]) simp_all
  from bookmarks_durable [THEN conjunct1, OF example_codec _ example_load run last _ this] torn
  have "load_bookmarks example_from_toml None [''bookmarks.toml''] ?x \<in>
      {Inr \<lparr>bs_path = [''bookmarks.toml''], bs_positions = [(''v'', 5)]\<rparr>,
       Inr \<lparr>bs_path = [''bookmarks.toml''], bs_positions = [(''v'', 7)]\<rparr>}"
    by (simp add: snapshot_def example_store_def update_position_def)
  moreover have "?x [''bookmarks.toml.tmp''] = Some ''v=''" by simp
  ultimately show ?thesis by (intro exI [of _ ?x] conjI)
qed

end
