(* ===== verification/Ssdp.thy ===== *)
theory Ssdp
  imports Description Events
begin

text \<open>
  Discovery, \<open>crates/joedlna-core/src/ssdp.rs\<close>: the advertisements of the server, the reading of
  search requests, the answers, and \<open>run_ssdp\<close> as a loop over what its \<open>select!\<close> can receive.

  A step of the loop returns what it does with the socket: it sends, or it spawns a task that sleeps
  and then answers a search (\<open>SpawnReply\<close>).  What leaves the socket, which the loop shares with the
  tasks it has spawned, is the state machine \<open>wire_step\<close>.  The clock's nanoseconds come with the
  datagram they are read for.
\<close>

section \<open>Advertisements\<close>

definition SSDP_ADDRESS :: ipv4 where "SSDP_ADDRESS = (239, 255, 255, 250)"
definition SSDP_PORT :: u16 where "SSDP_PORT = 1900"

record advertisement =
  ad_target :: string
  ad_usn :: string

definition advertisements :: "string \<Rightarrow> advertisement list" where
  "advertisements udn =
    map (\<lambda>(target, usn). \<lparr>ad_target = target, ad_usn = usn\<rparr>)
      [(''upnp:rootdevice'', udn @ ''::upnp:rootdevice''),
       (udn, udn),
       (MEDIA_SERVER_TYPE, udn @ ''::'' @ MEDIA_SERVER_TYPE),
       (CONTENT_DIRECTORY_TYPE, udn @ ''::'' @ CONTENT_DIRECTORY_TYPE),
       (CONNECTION_MANAGER_TYPE, udn @ ''::'' @ CONNECTION_MANAGER_TYPE)]"

section \<open>Messages\<close>

definition ssdp_destination :: socket_addr_v4 where
  "ssdp_destination = \<lparr>addr_ip = SSDP_ADDRESS, addr_port = SSDP_PORT\<rparr>"

definition alive_message :: "string \<Rightarrow> u32 \<Rightarrow> advertisement \<Rightarrow> string" where
  "alive_message location max_age ad =
    ''NOTIFY * HTTP/1.1'' @ crlf
    @ ''HOST: '' @ show_ipv4 SSDP_ADDRESS @ '':'' @ show_word SSDP_PORT @ crlf
    @ ''CACHE-CONTROL: max-age='' @ show_word max_age @ crlf
    @ ''LOCATION: '' @ location @ crlf @ ''NT: '' @ ad_target ad @ crlf
    @ ''NTS: ssdp:alive'' @ crlf @ ''SERVER: '' @ SERVER @ crlf
    @ ''USN: '' @ ad_usn ad @ crlf @ crlf"

definition byebye_message :: "advertisement \<Rightarrow> string" where
  "byebye_message ad =
    ''NOTIFY * HTTP/1.1'' @ crlf
    @ ''HOST: '' @ show_ipv4 SSDP_ADDRESS @ '':'' @ show_word SSDP_PORT @ crlf
    @ ''NT: '' @ ad_target ad @ crlf @ ''NTS: ssdp:byebye'' @ crlf
    @ ''USN: '' @ ad_usn ad @ crlf @ crlf"

definition search_response :: "advertisement \<Rightarrow> string \<Rightarrow> u32 \<Rightarrow> string" where
  "search_response ad location max_age =
    ''HTTP/1.1 200 OK'' @ crlf
    @ ''CACHE-CONTROL: max-age='' @ show_word max_age @ crlf @ ''EXT:'' @ crlf
    @ ''LOCATION: '' @ location @ crlf @ ''SERVER: '' @ SERVER @ crlf
    @ ''ST: '' @ ad_target ad @ crlf @ ''USN: '' @ ad_usn ad @ crlf @ crlf"

section \<open>Searches\<close>

record search =
  se_target :: string
  se_mx_seconds :: u64

record search_state =
  ss_target :: "string option"
  ss_mx_seconds :: u64
  ss_discover :: bool

text \<open>One line of a request; a line without a colon is skipped.\<close>

definition search_line :: "string \<Rightarrow> search_state \<Rightarrow> search_state" where
  "search_line line s =
    (case split_once CHR '':'' line of
       None \<Rightarrow> s
     | Some (name, v) \<Rightarrow>
       (let n = to_ascii_lowercase (trim name) in
        if n = ''man'' then
          s\<lparr>ss_discover := eq_ignore_ascii_case
              (trim_matches (\<lambda>c. c = CHR 0x22) (trim v)) ''ssdp:discover''\<rparr>
        else if n = ''st'' then s\<lparr>ss_target := Some (trim v)\<rparr>
        else if n = ''mx'' then
          s\<lparr>ss_mx_seconds := clamp 1 5
              (case parse_word (trim v) of Some mx \<Rightarrow> mx | None \<Rightarrow> 1)\<rparr>
        else s))"

fun search_lines :: "string list \<Rightarrow> search_state \<Rightarrow> search_state" where
  "search_lines [] s = s"
| "search_lines (line # lines) s = search_lines lines (search_line line s)"

definition parse_search :: "string \<Rightarrow> search option" where
  "parse_search message =
    Option.bind (from_utf8 message) (\<lambda>text.
    (case split_crlf text of
       [] \<Rightarrow> None
     | first # lines \<Rightarrow>
       if \<not> eq_ignore_ascii_case first ''M-SEARCH * HTTP/1.1'' then None
       else
         (let s = search_lines lines \<lparr>ss_target = None, ss_mx_seconds = 1, ss_discover = False\<rparr> in
          if \<not> ss_discover s then None
          else map_option (\<lambda>t. \<lparr>se_target = t, se_mx_seconds = ss_mx_seconds s\<rparr>) (ss_target s))))"

definition matching_advertisements :: "advertisement list \<Rightarrow> string \<Rightarrow> advertisement list" where
  "matching_advertisements ads target =
    filter (\<lambda>ad. eq_ignore_ascii_case target ''ssdp:all''
      \<or> eq_ignore_ascii_case (ad_target ad) target) ads"

text \<open>
  The delay in milliseconds; \<open>nanos\<close> is the sub-second part of the clock, and the remainder by zero
  is the panic \<open>None\<close>.
\<close>

definition saturating_mul :: "u64 \<Rightarrow> u64 \<Rightarrow> u64" where
  "saturating_mul a b = (if unat a * unat b < 2 ^ 64 then a * b else - 1)"

definition search_delay :: "u64 \<Rightarrow> u32 \<Rightarrow> u16 \<Rightarrow> u64 option" where
  "search_delay mx_seconds nanos peer_port =
    (let mix = xor (ucast nanos) (ucast peer_port);
         range = saturating_mul mx_seconds 1000 in
     if range = 0 then None else Some (mix mod range))"

section \<open>The socket\<close>

text \<open>What \<open>create_socket\<close> asks of the system, in order; the first call that fails ends it.\<close>

datatype socket_call =
    NewSocket
  | ReuseAddress bool
  | ReusePort bool
  | BindTo socket_addr_v4
  | JoinMulticast ipv4 ipv4
  | MulticastInterface ipv4
  | MulticastTtl u32
  | Nonblocking bool
  | FromStd

datatype ssdp_error = SocketError io_error

type_synonym socket_faults = "socket_call \<Rightarrow> io_error option"

fun socket_calls :: "socket_faults \<Rightarrow> socket_call list \<Rightarrow> ssdp_error + socket_call list" where
  "socket_calls faults [] = Inr []"
| "socket_calls faults (call # calls) =
    (case faults call of
       Some e \<Rightarrow> Inl (SocketError e)
     | None \<Rightarrow> bind_result (socket_calls faults calls) (\<lambda>made. Inr (call # made)))"

definition socket_sequence :: "ipv4 \<Rightarrow> socket_call list" where
  "socket_sequence interface =
    [NewSocket, ReuseAddress True, ReusePort True,
     BindTo \<lparr>addr_ip = (0, 0, 0, 0), addr_port = SSDP_PORT\<rparr>,
     JoinMulticast SSDP_ADDRESS interface, MulticastInterface interface, MulticastTtl 2,
     Nonblocking True, FromStd]"

definition create_socket :: "socket_faults \<Rightarrow> ipv4 \<Rightarrow> ssdp_error + socket_call list" where
  "create_socket faults interface = socket_calls faults (socket_sequence interface)"

section \<open>The loop\<close>

record ssdp_server =
  sd_advertisements :: "advertisement list"
  sd_location :: string
  sd_max_age :: u32

datatype ssdp_event =
    Datagram string socket_addr_v4 u32
  | ReceiveError
  | RefreshTick
  | ShutdownChanged "bool option"

datatype ssdp_output =
    Send socket_addr_v4 string
  | SpawnReply u64 socket_addr_v4 "string list"

definition send_alive :: "ssdp_server \<Rightarrow> ssdp_output list" where
  "send_alive sd =
    concat (map (\<lambda>ad. replicate 2 (Send ssdp_destination
      (alive_message (sd_location sd) (sd_max_age sd) ad))) (sd_advertisements sd))"

definition send_byebye :: "ssdp_server \<Rightarrow> ssdp_output list" where
  "send_byebye sd = map (\<lambda>ad. Send ssdp_destination (byebye_message ad)) (sd_advertisements sd)"

text \<open>A datagram longer than the buffer of 2048 bytes is cut by \<open>recv_from\<close>.\<close>

definition answer_search :: "ssdp_server \<Rightarrow> string \<Rightarrow> socket_addr_v4 \<Rightarrow> u32 \<Rightarrow> ssdp_output list" where
  "answer_search sd datagram peer nanos =
    (case parse_search (take 2048 datagram) of
       None \<Rightarrow> []
     | Some search \<Rightarrow>
       (let matches = matching_advertisements (sd_advertisements sd) (se_target search) in
        if matches = [] then []
        else
          (case search_delay (se_mx_seconds search) nanos (addr_port peer) of
             None \<Rightarrow> []
           | Some delay \<Rightarrow>
             [SpawnReply delay peer
               (map (\<lambda>ad. search_response ad (sd_location sd) (sd_max_age sd)) matches)])))"

text \<open>The flag says that \<open>run_ssdp\<close> returns; a shutdown channel whose sender is gone is an error.\<close>

definition ssdp_step :: "ssdp_server \<Rightarrow> ssdp_event \<Rightarrow> ssdp_output list \<times> bool" where
  "ssdp_step sd ev =
    (case ev of
       Datagram datagram peer nanos \<Rightarrow> (answer_search sd datagram peer nanos, False)
     | ReceiveError \<Rightarrow> ([], False)
     | RefreshTick \<Rightarrow> (send_alive sd, False)
     | ShutdownChanged changed \<Rightarrow>
       (if changed = None \<or> changed = Some True then (send_byebye sd, True) else ([], False)))"

fun ssdp_loop :: "ssdp_server \<Rightarrow> ssdp_event list \<Rightarrow> ssdp_output list \<times> bool" where
  "ssdp_loop sd [] = ([], False)"
| "ssdp_loop sd (ev # evs) =
    (case ssdp_step sd ev of
       (out, True) \<Rightarrow> (out, True)
     | (out, False) \<Rightarrow> (case ssdp_loop sd evs of (outs, stopped) \<Rightarrow> (out @ outs, stopped)))"

definition new_ssdp_server :: "ipv4 \<Rightarrow> u16 \<Rightarrow> string \<Rightarrow> u32 \<Rightarrow> ssdp_server" where
  "new_ssdp_server interface port udn max_age =
    \<lparr>sd_advertisements = advertisements udn,
     sd_location = ''http://'' @ show_ipv4 interface @ '':'' @ show_word port @ ''/root.xml'',
     sd_max_age = max_age\<rparr>"

text \<open>\<open>tokio::time::interval\<close> panics on a zero period, which is half the maximal age.\<close>

definition refresh_period :: "u32 \<Rightarrow> duration" where
  "refresh_period max_age = from_secs (ucast (max_age div 2))"

definition run_ssdp ::
  "ipv4 \<Rightarrow> u16 \<Rightarrow> string \<Rightarrow> u32 \<Rightarrow> ssdp_event list \<Rightarrow> (ssdp_output list \<times> bool) option" where
  "run_ssdp interface port udn max_age evs =
    (let sd = new_ssdp_server interface port udn max_age in
     if refresh_period max_age = 0 then None
     else (case ssdp_loop sd evs of (out, stopped) \<Rightarrow> Some (send_alive sd @ out, stopped)))"

section \<open>What leaves the socket\<close>

text \<open>
  The loop does what its steps say, in order, and each spawned task sleeps its delay and then sends
  its messages one by one.  Every sending is an await, so tasks can come between any two messages of
  the loop, and a task that still sleeps when the loop is through sends after it, or never, if the
  program ends first.  What is counted as sent is what is handed to the socket, whose failures the
  code ignores.  Time is in milliseconds.
\<close>

datatype transmission = Own socket_addr_v4 string | Answer socket_addr_v4 string

record wire =
  wi_now :: nat
  wi_left :: "ssdp_output list"
  wi_waiting :: "(nat \<times> socket_addr_v4 \<times> string list) list"
  wi_sent :: "transmission list"

datatype wire_action = Proceed | Pass nat | Answering nat

definition wire_step :: "wire_action \<Rightarrow> wire \<Rightarrow> wire option" where
  "wire_step act w =
    (case act of
       Proceed \<Rightarrow>
         (case wi_left w of
            [] \<Rightarrow> None
          | Send a m # outs \<Rightarrow> Some (w\<lparr>wi_left := outs, wi_sent := wi_sent w @ [Own a m]\<rparr>)
          | SpawnReply delay peer ms # outs \<Rightarrow>
              Some (w\<lparr>wi_left := outs,
                wi_waiting := wi_waiting w @ [(wi_now w + unat delay, peer, ms)]\<rparr>))
     | Pass k \<Rightarrow> Some (w\<lparr>wi_now := wi_now w + k\<rparr>)
     | Answering n \<Rightarrow>
         (if n < length (wi_waiting w) then
            (case wi_waiting w ! n of
               (due, peer, m # ms) \<Rightarrow>
                 if due \<le> wi_now w then
                   Some (w\<lparr>wi_waiting := (wi_waiting w)[n := (due, peer, ms)],
                     wi_sent := wi_sent w @ [Answer peer m]\<rparr>)
                 else None
             | (_, _, []) \<Rightarrow> None)
          else None))"

fun transmit :: "wire_action list \<Rightarrow> wire \<Rightarrow> wire option" where
  "transmit [] w = Some w"
| "transmit (act # acts) w = Option.bind (wire_step act w) (transmit acts)"

definition on_wire :: "ssdp_output list \<Rightarrow> wire" where
  "on_wire outs = \<lparr>wi_now = 0, wi_left = outs, wi_waiting = [], wi_sent = []\<rparr>"

end
