(* ===== verification/Ssdp_Properties.thy ===== *)
theory Ssdp_Properties
  imports Ssdp Events_Facts Events_Text
begin

text \<open>
  Properties of discovery: which searches are understood and how they are answered, and what the
  server announces over its life.
\<close>

section \<open>Reading a search\<close>

text \<open>
  A request as it is written, and the value of a header in it: names are compared without case
  and surrounding blanks, and a later header replaces an earlier one.
\<close>

definition header_line :: "string \<times> string \<Rightarrow> string" where
  "header_line h = fst h @ '':'' @ snd h"

definition request_text :: "string \<Rightarrow> (string \<times> string) list \<Rightarrow> string" where
  "request_text first hs =
    first @ crlf @ concat (map (\<lambda>h. header_line h @ crlf) hs) @ crlf"

definition header_value :: "(string \<times> string) list \<Rightarrow> string \<Rightarrow> string option" where
  "header_value hs n = map_of (rev (map (\<lambda>(name, v). (to_ascii_lowercase (trim name), v)) hs)) n"

definition plain_headers :: "(string \<times> string) list \<Rightarrow> bool" where
  "plain_headers hs = list_all (\<lambda>(name, v). CR \<notin> set name \<and> CR \<notin> set v \<and> CHR '':'' \<notin> set name) hs"

text \<open>What the search asks for, told without the loop.\<close>

definition search_of :: "(string \<times> string) list \<Rightarrow> search option" where
  "search_of hs =
    (case (header_value hs ''man'', header_value hs ''st'') of
       (Some man, Some st) \<Rightarrow>
         if eq_ignore_ascii_case (trim_matches (\<lambda>c. c = CHR 0x22) (trim man)) ''ssdp:discover''
         then Some
           \<lparr>se_target = trim st,
            se_mx_seconds =
              (case Option.bind (header_value hs ''mx'') (\<lambda>v. parse_word (trim v)) of
                 Some mx \<Rightarrow> clamp 1 5 mx
               | None \<Rightarrow> 1)\<rparr>
         else None
     | _ \<Rightarrow> None)"

lemma header_value_Nil [simp]: "header_value [] n = None"
  by (simp add: header_value_def)

lemma header_value_snoc [simp]:
  "header_value (hs @ [(name, v)]) n =
    (if n = to_ascii_lowercase (trim name) then Some v else header_value hs n)"
  by (simp add: header_value_def)

lemma search_lines_append: "search_lines (xs @ ys) s = search_lines ys (search_lines xs s)"
  by (induction xs s rule: search_lines.induct) simp_all

lemma search_line_header:
  "CHR '':'' \<notin> set name \<Longrightarrow> search_line (header_line (name, v)) s =
    (let n = to_ascii_lowercase (trim name) in
        if n = ''man'' then
          s\<lparr>ss_discover := eq_ignore_ascii_case
              (trim_matches (\<lambda>c. c = CHR 0x22) (trim v)) ''ssdp:discover''\<rparr>
        else if n = ''st'' then s\<lparr>ss_target := Some (trim v)\<rparr>
        else if n = ''mx'' then
          s\<lparr>ss_mx_seconds := clamp 1 5
              (case parse_word (trim v) of Some mx \<Rightarrow> mx | None \<Rightarrow> 1)\<rparr>
        else s)"
  using split_once_append [of "CHR '':''" name v] by (simp add: search_line_def header_line_def)

lemma clamp_one: "clamp 1 5 (1::u64) = 1"
  by (simp add: clamp_def)

lemma search_lines_headers:
  assumes "plain_headers hs"
  shows "search_lines (map header_line hs)
      \<lparr>ss_target = None, ss_mx_seconds = 1, ss_discover = False\<rparr> =
    \<lparr>ss_target = map_option trim (header_value hs ''st''),
     ss_mx_seconds = (case Option.bind (header_value hs ''mx'') (\<lambda>v. parse_word (trim v)) of
        Some mx \<Rightarrow> clamp 1 5 mx | None \<Rightarrow> 1),
     ss_discover = (case header_value hs ''man'' of
        Some man \<Rightarrow> eq_ignore_ascii_case
          (trim_matches (\<lambda>c. c = CHR 0x22) (trim man)) ''ssdp:discover''
      | None \<Rightarrow> False)\<rparr>"
  using assms
proof (induction hs rule: rev_induct)
  case Nil
  then show ?case by simp
next
  case (snoc h hs)
  obtain name v where h: "h = (name, v)" by fastforce
  from snoc.prems have prems: "plain_headers hs" "CHR '':'' \<notin> set name"
    by (simp_all add: plain_headers_def h)
  note line = search_line_header [OF prems(2)]
  consider "to_ascii_lowercase (trim name) = ''man''" | "to_ascii_lowercase (trim name) = ''st''"
    | "to_ascii_lowercase (trim name) = ''mx''"
    | "to_ascii_lowercase (trim name) \<notin> {''man'', ''st'', ''mx''}" by blast
  then show ?case
    by cases (use snoc.IH [OF prems(1)] in
      \<open>auto simp: h search_lines_append line Let_def clamp_one split: option.splits\<close>)
qed

lemma split_crlf_lines:
  "list_all (\<lambda>l. CR \<notin> set l) ls \<Longrightarrow>
    split_crlf (concat (map (\<lambda>l. l @ crlf) ls) @ t) = ls @ split_crlf t"
  by (induction ls) (simp_all add: split_crlf_line)

lemma split_request_text:
  assumes "plain_headers hs" and "CR \<notin> set first"
  shows "split_crlf (request_text first hs) = first # map header_line hs @ [[], []]"
proof -
  have "list_all (\<lambda>l. CR \<notin> set l) (map header_line hs)"
    using assms(1) by (induction hs) (auto simp: plain_headers_def header_line_def CR_def)
  from split_crlf_lines [OF this, of crlf]
  have "split_crlf (concat (map (\<lambda>h. header_line h @ crlf) hs) @ crlf) = map header_line hs @ [[], []]"
    by (simp add: comp_def) (simp add: crlf_def)
  then show ?thesis using assms(2) by (simp add: request_text_def split_crlf_line)
qed

lemma parse_search_text:
  assumes "plain_headers hs" and "CR \<notin> set first" and "utf8_valid (request_text first hs)"
  shows "parse_search (request_text first hs) =
    (if eq_ignore_ascii_case first ''M-SEARCH * HTTP/1.1'' then search_of hs else None)"
proof -
  have blank: "search_line [] s = s" for s by (simp add: search_line_def)
  have "from_utf8 (request_text first hs) = Some (request_text first hs)"
    using assms(3) by (simp add: from_utf8_def)
  then show ?thesis
    by (auto simp: parse_search_def split_request_text assms search_lines_append blank
        search_lines_headers search_of_def Let_def split: option.splits)
qed

section \<open>Answering\<close>

lemma search_line_mx:
  "1 \<le> ss_mx_seconds s \<and> ss_mx_seconds s \<le> 5 \<Longrightarrow>
    1 \<le> ss_mx_seconds (search_line l s) \<and> ss_mx_seconds (search_line l s) \<le> 5"
  using clamp_bounds [of "1 :: u64" 5]
  by (simp add: search_line_def Let_def split: option.splits)

lemma search_lines_mx:
  "1 \<le> ss_mx_seconds s \<and> ss_mx_seconds s \<le> 5 \<Longrightarrow>
    1 \<le> ss_mx_seconds (search_lines ls s) \<and> ss_mx_seconds (search_lines ls s) \<le> 5"
proof (induction ls s rule: search_lines.induct)
  case (2 l ls s)
  then show ?case using search_line_mx by simp
qed simp

lemma parse_search_mx:
  assumes "parse_search m = Some s"
  shows "1 \<le> se_mx_seconds s \<and> se_mx_seconds s \<le> 5"
proof -
  let ?s = "\<lambda>ls. search_lines ls \<lparr>ss_target = None, ss_mx_seconds = 1, ss_discover = False\<rparr>"
  obtain u where u: "from_utf8 m = Some u"
    using assms by (auto simp: parse_search_def bind_eq_Some_conv)
  obtain first ls where "split_crlf u = first # ls"
    using split_crlf_nonempty by (cases "split_crlf u") auto
  with u have "(if \<not> eq_ignore_ascii_case first ''M-SEARCH * HTTP/1.1'' then None
      else (let s = ?s ls in
          if \<not> ss_discover s then None
          else map_option (\<lambda>t. \<lparr>se_target = t, se_mx_seconds = ss_mx_seconds s\<rparr>) (ss_target s)))
      = Some s"
    using assms unfolding parse_search_def by simp
  then have "se_mx_seconds s = ss_mx_seconds (?s ls)" by (auto simp: Let_def split: if_splits)
  then show ?thesis using search_lines_mx by simp
qed

lemma search_delay_bound:
  assumes "1 \<le> mx" and "mx \<le> 5"
  obtains d where "search_delay mx nanos port = Some d" and "unat d < 1000 * unat mx"
proof -
  have mx: "1 \<le> unat mx" "unat mx \<le> 5" using assms by (simp_all add: word_le_nat_alt)
  then have range: "saturating_mul mx 1000 = mx * 1000" "unat (mx * 1000) = unat mx * 1000"
    by (simp_all add: saturating_mul_def unat_word_ariths)
  then have "mx * 1000 \<noteq> 0" using mx by (metis mult_is_0 not_one_le_zero unat_0 zero_neq_numeral)
  moreover have "unat (x mod (mx * 1000)) < 1000 * unat mx" for x
    using mx range by (simp add: unat_mod_distrib mult.commute)
  ultimately show ?thesis using that range by (simp add: search_delay_def Let_def)
qed

lemma answer_search_cases:
  obtains (silent) "answer_search sd datagram peer nanos = []"
    "\<And>s. parse_search (take 2048 datagram) = Some s \<Longrightarrow>
      matching_advertisements (sd_advertisements sd) (se_target s) = []"
  | (reply) s d where "parse_search (take 2048 datagram) = Some s"
    "matching_advertisements (sd_advertisements sd) (se_target s) \<noteq> []"
    "unat d < 1000 * unat (se_mx_seconds s)"
    "answer_search sd datagram peer nanos = [SpawnReply d peer
      (map (\<lambda>ad. search_response ad (sd_location sd) (sd_max_age sd))
        (matching_advertisements (sd_advertisements sd) (se_target s)))]"
proof (cases "parse_search (take 2048 datagram)")
  case None
  then show ?thesis using silent by (simp add: answer_search_def)
next
  case (Some s)
  with parse_search_mx obtain d where
    "search_delay (se_mx_seconds s) nanos (addr_port peer) = Some d"
    "unat d < 1000 * unat (se_mx_seconds s)" using search_delay_bound by metis
  then show ?thesis using Some silent reply
    by (cases "matching_advertisements (sd_advertisements sd) (se_target s) = []")
      (auto simp: answer_search_def Let_def)
qed

lemma answer_search_one:
  "answer_search sd datagram peer nanos = []
    \<or> (\<exists>delay ads. answer_search sd datagram peer nanos =
          [SpawnReply delay peer (map (\<lambda>ad. search_response ad (sd_location sd) (sd_max_age sd)) ads)]
        \<and> set ads \<subseteq> set (sd_advertisements sd) \<and> unat delay < 5000)"
proof (cases rule: answer_search_cases [of sd datagram peer nanos])
  case (reply s d)
  have "unat (se_mx_seconds s) \<le> 5"
    using parse_search_mx [OF reply(1)] by (simp add: word_le_nat_alt)
  with reply show ?thesis
    by (intro disjI2 exI [of _ d] exI [of _ "matching_advertisements (sd_advertisements sd) (se_target s)"])
      (auto simp: matching_advertisements_def)
qed simp

text \<open>What each event makes the loop do, and when it ends.\<close>

definition stops :: "ssdp_event \<Rightarrow> bool" where
  "stops ev = (ev = ShutdownChanged None \<or> ev = ShutdownChanged (Some True))"

definition reaction :: "ssdp_server \<Rightarrow> ssdp_event \<Rightarrow> ssdp_output list" where
  "reaction sd ev =
    (case ev of
       RefreshTick \<Rightarrow>
         concat (map (\<lambda>ad. let m = Send ssdp_destination (alive_message (sd_location sd) (sd_max_age sd) ad)
           in [m, m]) (sd_advertisements sd))
     | Datagram datagram peer nanos \<Rightarrow> answer_search sd datagram peer nanos
     | _ \<Rightarrow> [])"

lemma send_alive_twice: "send_alive sd = reaction sd RefreshTick"
  by (simp add: send_alive_def reaction_def Let_def numeral_2_eq_2)

lemma ssdp_loop_exact:
  "ssdp_loop sd evs =
    (concat (map (reaction sd) (takeWhile (\<lambda>ev. \<not> stops ev) evs))
        @ (if \<exists>ev \<in> set evs. stops ev then send_byebye sd else []),
     \<exists>ev \<in> set evs. stops ev)"
proof (induction evs)
  case (Cons ev evs)
  have "ssdp_step sd ev = (if stops ev then (send_byebye sd, True) else (reaction sd ev, False))"
    by (cases ev) (auto simp: ssdp_step_def stops_def send_alive_twice reaction_def)
  with Cons.IH show ?case by simp
qed simp

text \<open>
  The messages of the loop leave the socket in its order, and of the answers the spawned tasks owe
  each leaves it at most once.
\<close>

definition own_sent :: "wire \<Rightarrow> (socket_addr_v4 \<times> string) list" where
  "own_sent w = concat (map (\<lambda>x. case x of Own a m \<Rightarrow> [(a, m)] | Answer a m \<Rightarrow> []) (wi_sent w))"

definition answers_sent :: "wire \<Rightarrow> (socket_addr_v4 \<times> string) list" where
  "answers_sent w = concat (map (\<lambda>x. case x of Own a m \<Rightarrow> [] | Answer a m \<Rightarrow> [(a, m)]) (wi_sent w))"

definition sends :: "ssdp_output list \<Rightarrow> (socket_addr_v4 \<times> string) list" where
  "sends outs = concat (map (\<lambda>x. case x of Send a m \<Rightarrow> [(a, m)] | SpawnReply _ _ _ \<Rightarrow> []) outs)"

definition replies :: "ssdp_output list \<Rightarrow> (socket_addr_v4 \<times> string) list" where
  "replies outs =
    concat (map (\<lambda>x. case x of Send a m \<Rightarrow> [] | SpawnReply _ peer ms \<Rightarrow> map (Pair peer) ms) outs)"

definition owed :: "wire \<Rightarrow> (socket_addr_v4 \<times> string) list" where
  "owed w = concat (map (\<lambda>(_, peer, ms). map (Pair peer) ms) (wi_waiting w))"

definition wire_inv :: "ssdp_output list \<Rightarrow> wire \<Rightarrow> bool" where
  "wire_inv outs w =
    (\<exists>through. outs = through @ wi_left w \<and> own_sent w = sends through
      \<and> mset (answers_sent w) + mset (owed w) = mset (replies through))"

lemma mset_concat_update:
  "n < length xs \<Longrightarrow> mset (concat (map f (xs[n := x]))) + mset (f (xs ! n)) = mset (concat (map f xs)) + mset (f x)"
proof (induction xs arbitrary: n)
  case (Cons y xs)
  then show ?case by (cases n) (auto simp: ac_simps)
qed simp

lemma wire_step_inv:
  assumes inv: "wire_inv outs w" and step: "wire_step act w = Some w'"
  shows "wire_inv outs w'"
proof -
  from inv obtain through where w: "outs = through @ wi_left w" "own_sent w = sends through"
    "mset (answers_sent w) + mset (owed w) = mset (replies through)" by (auto simp: wire_inv_def)
  show ?thesis
  proof (cases act)
    case Proceed
    then obtain x rest where left: "wi_left w = x # rest" using step
      by (cases "wi_left w") (auto simp: wire_step_def)
    with Proceed step w show ?thesis unfolding wire_inv_def
      by (intro exI [of _ "through @ [x]"], cases x)
        (auto simp: wire_step_def own_sent_def answers_sent_def sends_def replies_def owed_def ac_simps)
  next
    case (Pass k)
    with step w show ?thesis unfolding wire_inv_def
      by (auto simp: wire_step_def own_sent_def answers_sent_def owed_def)
  next
    case (Answering n)
    with step obtain due peer m ms where n: "n < length (wi_waiting w)" "wi_waiting w ! n = (due, peer, m # ms)"
      and w': "w' = w\<lparr>wi_waiting := (wi_waiting w)[n := (due, peer, ms)],
        wi_sent := wi_sent w @ [Answer peer m]\<rparr>"
      by (auto simp: wire_step_def split: if_splits prod.splits list.splits)
    have "mset (owed w') + {#(peer, m)#} = mset (owed w)"
      using mset_concat_update [OF n(1), of "\<lambda>(_, peer, ms). map (Pair peer) ms" "(due, peer, ms)"] n(2)
      by (simp add: owed_def w')
    then have "mset (answers_sent w') + mset (owed w') = mset (answers_sent w) + mset (owed w)"
      by (simp add: answers_sent_def w')
    moreover have "own_sent w' = own_sent w" "wi_left w' = wi_left w" by (simp_all add: own_sent_def w')
    ultimately show ?thesis using w unfolding wire_inv_def by auto
  qed
qed

lemma transmit_inv: "wire_inv outs w \<Longrightarrow> transmit acts w = Some w' \<Longrightarrow> wire_inv outs w'"
proof (induction acts arbitrary: w)
  case (Cons act acts)
  then show ?case using wire_step_inv [OF Cons.prems(1)] by (cases "wire_step act w") auto
qed simp

lemma transmitted:
  assumes "transmit acts (on_wire outs) = Some w"
  shows "\<exists>rest. own_sent w @ rest = sends outs \<and> (wi_left w = [] \<longrightarrow> rest = [])"
    and "mset (answers_sent w) \<subseteq># mset (replies outs)"
proof -
  have "wire_inv outs (on_wire outs)"
    by (simp add: wire_inv_def on_wire_def own_sent_def answers_sent_def sends_def replies_def owed_def)
  from transmit_inv [OF this assms] obtain through where
    w: "outs = through @ wi_left w" "own_sent w = sends through"
      "mset (answers_sent w) + mset (owed w) = mset (replies through)" by (auto simp: wire_inv_def)
  have split: "sends outs = sends through @ sends (wi_left w)" "replies outs = replies through @ replies (wi_left w)"
    by (subst w(1), simp add: sends_def replies_def)+
  then show "\<exists>rest. own_sent w @ rest = sends outs \<and> (wi_left w = [] \<longrightarrow> rest = [])"
    using w(2) by (intro exI [of _ "sends (wi_left w)"]) (auto simp: sends_def)
  show "mset (answers_sent w) \<subseteq># mset (replies outs)"
    unfolding split(2) mset_append w(3) [symmetric] by simp
qed

section \<open>An example\<close>

text \<open>A search for media servers, with its header names in mixed case.\<close>

definition example_search :: "(string \<times> string) list" where
  "example_search =
    [(''Man'', CHR 0x22 # ''ssdp:discover'' @ [CHR 0x22]), (''ST'', MEDIA_SERVER_TYPE), (''mX'', ''3'')]"

lemma trim_example [simp]:
  "trim ''Man'' = ''Man''" "trim ''ST'' = ''ST''" "trim ''mX'' = ''mX''" "trim ''3'' = ''3''"
  "trim MEDIA_SERVER_TYPE = MEDIA_SERVER_TYPE"
  "trim (CHR 0x22 # ''ssdp:discover'' @ [CHR 0x22]) = CHR 0x22 # ''ssdp:discover'' @ [CHR 0x22]"
  by (rule trim_graphic; simp add: MEDIA_SERVER_TYPE_def)+

lemma example_search_result:
  "eq_ignore_ascii_case ''m-search * HTTP/1.1'' ''M-SEARCH * HTTP/1.1''"
  "search_of example_search = Some \<lparr>se_target = MEDIA_SERVER_TYPE, se_mx_seconds = 3\<rparr>"
proof -
  show "eq_ignore_ascii_case ''m-search * HTTP/1.1'' ''M-SEARCH * HTTP/1.1''" by code_simp
  have low: "to_ascii_lowercase ''Man'' = ''man''" "to_ascii_lowercase ''ST'' = ''st''"
    "to_ascii_lowercase ''mX'' = ''mx''" by code_simp+
  have "digit_char 3 = CHR ''3''" by code_simp
  then have "show_word (3 :: u64) = ''3''" by (simp add: show_word_def show_nat.simps)
  then have "parse_word ''3'' = Some (3 :: u64)" using parse_word_show [of "3 :: u64"] by simp
  then show "search_of example_search = Some \<lparr>se_target = MEDIA_SERVER_TYPE, se_mx_seconds = 3\<rparr>"
    using low trim_example
    by (simp add: search_of_def example_search_def header_value_def trim_matches_def clamp_def)
qed

lemma example_search_matches:
  "matching_advertisements
      (sd_advertisements (new_ssdp_server (10, 0, 0, 2) 8201 ''uuid:1'' 1800)) MEDIA_SERVER_TYPE =
    [\<lparr>ad_target = MEDIA_SERVER_TYPE, ad_usn = ''uuid:1::'' @ MEDIA_SERVER_TYPE\<rparr>]"
proof -
  have "sd_advertisements (new_ssdp_server (10, 0, 0, 2) 8201 ''uuid:1'' 1800) = advertisements ''uuid:1''"
    by (simp add: new_ssdp_server_def)
  moreover have "matching_advertisements (advertisements ''uuid:1'') MEDIA_SERVER_TYPE =
      [\<lparr>ad_target = MEDIA_SERVER_TYPE, ad_usn = ''uuid:1::'' @ MEDIA_SERVER_TYPE\<rparr>]" by code_simp
  ultimately show ?thesis by simp
qed

section \<open>Properties\<close>



text \<open>The periods between which announcements are renewed.\<close>

lemma refresh_period_bounds:
  assumes "60 \<le> max_age"
  shows "30 * from_secs 1 \<le> refresh_period max_age" "2 * refresh_period max_age \<le> from_secs (ucast max_age)"
proof -
  have wide: "unat (ucast (x :: u32) :: u64) = unat x" for x
    using unsigned_less [of x, where ?'a = nat]
    by (simp add: unsigned_ucast_eq take_bit_nat_eq_self_iff)
  have half: "unat (max_age div 2) = unat max_age div 2" by (simp add: unat_div_distrib)
  have period: "refresh_period max_age = (unat max_age div 2) * 1000000000"
    by (simp add: refresh_period_def from_secs_def wide half)
  have "60 \<le> unat max_age" using assms(1) by (simp add: word_le_nat_alt)
  then show "30 * from_secs 1 \<le> refresh_period max_age" by (simp add: period from_secs_def)
  show "2 * refresh_period max_age \<le> from_secs (ucast max_age)"
    by (simp add: period from_secs_def wide)
qed

definition byebyes :: "string \<Rightarrow> ssdp_output list" where
  "byebyes udn = map (Send ssdp_destination \<circ> byebye_message) (advertisements udn)"

definition life :: "ssdp_server \<Rightarrow> ssdp_event list \<Rightarrow> ssdp_output list" where
  "life sd evs = reaction sd RefreshTick @ concat (map (reaction sd) (takeWhile (\<lambda>ev. \<not> stops ev) evs))"

lemma run_ssdp_runs:
  assumes "60 \<le> max_age"
  shows "run_ssdp interface port udn max_age evs =
    Some (life (new_ssdp_server interface port udn max_age) evs
        @ (if \<exists>ev \<in> set evs. stops ev then byebyes udn else []),
      \<exists>ev \<in> set evs. stops ev)"
proof -
  have "send_byebye (new_ssdp_server interface port udn max_age) = byebyes udn"
    by (simp add: send_byebye_def byebyes_def new_ssdp_server_def comp_def)
  moreover have "refresh_period max_age \<noteq> 0"
    using refresh_period_bounds(1) [OF assms] by (simp add: from_secs_def)
  ultimately show ?thesis by (simp add: run_ssdp_def ssdp_loop_exact send_alive_twice life_def Let_def)
qed

text \<open>C32. The life of the discovery service, message by message: with a lifetime the configuration
  accepts it does not panic; it announces everything twice at its start and again at every tick of
  its timer, whose period is at least thirty seconds and at most half the lifetime; for a datagram it
  spawns at most one answer, to its sender, of what it advertises, after less than five seconds; and
  it returns if and only if it is told to shut down or nobody is left to tell it, after revoking every announcement.  However the
  spawned tasks come in between, these messages leave the socket in this order, and no answer twice;
  only answers that still wait can follow the revocations.\<close>

theorem ssdp_lifecycle:
  fixes interface :: ipv4 and port :: u16 and udn :: string and max_age :: u32 and evs :: "ssdp_event list"
  assumes "60 \<le> max_age"
  defines "sd \<equiv> new_ssdp_server interface port udn max_age"
  defines "alive \<equiv> concat (map (\<lambda>ad.
      let m = Send ssdp_destination (alive_message (sd_location sd) max_age ad) in [m, m]) (advertisements udn))"
    and "ended \<equiv> \<exists>ev \<in> set evs. stops ev"
  defines "out \<equiv> alive
      @ concat (map (\<lambda>ev. case ev of
            RefreshTick \<Rightarrow> alive
          | Datagram datagram peer nanos \<Rightarrow> answer_search sd datagram peer nanos
          | _ \<Rightarrow> []) (takeWhile (\<lambda>ev. \<not> stops ev) evs))
      @ (if ended then map (Send ssdp_destination \<circ> byebye_message) (advertisements udn) else [])"
  shows "run_ssdp interface port udn max_age evs = Some (out, ended)
    \<and> 30 * from_secs 1 \<le> refresh_period max_age
    \<and> 2 * refresh_period max_age \<le> from_secs (ucast max_age)
    \<and> (\<forall>datagram peer nanos. answer_search sd datagram peer nanos = []
        \<or> (\<exists>delay ads. answer_search sd datagram peer nanos =
              [SpawnReply delay peer (map (\<lambda>ad. search_response ad (sd_location sd) max_age) ads)]
            \<and> set ads \<subseteq> set (advertisements udn) \<and> unat delay < 5000))
    \<and> (\<forall>acts w. transmit acts (on_wire out) = Some w \<longrightarrow>
        (\<exists>rest. own_sent w @ rest = sends out \<and> (wi_left w = [] \<longrightarrow> rest = []))
        \<and> mset (answers_sent w) \<subseteq># mset (replies out))"
proof (intro conjI allI impI)
  have sd: "sd_advertisements sd = advertisements udn" "sd_max_age sd = max_age"
    by (simp_all add: sd_def new_ssdp_server_def)
  have "reaction sd = (\<lambda>ev. case ev of RefreshTick \<Rightarrow> alive
      | Datagram datagram peer nanos \<Rightarrow> answer_search sd datagram peer nanos | _ \<Rightarrow> [])"
    by (auto simp: fun_eq_iff reaction_def alive_def sd split: ssdp_event.split)
  moreover from this have "reaction sd RefreshTick = alive" by simp
  ultimately show "run_ssdp interface port udn max_age evs = Some (out, ended)"
    unfolding run_ssdp_runs [OF assms(1)] sd_def [symmetric]
    by (simp add: life_def out_def ended_def byebyes_def)
  show "30 * from_secs 1 \<le> refresh_period max_age" "2 * refresh_period max_age \<le> from_secs (ucast max_age)"
    by (rule refresh_period_bounds [OF assms(1)])+
  fix datagram peer nanos
  show "answer_search sd datagram peer nanos = []
        \<or> (\<exists>delay ads. answer_search sd datagram peer nanos =
              [SpawnReply delay peer (map (\<lambda>ad. search_response ad (sd_location sd) max_age) ads)]
            \<and> set ads \<subseteq> set (advertisements udn) \<and> unat delay < 5000)"
    using answer_search_one [of sd datagram peer nanos] unfolding sd .
next
  fix acts w assume "transmit acts (on_wire out) = Some w"
  from transmitted [OF this]
  show "\<exists>rest. own_sent w @ rest = sends out \<and> (wi_left w = [] \<longrightarrow> rest = [])"
    and "mset (answers_sent w) \<subseteq># mset (replies out)" .
qed

theorem ssdp_lifecycle_witness:
  "\<exists>out. run_ssdp (10, 0, 0, 2) 8201 ''uuid:1'' 1800 [RefreshTick, ShutdownChanged (Some True)] =
      Some (out @ map (Send ssdp_destination \<circ> byebye_message) (advertisements ''uuid:1''), True)
    \<and> length out = 20"
proof -
  have "(60 :: u32) \<le> 1800" by simp
  note life = ssdp_lifecycle [OF this, where interface = "(10, 0, 0, 2)" and port = 8201 and udn = "''uuid:1''"
      and evs = "[RefreshTick, ShutdownChanged (Some True)]", THEN conjunct1]
  let ?sd = "new_ssdp_server (10, 0, 0, 2) 8201 ''uuid:1'' 1800"
  let ?alive = "concat (map (\<lambda>ad. let m = Send ssdp_destination (alive_message (sd_location ?sd) 1800 ad)
    in [m, m]) (advertisements ''uuid:1''))"
  have "length ?alive = 10" by (simp add: advertisements_def Let_def)
  with life show ?thesis by (intro exI [of _ "?alive @ ?alive"]) (simp add: stops_def)
qed

end
