(* ===== verification/Media_Response.thy ===== *)
theory Media_Response
  imports Soap Events
begin

text \<open>
  Responses and the streaming of files, from \<open>crates/joedlna-core/src/http.rs\<close>: \<open>response\<close> and its
  variants, \<open>parse_range\<close> and the handler \<open>media\<close>.

  A response is its status, its headers in the order they are added and its body.  The files come
  as parameters: what \<open>tokio::fs::metadata\<close> says, the content an opened file has, and whether it can
  be positioned.  The stream is the bytes it carries; a read that fails half-way is not modelled.
\<close>

section \<open>Responses\<close>

record http_response =
  rs_status :: nat
  rs_headers :: "(string \<times> string) list"
  rs_body :: string

definition XML_CONTENT_TYPE :: string where
  \<open>XML_CONTENT_TYPE = ''text/xml; charset="utf-8"''\<close>

text \<open>\<open>StatusCode::into_response\<close> and \<open>HeaderMap::insert\<close>.\<close>

definition status_response :: "nat \<Rightarrow> http_response" where
  "status_response status = \<lparr>rs_status = status, rs_headers = [], rs_body = []\<rparr>"

definition insert_header :: "string \<Rightarrow> string \<Rightarrow> http_response \<Rightarrow> http_response" where
  "insert_header name v r =
    r\<lparr>rs_headers := filter (\<lambda>(n, _). n \<noteq> name) (rs_headers r) @ [(name, v)]\<rparr>"

definition response :: "nat \<Rightarrow> string \<Rightarrow> string \<Rightarrow> http_response" where
  "response status content_type body =
    \<lparr>rs_status = status,
     rs_headers =
       [(''content-type'', content_type), (''content-length'', show_nat (length body)),
        (''server'', SERVER)],
     rs_body = body\<rparr>"

definition xml_response :: "nat \<Rightarrow> string \<Rightarrow> http_response" where
  "xml_response status body = response status XML_CONTENT_TYPE body"

definition soap_success :: "string \<Rightarrow> http_response" where
  "soap_success body = insert_header ''ext'' [] (xml_response 200 body)"

definition soap_error :: "upnp_error_info \<Rightarrow> http_response" where
  "soap_error e = insert_header ''ext'' [] (xml_response 500 (soap_fault e))"

definition soap_result :: "upnp_error_info + string \<Rightarrow> http_response" where
  "soap_result r = (case r of Inr body \<Rightarrow> soap_success body | Inl e \<Rightarrow> soap_error e)"

section \<open>Ranges\<close>

record byte_range =
  rg_start :: u64
  rg_end :: u64
  rg_partial :: bool

definition parse_range :: "string option \<Rightarrow> u64 \<Rightarrow> unit + byte_range" where
  "parse_range v file_size =
    (case v of
       None \<Rightarrow> Inr \<lparr>rg_start = 0, rg_end = saturating_sub file_size 1, rg_partial = False\<rparr>
     | Some text_value \<Rightarrow>
       if file_size = 0 then Inl ()
       else
         bind_result (ok_or (strip_prefix ''bytes='' text_value) ()) (\<lambda>rng.
         if CHR '','' \<in> set rng then Inl ()
         else
           bind_result (ok_or (split_once CHR ''-'' rng) ()) (\<lambda>(first, last).
           bind_result
             (if first = [] then
                bind_result (ok_or (parse_word last) ()) (\<lambda>suffix.
                  if suffix = 0 then Inl ()
                  else Inr (saturating_sub file_size suffix, file_size - 1))
              else
                bind_result (ok_or (parse_word first) ()) (\<lambda>start.
                bind_result
                  (if last = [] then Inr (file_size - 1) else ok_or (parse_word last) ())
                  (\<lambda>stop. Inr (start, min stop (file_size - 1)))))
             (\<lambda>(start, stop).
               if file_size \<le> start \<or> stop < start then Inl ()
               else Inr \<lparr>rg_start = start, rg_end = stop, rg_partial = True\<rparr>))))"

section \<open>Media\<close>

record media_files =
  mf_metadata :: "path \<Rightarrow> io_error + metadata"
  mf_open :: "path \<Rightarrow> string option"
  mf_seek :: "path \<Rightarrow> u64 \<Rightarrow> bool"

definition range_length :: "u64 \<Rightarrow> byte_range \<Rightarrow> u64" where
  "range_length file_size rng =
    (if file_size = 0 then 0
     else saturating_add (saturating_sub (rg_end rng) (rg_start rng)) 1)"

definition content_features :: "media_kind_info \<Rightarrow> string" where
  "content_features k =
    (case Option.bind (split_once CHR '':'' (protocol_info (mk_mime_type k) (mk_dlna_profile k)))
       (\<lambda>(_, v). Option.bind (split_once CHR '':'' v) (\<lambda>(_, v). split_once CHR '':'' v)) of
       None \<Rightarrow> ''*''
     | Some (_, features) \<Rightarrow> features)"

definition unsatisfiable :: "u64 \<Rightarrow> http_response" where
  "unsatisfiable file_size =
    \<lparr>rs_status = 416,
     rs_headers =
       [(''content-range'', ''bytes */'' @ show_word file_size), (''content-length'', ''0'')],
     rs_body = []\<rparr>"

text \<open>What the body is, or the status of the early return.\<close>

definition media_body ::
  "media_files \<Rightarrow> path \<Rightarrow> string \<Rightarrow> byte_range \<Rightarrow> u64 \<Rightarrow> nat + string" where
  "media_body mf p method rng len =
    (if method = ''HEAD'' \<or> len = 0 then Inr []
     else
       (case mf_open mf p of
          None \<Rightarrow> Inl 404
        | Some content \<Rightarrow>
          if 0 < rg_start rng \<and> \<not> mf_seek mf p (rg_start rng) then Inl 500
          else Inr (take (unat len) (drop (unat (rg_start rng)) content))))"

definition media ::
  "media_files \<Rightarrow> catalog \<Rightarrow> string \<Rightarrow> string \<Rightarrow> header_map \<Rightarrow> http_response" where
  "media mf c obj method headers =
    (case catalog_entry c obj of
       None \<Rightarrow> status_response 404
     | Some e \<Rightarrow>
       (case e_kind e of
          Container \<Rightarrow> status_response 404
        | Media k \<Rightarrow>
          (case mf_metadata mf (e_path e) of
             Inl _ \<Rightarrow> status_response 404
           | Inr m \<Rightarrow>
             if \<not> is_file m then status_response 404
             else
               (case parse_range (headers ''range'') (md_len m) of
                  Inl _ \<Rightarrow> unsatisfiable (md_len m)
                | Inr rng \<Rightarrow>
                  (let len = range_length (md_len m) rng in
                   case media_body mf (e_path e) method rng len of
                     Inl status \<Rightarrow> status_response status
                   | Inr body \<Rightarrow>
                     \<lparr>rs_status = (if rg_partial rng then 206 else 200),
                      rs_headers =
                        [(''content-type'', mk_mime_type k), (''content-length'', show_word len),
                         (''accept-ranges'', ''bytes''), (''server'', SERVER), (''ext'', []),
                         (''transfermode.dlna.org'', ''Streaming'')]
                        @ (if rg_partial rng then
                             [(''content-range'',
                               ''bytes '' @ show_word (rg_start rng) @ ''-''
                               @ show_word (rg_end rng) @ ''/'' @ show_word (md_len m))]
                           else [])
                        @ (if headers ''getcontentfeatures.dlna.org'' = Some ''1''
                           then [(''contentfeatures.dlna.org'', content_features k)] else []),
                      rs_body = body\<rparr>)))))"

section \<open>What a range asks for\<close>

text \<open>The three forms of a range, as written and as meant, over plain numbers.\<close>

datatype range_request = FromTo u64 u64 | FromOn u64 | Suffix u64

fun show_range :: "range_request \<Rightarrow> string" where
  "show_range (FromTo a b) = ''bytes='' @ show_word a @ ''-'' @ show_word b"
| "show_range (FromOn a) = ''bytes='' @ show_word a @ ''-''"
| "show_range (Suffix n) = ''bytes=-'' @ show_word n"

text \<open>
  What RFC 9110 (14.1.2) gives them on a file of \<open>n\<close> bytes: the part they select, as its offset
  and length, or nothing where they are not valid or not satisfiable.  A suffix that is not empty is
  always satisfiable; on an empty file it selects the whole of it, which is no byte.
\<close>

fun range_meaning :: "range_request \<Rightarrow> nat \<Rightarrow> (nat \<times> nat) option" where
  "range_meaning (FromTo a b) n =
    (if a \<le> b \<and> unat a < n then Some (unat a, min (unat b + 1) n - unat a) else None)"
| "range_meaning (FromOn a) n = (if unat a < n then Some (unat a, n - unat a) else None)"
| "range_meaning (Suffix k) n = (if 0 < k then Some (n - unat k, min (unat k) n) else None)"

lemma range_meaning_empty:
  "range_meaning r n = Some (a, 0) \<longleftrightarrow> n = 0 \<and> a = 0 \<and> (\<exists>k. 0 < k \<and> r = Suffix k)"
proof (cases r)
  case (Suffix k)
  have "0 < k \<Longrightarrow> 0 < unat k" by (simp add: word_less_nat_alt)
  then show ?thesis by (auto simp: Suffix min_def)
qed (auto simp: word_le_nat_alt)

text \<open>On a file that is not empty: the first and the last byte selected.\<close>

fun range_ends :: "range_request \<Rightarrow> nat \<Rightarrow> (nat \<times> nat) option" where
  "range_ends (FromTo a b) n =
    (if a \<le> b \<and> unat a < n then Some (unat a, min (unat b) (n - 1)) else None)"
| "range_ends (FromOn a) n = (if unat a < n then Some (unat a, n - 1) else None)"
| "range_ends (Suffix k) n = (if 0 < k then Some (n - unat k, n - 1) else None)"

lemma range_meaning_ends:
  assumes "0 < n"
  shows "range_ends r n = map_option (\<lambda>(a, len). (a, a + len - 1)) (range_meaning r n)"
proof (cases r)
  case (Suffix k)
  have "0 < k \<Longrightarrow> 0 < unat k" by (simp add: word_less_nat_alt)
  with assms show ?thesis by (auto simp: Suffix min_def)
qed (use assms in \<open>auto simp: min_def word_le_nat_alt\<close>)

lemma no_mark_show_word: "CHR '','' \<notin> set (show_word w)" "CHR ''-'' \<notin> set (show_word w)"
  using show_nat_digits [of "CHR '',''" "unat w"] show_nat_digits [of "CHR ''-''" "unat w"]
  by (auto simp: show_word_def is_ascii_digit_def)

lemma show_word_not_Nil [simp]: "show_word w \<noteq> []"
  by (simp add: show_word_def show_nat_not_Nil)

lemma unat_pred: "0 < w \<Longrightarrow> unat (w - 1) = unat w - 1" for w :: "'a::len word"
  by (simp add: unat_minus_one)

lemma min_word: "min a b = (word_of_nat (min (unat a) (unat b)) :: 'a::len word)"
  by (simp add: min_def word_le_nat_alt)

lemma bytes_prefix: "strip_prefix ''bytes='' (''bytes='' @ s) = Some s"
  by (rule strip_prefix_append)

lemma parse_range_present:
  "file_size \<noteq> 0 \<Longrightarrow> CHR '','' \<notin> set rest \<Longrightarrow> split_once CHR ''-'' rest = Some (first, hi) \<Longrightarrow>
    parse_range (Some (''bytes='' @ rest)) file_size =
      bind_result
        (if first = [] then
           bind_result (ok_or (parse_word hi) ()) (\<lambda>suffix.
             if suffix = 0 then Inl () else Inr (saturating_sub file_size suffix, file_size - 1))
         else
           bind_result (ok_or (parse_word first) ()) (\<lambda>start.
           bind_result
             (if hi = [] then Inr (file_size - 1) else ok_or (parse_word hi) ())
             (\<lambda>stop. Inr (start, min stop (file_size - 1)))))
        (\<lambda>(start, stop).
          if file_size \<le> start \<or> stop < start then Inl ()
          else Inr \<lparr>rg_start = start, rg_end = stop, rg_partial = True\<rparr>)"
  unfolding parse_range_def option.case bytes_prefix by simp

lemma parse_range_ends:
  assumes size: "file_size \<noteq> 0"
  shows "parse_range (Some (show_range r)) file_size =
    (case range_ends r (unat file_size) of
       None \<Rightarrow> Inl ()
     | Some (a, b) \<Rightarrow>
       Inr \<lparr>rg_start = word_of_nat a, rg_end = word_of_nat b, rg_partial = True\<rparr>)"
proof -
  have pos: "0 < unat file_size" using size by (simp add: unat_gt_0)
  then have pred: "unat (file_size - 1) = unat file_size - 1" using size by (simp add: unat_minus_one)
  have lt: "a < b \<longleftrightarrow> unat a < unat b" "a \<le> b \<longleftrightarrow> unat a \<le> unat b" for a b :: u64
    by (simp_all add: word_less_nat_alt word_le_nat_alt)
  have split: "split_once CHR ''-'' (show_word a @ ''-'' @ s) = Some (show_word a, s)" for a :: u64 and s
    using split_once_append [OF no_mark_show_word(2), of a s] by simp
  show ?thesis
  proof (cases r)
    case (FromTo a b)
    have "CHR '','' \<notin> set (show_word a @ ''-'' @ show_word b)" by (simp add: no_mark_show_word)
    from parse_range_present [OF size this split] show ?thesis
      using pos by (auto simp: FromTo lt pred min_def)
  next
    case (FromOn a)
    have "CHR '','' \<notin> set (show_word a @ ''-'' @ [])" by (simp add: no_mark_show_word)
    from parse_range_present [OF size this split] show ?thesis
      using pos by (auto simp: FromOn lt pred min_def)
  next
    case (Suffix k)
    have "CHR '','' \<notin> set (''-'' @ show_word k)" by (simp add: no_mark_show_word)
    from parse_range_present [OF size this, of "[]" "show_word k"]
    have step: "parse_range (Some (show_range (Suffix k))) file_size =
        (if k = 0 then Inl ()
         else if file_size \<le> saturating_sub file_size k \<or> file_size - 1 < saturating_sub file_size k
         then Inl ()
         else Inr \<lparr>rg_start = saturating_sub file_size k, rg_end = file_size - 1,
           rg_partial = True\<rparr>)" by simp
    have sub: "saturating_sub file_size k = word_of_nat (unat file_size - unat k)"
      by (metis unat_saturating_sub of_nat_unat ucast_id)
    have last: "file_size - 1 = word_of_nat (unat file_size - 1)"
      by (metis pred of_nat_unat ucast_id)
    show ?thesis
    proof (cases "k = 0")
      case False
      then have k: "0 < unat k" "0 < k" by (simp_all add: unat_gt_0 word_neq_0_conv)
      with pos have "\<not> file_size \<le> saturating_sub file_size k"
        "\<not> file_size - 1 < saturating_sub file_size k"
        by (simp_all add: lt pred unat_saturating_sub)
      moreover have m: "range_ends (Suffix k) (unat file_size) =
          Some (unat file_size - unat k, unat file_size - 1)" using k pos by simp
      ultimately show ?thesis using False
        unfolding Suffix step m option.case prod.case sub [symmetric] last [symmetric] by simp
    next
      case True
      then show ?thesis unfolding Suffix step by simp
    qed
  qed
qed

lemma parse_range_show:
  "parse_range (Some (show_range r)) file_size =
    (case range_meaning r (unat file_size) of
       None \<Rightarrow> Inl ()
     | Some (a, len) \<Rightarrow>
       if len = 0 then Inl ()
       else Inr \<lparr>rg_start = word_of_nat a, rg_end = word_of_nat (a + len - 1), rg_partial = True\<rparr>)"
proof (cases "file_size = 0")
  case True
  then show ?thesis by (cases r) (simp_all add: parse_range_def)
next
  case False
  then have "0 < unat file_size" by (simp add: unat_gt_0)
  then show ?thesis
    using range_meaning_empty [of r "unat file_size"]
    by (auto simp: parse_range_ends [OF False] range_meaning_ends split: option.split)
qed

lemma parse_range_bounds:
  assumes "parse_range (Some v) file_size = Inr r"
  shows "rg_start r \<le> rg_end r \<and> rg_end r < file_size \<and> rg_partial r"
proof -
  have pred: "file_size \<noteq> 0 \<Longrightarrow> file_size - 1 < file_size"
    using unat_gt_0 [of file_size] by (simp add: word_less_nat_alt unat_minus_one)
  show ?thesis using assms
    by (auto simp: parse_range_def bind_result_Inr_iff ok_or_Inr_iff not_le not_less
        intro: le_less_trans [OF _ pred] split: if_splits)
qed

section \<open>Facts on media responses\<close>

lemma range_length_eq:
  assumes "rg_start r \<le> rg_end r" and "rg_end r < file_size"
  shows "unat (range_length file_size r) = unat (rg_end r) - unat (rg_start r) + 1"
proof -
  have "unat (rg_start r) \<le> unat (rg_end r)" "unat (rg_end r) < unat file_size"
    using assms by (simp_all add: word_le_nat_alt word_less_nat_alt)
  moreover have "unat file_size < 2 ^ 64" using unsigned_less [of file_size, where ?'a = nat] by simp
  ultimately show ?thesis
    by (auto simp: range_length_def unat_saturating_add unat_saturating_sub)
qed

text \<open>The features are the last field of the protocol information.\<close>

lemma content_features_eq:
  assumes "CHR '':'' \<notin> set (mk_mime_type k)"
  shows "content_features k =
    (case mk_dlna_profile k of None \<Rightarrow> [] | Some p \<Rightarrow> ''DLNA.ORG_PN='' @ p @ '';'')
    @ ''DLNA.ORG_OP=01;DLNA.ORG_CI=0;DLNA.ORG_FLAGS=01700000000000000000000000000000''"
proof -
  have "split_once CHR '':'' (mk_mime_type k @ CHR '':'' # s) = Some (mk_mime_type k, s)" for s
    using split_once_append [OF assms] .
  then show ?thesis by (simp add: content_features_def protocol_info_def Let_def)
qed

end
