(* ===== verification/Http.thy ===== *)
theory Http
  imports Media_Response Bookmarks Config_Model
begin

text \<open>
  The HTTP server of \<open>crates/joedlna-core/src/http.rs\<close>: its state, its routes and every handler.

  \<open>http_env\<close> collects what a handler asks the world for: axum's extractor of the body, which gives
  the bytes or refuses the request with a status and a text, the XML reader and the TOML writer, the
  files of the shares, which disk operations fail, the clock and a fresh identifier.  Handlers
  return the response, the new state and disk, and, for a new subscription, the initial
  notification that \<open>event_request\<close> spawns: subscription identifier and update identifier.
\<close>

section \<open>State\<close>

record app_state =
  as_catalog :: catalog
  as_config :: config
  as_base_url :: string
  as_udn :: string
  as_events :: event_manager
  as_bookmarks :: bookmark_store

datatype ip_addr = V4 ipv4 | V6 "u16 list"

record http_request =
  hr_method :: string
  hr_path :: "string list"
  hr_headers :: header_map
  hr_body :: string
  hr_peer :: ip_addr

record http_env =
  he_bytes :: "string \<Rightarrow> (nat \<times> string) + string"
  he_reader :: "string \<Rightarrow> (string + xml_event) list"
  he_unescape :: "string \<Rightarrow> string option"
  he_to_toml :: "positions \<Rightarrow> string + string"
  he_windows :: bool
  he_faults :: set_faults
  he_media :: media_files
  he_now :: instant
  he_later :: instant
  he_uuid :: string

type_synonym scheduled = "(string \<times> u32) option"

type_synonym outcome = "http_response \<times> app_state \<times> disk \<times> scheduled"

section \<open>Pages and descriptions\<close>

definition presentation :: "app_state \<Rightarrow> http_response" where
  "presentation st =
    response 200 ''text/html; charset=utf-8''
      (presentation_page (friendly_name (as_config st)) (file_count (as_catalog st))
        (total_bytes (as_catalog st)))"

definition root_description :: "app_state \<Rightarrow> http_response" where
  "root_description st =
    xml_response 200
      (device_description (friendly_name (as_config st)) (as_udn st) (as_base_url st))"

definition content_directory_scpd :: http_response where
  "content_directory_scpd = xml_response 200 CONTENT_DIRECTORY_SCPD"

definition connection_manager_scpd :: http_response where
  "connection_manager_scpd = xml_response 200 CONNECTION_MANAGER_SCPD"

section \<open>Control\<close>

definition invalid_args :: upnp_error_info where
  "invalid_args = \<lparr>ue_code = 402, ue_description = ''Invalid Args''\<rparr>"

definition is_media_object :: "catalog \<Rightarrow> string \<Rightarrow> bool" where
  "is_media_object c obj =
    (case catalog_entry c obj of
       None \<Rightarrow> False
     | Some e \<Rightarrow> (case e_kind e of Media _ \<Rightarrow> True | Container \<Rightarrow> False))"

definition set_bookmark ::
  "http_env \<Rightarrow> arguments \<Rightarrow> app_state \<Rightarrow> disk \<Rightarrow> http_response \<times> app_state \<times> disk" where
  "set_bookmark env args st d =
    (case hm_get args ''ObjectID'' of
       None \<Rightarrow> (soap_error invalid_args, st, d)
     | Some obj \<Rightarrow>
       (case Option.bind (hm_get args ''PosSecond'') parse_word of
          None \<Rightarrow> (soap_error invalid_args, st, d)
        | Some position \<Rightarrow>
          if \<not> is_media_object (as_catalog st) obj then
            (soap_error \<lparr>ue_code = 701, ue_description = ''No Such Object''\<rparr>, st, d)
          else
            (case set_position (he_to_toml env) (he_windows env) (he_faults env) obj position
                (as_bookmarks st) d of
               (r, store, d') \<Rightarrow>
                 (let st' = st\<lparr>as_bookmarks := store\<rparr> in
                  case r of
                    Inl _ \<Rightarrow>
                      (soap_error \<lparr>ue_code = 501, ue_description = ''Action Failed''\<rparr>, st', d')
                  | Inr _ \<Rightarrow>
                      (soap_result (content_directory_response ''X_SetBookmark'' args
                        (as_catalog st) (snapshot store) (as_base_url st)), st', d')))))"

text \<open>
  The handlers take their body as \<open>Bytes\<close>; where the extractor refuses, its status and text are the
  answer and the handler does not run.
\<close>

definition rejection :: "nat \<times> string \<Rightarrow> http_response" where
  "rejection r =
    \<lparr>rs_status = fst r,
     rs_headers = [(''content-type'', ''text/plain; charset=utf-8''),
       (''content-length'', show_nat (length (snd r)))],
     rs_body = snd r\<rparr>"

definition content_directory_control ::
  "http_env \<Rightarrow> header_map \<Rightarrow> string \<Rightarrow> app_state \<Rightarrow> disk \<Rightarrow> http_response \<times> app_state \<times> disk" where
  "content_directory_control env headers body st d =
    (case he_bytes env body of
       Inl refused \<Rightarrow> (rejection refused, st, d)
     | Inr received \<Rightarrow>
       (case parse_request (he_reader env) (he_unescape env) (headers ''soapaction'') received of
          Inl _ \<Rightarrow> (soap_error invalid_args, st, d)
        | Inr (action, args) \<Rightarrow>
          if action = ''X_SetBookmark'' then set_bookmark env args st d
          else
            (soap_result (content_directory_response action args (as_catalog st)
               (snapshot (as_bookmarks st)) (as_base_url st)), st, d)))"

definition connection_manager_control :: "http_env \<Rightarrow> header_map \<Rightarrow> string \<Rightarrow> http_response" where
  "connection_manager_control env headers body =
    (case he_bytes env body of
       Inl refused \<Rightarrow> rejection refused
     | Inr received \<Rightarrow>
       (case parse_request (he_reader env) (he_unescape env) (headers ''soapaction'') received of
          Inl _ \<Rightarrow> soap_error invalid_args
        | Inr (action, args) \<Rightarrow> soap_result (connection_manager_response action args)))"

section \<open>Eventing\<close>

definition event_error :: "subscription_error \<Rightarrow> http_response" where
  "event_error e =
    \<lparr>rs_status = (case e of IncompatibleHeaders \<Rightarrow> 400 | _ \<Rightarrow> 412),
     rs_headers = [(''server'', SERVER), (''content-length'', ''0'')], rs_body = []\<rparr>"

definition event_request ::
  "http_env \<Rightarrow> event_service \<Rightarrow> http_request \<Rightarrow> app_state \<Rightarrow>
    http_response \<times> app_state \<times> scheduled" where
  "event_request env service req st =
    (if hr_method req = ''SUBSCRIBE'' then
       (case hr_peer req of
          V4 requester \<Rightarrow>
            (case subscribe (he_now env) (he_later env) (he_uuid env) service (hr_headers req)
                requester (as_events st) of
               (Inr sub, em) \<Rightarrow>
                 (insert_header ''ext'' []
                   \<lparr>rs_status = 200,
                    rs_headers =
                      [(''server'', SERVER), (''content-length'', ''0''), (''sid'', sr_sid sub),
                       (''timeout'', ''Second-'' @ show_word (sr_timeout_seconds sub))],
                    rs_body = []\<rparr>,
                  st\<lparr>as_events := em\<rparr>,
                  if sr_is_new sub then Some (sr_sid sub, update_id (as_catalog st)) else None)
             | (Inl e, em) \<Rightarrow> (event_error e, st\<lparr>as_events := em\<rparr>, None))
        | V6 _ \<Rightarrow> (status_response 412, st, None))
     else if hr_method req = ''UNSUBSCRIBE'' then
       (case unsubscribe service (hr_headers req) (as_events st) of
          (Inr _, em) \<Rightarrow>
            (\<lparr>rs_status = 200, rs_headers = [(''server'', SERVER), (''content-length'', ''0'')],
              rs_body = []\<rparr>, st\<lparr>as_events := em\<rparr>, None)
        | (Inl e, em) \<Rightarrow> (event_error e, st\<lparr>as_events := em\<rparr>, None))
     else (status_response 405, st, None))"

section \<open>Routes\<close>

datatype segment = Lit string | Capture

datatype handler =
    Presentation | RootDescription | ContentDirectoryScpd | ConnectionManagerScpd
  | ContentDirectoryControl | ConnectionManagerControl
  | ContentDirectoryEvents | ConnectionManagerEvents | MediaFile

text \<open>
  The routes with the methods each takes, \<open>None\<close> for any; axum's \<open>get\<close> also serves \<open>HEAD\<close>.
\<close>

definition routes :: "(segment list \<times> string list option \<times> handler) list" where
  "routes =
    [([Lit []], Some [''GET'', ''HEAD''], Presentation),
     ([Lit ''root.xml''], Some [''GET'', ''HEAD''], RootDescription),
     ([Lit ''upnp'', Lit ''content-directory.xml''], Some [''GET'', ''HEAD''], ContentDirectoryScpd),
     ([Lit ''upnp'', Lit ''connection-manager.xml''], Some [''GET'', ''HEAD''], ConnectionManagerScpd),
     ([Lit ''upnp'', Lit ''content-directory'', Lit ''control''], Some [''POST''],
      ContentDirectoryControl),
     ([Lit ''upnp'', Lit ''connection-manager'', Lit ''control''], Some [''POST''],
      ConnectionManagerControl),
     ([Lit ''upnp'', Lit ''content-directory'', Lit ''events''], None, ContentDirectoryEvents),
     ([Lit ''upnp'', Lit ''connection-manager'', Lit ''events''], None, ConnectionManagerEvents),
     ([Lit ''media'', Capture, Capture], Some [''GET'', ''HEAD''], MediaFile)]"

text \<open>A path matches literally, a capture takes one non-empty segment.\<close>

fun matches :: "segment list \<Rightarrow> string list \<Rightarrow> bool" where
  "matches [] [] = True"
| "matches (Lit s # ss) (p # ps) = (s = p \<and> matches ss ps)"
| "matches (Capture # ss) (p # ps) = (p \<noteq> [] \<and> matches ss ps)"
| "matches _ _ = False"

definition route :: "string list \<Rightarrow> (string list option \<times> handler) option" where
  "route p = map_option snd (find (\<lambda>(pattern, _). matches pattern p) routes)"

definition allowed :: "string list option \<Rightarrow> string \<Rightarrow> bool" where
  "allowed methods m = (case methods of None \<Rightarrow> True | Some ms \<Rightarrow> m \<in> set ms)"

text \<open>The server drops the body of an answer to \<open>HEAD\<close>.\<close>

definition without_body :: "string \<Rightarrow> http_response \<Rightarrow> http_response" where
  "without_body method r = (if method = ''HEAD'' then r\<lparr>rs_body := []\<rparr> else r)"

definition run_handler ::
  "handler \<Rightarrow> http_env \<Rightarrow> http_request \<Rightarrow> app_state \<Rightarrow> disk \<Rightarrow> outcome" where
  "run_handler h env req st d =
    (case h of
       Presentation \<Rightarrow> (presentation st, st, d, None)
     | RootDescription \<Rightarrow> (root_description st, st, d, None)
     | ContentDirectoryScpd \<Rightarrow> (content_directory_scpd, st, d, None)
     | ConnectionManagerScpd \<Rightarrow> (connection_manager_scpd, st, d, None)
     | ContentDirectoryControl \<Rightarrow>
         (case content_directory_control env (hr_headers req) (hr_body req) st d of
            (r, st', d') \<Rightarrow> (r, st', d', None))
     | ConnectionManagerControl \<Rightarrow>
         (connection_manager_control env (hr_headers req) (hr_body req), st, d, None)
     | ContentDirectoryEvents \<Rightarrow>
         (case event_request env ContentDirectory req st of (r, st', s) \<Rightarrow> (r, st', d, s))
     | ConnectionManagerEvents \<Rightarrow>
         (case event_request env ConnectionManager req st of (r, st', s) \<Rightarrow> (r, st', d, s))
     | MediaFile \<Rightarrow>
         (media (he_media env) (as_catalog st) (hr_path req ! 1) (hr_method req) (hr_headers req),
          st, d, None))"

definition handle_request :: "http_env \<Rightarrow> http_request \<Rightarrow> app_state \<Rightarrow> disk \<Rightarrow> outcome" where
  "handle_request env req st d =
    (case route (hr_path req) of
       None \<Rightarrow> (status_response 404, st, d, None)
     | Some (methods, h) \<Rightarrow>
       if \<not> allowed methods (hr_method req) then (status_response 405, st, d, None)
       else
         (case run_handler h env req st d of
            (r, st', d', s) \<Rightarrow> (without_body (hr_method req) r, st', d', s)))"

end
