(* ===== verification/Http_Properties.thy ===== *)
theory Http_Properties
  imports Http Events_Facts Events_Text Core_Properties Bookmarks_Properties
begin

text \<open>
  Properties of the HTTP server: ranges and streaming, bookmarks over SOAP, and event requests.
\<close>

section \<open>Ranges and streaming\<close>

text \<open>C24. Byte ranges are read as RFC 9110 gives them but for one case: each of the three forms, over
  all 64-bit numbers, is understood or refused exactly as it is meant, except that a suffix that asks
  for one byte or more of an empty file is refused, where the RFC has the whole, empty file meant.
  Whatever the header, a range that is accepted lies within the file, and without the header the
  whole file is meant.\<close>

theorem parse_range_correct:
  "parse_range (Some (show_range r)) file_size =
     (case range_meaning r (unat file_size) of
        None \<Rightarrow> Inl ()
      | Some (first, len) \<Rightarrow>
        if len = 0 then Inl ()
        else Inr \<lparr>rg_start = word_of_nat first, rg_end = word_of_nat (first + len - 1),
          rg_partial = True\<rparr>)
   \<and> ((\<exists>first. range_meaning r (unat file_size) = Some (first, 0)) \<longleftrightarrow>
       file_size = 0 \<and> (\<exists>k. 0 < k \<and> r = Suffix k))
   \<and> (case (v, parse_range v file_size) of
        (None, res) \<Rightarrow>
          res = Inr \<lparr>rg_start = 0, rg_end = saturating_sub file_size 1, rg_partial = False\<rparr>
      | (Some _, Inl _) \<Rightarrow> True
      | (Some _, Inr g) \<Rightarrow> rg_start g \<le> rg_end g \<and> rg_end g < file_size \<and> rg_partial g)"
proof (intro conjI)
  show "parse_range (Some (show_range r)) file_size =
     (case range_meaning r (unat file_size) of
        None \<Rightarrow> Inl ()
      | Some (first, len) \<Rightarrow>
        if len = 0 then Inl ()
        else Inr \<lparr>rg_start = word_of_nat first, rg_end = word_of_nat (first + len - 1),
          rg_partial = True\<rparr>)" by (rule parse_range_show)
  show "(\<exists>first. range_meaning r (unat file_size) = Some (first, 0)) \<longleftrightarrow>
       file_size = 0 \<and> (\<exists>k. 0 < k \<and> r = Suffix k)"
    by (simp add: range_meaning_empty unat_eq_zero)
  show "case (v, parse_range v file_size) of
        (None, res) \<Rightarrow>
          res = Inr \<lparr>rg_start = 0, rg_end = saturating_sub file_size 1, rg_partial = False\<rparr>
      | (Some _, Inl _) \<Rightarrow> True
      | (Some _, Inr g) \<Rightarrow> rg_start g \<le> rg_end g \<and> rg_end g < file_size \<and> rg_partial g"
    using parse_range_bounds [of _ file_size]
    by (cases v) (auto simp: parse_range_def [of None] split: sum.split)
qed

text \<open>A file as the handler finds it: its size is that of its content and it can be read.\<close>

definition readable :: "media_files \<Rightarrow> path \<Rightarrow> string \<Rightarrow> bool" where
  "readable mf p content =
    ((\<exists>m. mf_metadata mf p = Inr m \<and> is_file m \<and> unat (md_len m) = length content)
     \<and> mf_open mf p = Some content \<and> (\<forall>n. mf_seek mf p n))"

text \<open>The bytes a range stands for.\<close>

definition range_bytes :: "byte_range \<Rightarrow> string \<Rightarrow> string" where
  "range_bytes r content =
    (if content = [] then []
     else take (unat (rg_end r) - unat (rg_start r) + 1) (drop (unat (rg_start r)) content))"

lemma length_word: "unat w = n \<Longrightarrow> w = word_of_nat n" for w :: u64
  by (metis of_nat_unat ucast_id)

lemma accepted_range:
  assumes "parse_range v n = Inr r" and "n \<noteq> 0"
  shows "rg_start r \<le> rg_end r \<and> rg_end r < n"
proof (cases v)
  case None
  with assms have "r = \<lparr>rg_start = 0, rg_end = saturating_sub n 1, rg_partial = False\<rparr>"
    by (simp add: parse_range_def)
  with assms(2) unat_gt_0 [of n] show ?thesis
    by (simp add: word_less_nat_alt unat_saturating_sub)
next
  case (Some s)
  with assms(1) parse_range_bounds show ?thesis by blast
qed

lemma range_bytes_length:
  assumes "parse_range v n = Inr r" and size: "unat n = length content"
  shows "length (range_bytes r content) = unat (range_length n r)"
    and "take (unat (range_length n r)) (drop (unat (rg_start r)) content) = range_bytes r content"
proof -
  have "length (range_bytes r content) = unat (range_length n r)
    \<and> take (unat (range_length n r)) (drop (unat (rg_start r)) content) = range_bytes r content"
  proof (cases "n = 0")
    case True
    then show ?thesis using size by (simp add: range_bytes_def range_length_def)
  next
    case False
    from accepted_range [OF assms(1) False]
    have r: "rg_start r \<le> rg_end r" "rg_end r < n" by simp_all
    then have "unat (rg_start r) \<le> unat (rg_end r)" "unat (rg_end r) < length content"
      using size by (simp_all add: word_le_nat_alt word_less_nat_alt)
    with range_length_eq [OF r] show ?thesis by (auto simp: range_bytes_def)
  qed
  then show "length (range_bytes r content) = unat (range_length n r)"
    and "take (unat (range_length n r)) (drop (unat (rg_start r)) content) = range_bytes r content"
    by blast+
qed

lemma media_get:
  assumes e: "catalog_entry c obj = Some e" "e_kind e = Media k"
    and readable: "readable mf (e_path e) content"
    and ok: "parse_range (headers ''range'') (word_of_nat (length content)) = Inr r"
    and size: "length content < 2 ^ 64"
  shows "media mf c obj method headers =
    \<lparr>rs_status = (if rg_partial r then 206 else 200),
     rs_headers =
       [(''content-type'', mk_mime_type k),
        (''content-length'', show_nat (length (range_bytes r content))),
        (''accept-ranges'', ''bytes''), (''server'', SERVER), (''ext'', []),
        (''transfermode.dlna.org'', ''Streaming'')]
       @ (if rg_partial r then
            [(''content-range'',
              ''bytes '' @ show_word (rg_start r) @ ''-'' @ show_word (rg_end r) @ ''/''
              @ show_nat (length content))]
          else [])
       @ (if headers ''getcontentfeatures.dlna.org'' = Some ''1''
          then [(''contentfeatures.dlna.org'', content_features k)] else []),
     rs_body = (if method = ''HEAD'' then [] else range_bytes r content)\<rparr>"
proof -
  obtain m where m: "mf_metadata mf (e_path e) = Inr m" "is_file m" "unat (md_len m) = length content"
    and io: "mf_open mf (e_path e) = Some content" "\<And>n. mf_seek mf (e_path e) n"
    using readable by (auto simp: readable_def)
  note len = length_word [OF m(3)]
  note bytes = range_bytes_length [OF ok [folded len] m(3)]
  have body: "media_body mf (e_path e) method r (range_length (md_len m) r) =
      Inr (if method = ''HEAD'' then [] else range_bytes r content)"
    using bytes by (auto simp: media_body_def io unat_eq_0)
  have show_len: "show_word (range_length (md_len m) r) = show_nat (length (range_bytes r content))"
    "show_word (md_len m) = show_nat (length content)"
    using bytes(1) m(3) by (simp_all add: show_word_def)
  show ?thesis
    unfolding media_def e option.case entry_kind.case m sum.case
    using ok [folded len] body m(2) by (simp add: Let_def show_len)
qed

text \<open>C14. Streaming serves exactly what was asked for: for a published, readable file, a range that
  cannot be satisfied is answered 416 with the size, and any other request with the bytes of the
  range and nothing else, their number as content length, 206 with the range's position when it is
  partial and 200 otherwise; \<open>HEAD\<close> gives the same without the body.\<close>

theorem media_streams:
  fixes headers :: header_map
  assumes "catalog_entry c obj = Some e" and "e_kind e = Media k"
    and "readable mf (e_path e) content" and "length content < 2 ^ 64"
  defines "get \<equiv> media mf c obj ''GET'' headers"
  shows "media mf c obj ''HEAD'' headers = get\<lparr>rs_body := []\<rparr>
    \<and> (case parse_range (headers ''range'') (word_of_nat (length content)) of
        Inl _ \<Rightarrow> rs_status get = 416 \<and> rs_body get = []
          \<and> map_of (rs_headers get) ''content-range'' = Some (''bytes */'' @ show_nat (length content))
      | Inr r \<Rightarrow> rs_body get = range_bytes r content
          \<and> map_of (rs_headers get) ''content-type'' = Some (mk_mime_type k)
          \<and> map_of (rs_headers get) ''content-length'' = Some (show_nat (length (rs_body get)))
          \<and> (if rg_partial r then rs_status get = 206 \<and>
               map_of (rs_headers get) ''content-range'' =
                 Some (''bytes '' @ show_word (rg_start r) @ ''-'' @ show_word (rg_end r) @ ''/''
                   @ show_nat (length content))
             else rs_status get = 200 \<and> rs_body get = content))"
proof
  obtain m where m: "mf_metadata mf (e_path e) = Inr m" "is_file m" "unat (md_len m) = length content"
    using assms(3) by (auto simp: readable_def)
  note len = length_word [OF m(3)]
  have bad: "media mf c obj verb headers = unsatisfiable (md_len m)"
    if "parse_range (headers ''range'') (word_of_nat (length content)) = Inl u" for verb u
    unfolding media_def assms(1,2) option.case entry_kind.case m sum.case
    using that [folded len] m(2) by simp
  note good = media_get [OF assms(1-3) _ assms(4)]
  show "media mf c obj ''HEAD'' headers = get\<lparr>rs_body := []\<rparr>"
    using bad good
    by (cases "parse_range (headers ''range'') (word_of_nat (length content))")
      (simp_all add: get_def unsatisfiable_def)
  show "case parse_range (headers ''range'') (word_of_nat (length content)) of
        Inl _ \<Rightarrow> rs_status get = 416 \<and> rs_body get = []
          \<and> map_of (rs_headers get) ''content-range'' = Some (''bytes */'' @ show_nat (length content))
      | Inr r \<Rightarrow> rs_body get = range_bytes r content
          \<and> map_of (rs_headers get) ''content-type'' = Some (mk_mime_type k)
          \<and> map_of (rs_headers get) ''content-length'' = Some (show_nat (length (rs_body get)))
          \<and> (if rg_partial r then rs_status get = 206 \<and>
               map_of (rs_headers get) ''content-range'' =
                 Some (''bytes '' @ show_word (rg_start r) @ ''-'' @ show_word (rg_end r) @ ''/''
                   @ show_nat (length content))
             else rs_status get = 200 \<and> rs_body get = content)"
  proof (cases "parse_range (headers ''range'') (word_of_nat (length content))")
    case (Inl u)
    then show ?thesis using bad [OF Inl] m(3) by (simp add: get_def unsatisfiable_def show_word_def)
  next
    case (Inr r)
    have whole: "range_bytes r content = content" if "\<not> rg_partial r"
    proof (cases "headers ''range''")
      case None
      with Inr have "r = \<lparr>rg_start = 0,
          rg_end = saturating_sub (word_of_nat (length content)) 1, rg_partial = False\<rparr>"
        by (simp add: parse_range_def)
      then show ?thesis using assms(4)
        by (simp add: range_bytes_def unat_saturating_sub len [symmetric] m(3))
    next
      case (Some s)
      with parse_range_bounds [OF Inr [unfolded Some]] that show ?thesis by simp
    qed
    then show ?thesis using good [where headers = headers, OF Inr] Inr by (simp add: get_def)
  qed
qed

definition example_media_files :: media_files where
  "example_media_files =
    \<lparr>mf_metadata = (\<lambda>p. Inr \<lparr>md_type = File, md_len = 4, md_modified = None\<rparr>),
     mf_open = (\<lambda>p. Some ''abcd''), mf_seek = (\<lambda>p n. True)\<rparr>"

definition example_media_catalog :: catalog where
  "example_media_catalog =
    \<lparr>entries = [(e_id (example_file 0), example_file 0)], children = [], update_id = 0,
     file_count = 1, total_bytes = 4\<rparr>"

lemma example_media_entry:
  "catalog_entry example_media_catalog (e_id (example_file 0)) = Some (example_file 0)"
  "e_kind (example_file 0) = Media (audio_kind ''audio/mpeg'')"
  "readable example_media_files p ''abcd''"
  by (simp_all add: catalog_entry_def example_media_catalog_def example_file_def readable_def
      example_media_files_def is_file_def)

theorem media_streams_witness:
  "rs_body (media example_media_files example_media_catalog (e_id (example_file 0)) ''GET''
      [''range'' \<mapsto> show_range (FromTo 1 2)]) = ''bc''"
proof -
  have "parse_range (Some (show_range (FromTo 1 2))) 4 =
      Inr \<lparr>rg_start = 1, rg_end = 2, rg_partial = True\<rparr>"
    using parse_range_show [of "FromTo 1 2" 4] by simp
  then have "parse_range ([''range'' \<mapsto> show_range (FromTo 1 2)] ''range'')
      (word_of_nat (length ''abcd'')) = Inr \<lparr>rg_start = 1, rg_end = 2, rg_partial = True\<rparr>"
    by (simp del: show_range.simps)
  with media_streams [THEN conjunct2, OF example_media_entry(1,2) example_media_entry(3),
      of "[''range'' \<mapsto> show_range (FromTo 1 2)]"]
  show ?thesis by (simp add: range_bytes_def del: show_range.simps)
qed

section \<open>Bookmarks\<close>

lemma invalid_args_eq: "invalid_args = upnp_error 402"
  by (simp add: invalid_args_def upnp_error_def)

lemma named_errors:
  "\<lparr>ue_code = 701, ue_description = ''No Such Object''\<rparr> = upnp_error 701"
  "\<lparr>ue_code = 501, ue_description = ''Action Failed''\<rparr> = upnp_error 501"
  by (simp_all add: upnp_error_def)

lemma set_bookmark_refused:
  "hm_get args ''ObjectID'' = None \<or> Option.bind (hm_get args ''PosSecond'') parse_word = (None :: u64 option)
    \<Longrightarrow> set_bookmark env args st d = (soap_error (upnp_error 402), st, d)"
  "hm_get args ''ObjectID'' = Some obj \<Longrightarrow>
    Option.bind (hm_get args ''PosSecond'') parse_word = Some (position :: u64) \<Longrightarrow>
    \<not> is_media_object (as_catalog st) obj \<Longrightarrow>
    set_bookmark env args st d = (soap_error (upnp_error 701), st, d)"
  by (auto simp: set_bookmark_def invalid_args_eq named_errors split: option.splits)

lemma set_bookmark_set:
  assumes "hm_get args ''ObjectID'' = Some obj"
    and "Option.bind (hm_get args ''PosSecond'') parse_word = Some position"
    and "is_media_object (as_catalog st) obj"
    and "set_position (he_to_toml env) (he_windows env) (he_faults env) obj position
      (as_bookmarks st) d = (res, store, d')"
  shows "set_bookmark env args st d =
    (if is_ok res then soap_success (soap_response CONTENT_DIRECTORY_TYPE ''X_SetBookmark'' [])
     else soap_error (upnp_error 501), st\<lparr>as_bookmarks := store\<rparr>, d')"
proof -
  have "content_directory_response ''X_SetBookmark'' args c b base =
      Inr (soap_response CONTENT_DIRECTORY_TYPE ''X_SetBookmark'' [])" for c b base
    by (simp add: content_directory_response_def content_directory_output_def)
  with assms show ?thesis
    by (simp add: set_bookmark_def Let_def named_errors soap_result_def split: sum.split)
qed

text \<open>C20. A bookmark request answers what became of it: without an object or with a position that
  is no 64-bit number it is refused with 402, for anything but a published file with 701, both
  without effect; otherwise exactly that position is set in memory, to be shown by the next
  \<open>Browse\<close>, and the answer is success if and only if it was also saved, and 501 if not.\<close>

theorem bookmark_request:
  fixes position :: "u64 option"
  assumes "set_bookmark env args st d = (r, st', d')"
    and "\<not> he_windows env" and "bs_path (as_bookmarks st) \<noteq> []"
  defines "object \<equiv> hm_get args ''ObjectID''"
    and "position \<equiv> Option.bind (hm_get args ''PosSecond'') parse_word"
  shows "if object = None \<or> position = None
      then (r, st', d') = (soap_error (upnp_error 402), st, d)
    else if \<not> is_media_object (as_catalog st) (the object)
      then (r, st', d') = (soap_error (upnp_error 701), st, d)
    else st' = st\<lparr>as_bookmarks := as_bookmarks st'\<rparr>
      \<and> (\<forall>i. bt_get (snapshot (as_bookmarks st')) i =
          (if i = the object then if the position = 0 then None else position
           else bt_get (snapshot (as_bookmarks st)) i))
      \<and> (if is_ok (he_to_toml env (snapshot (as_bookmarks st')))
            \<and> write_fault (he_faults env) = None \<and> rename_fault (he_faults env) = None
         then r = soap_success (soap_response CONTENT_DIRECTORY_TYPE ''X_SetBookmark'' [])
           \<and> map_option Inr (files d' (bs_path (as_bookmarks st))) =
              Some (he_to_toml env (snapshot (as_bookmarks st')))
         else r = soap_error (upnp_error 501)
           \<and> files d' (bs_path (as_bookmarks st)) = files d (bs_path (as_bookmarks st)))"
proof (cases "object = None \<or> position = None")
  case True
  then show ?thesis using assms(1) set_bookmark_refused(1) [of args env st d]
    by (auto simp: object_def position_def)
next
  case False
  then obtain obj pos where op: "object = Some obj" "position = Some pos" by auto
  show ?thesis
  proof (cases "is_media_object (as_catalog st) obj")
    case False
    then show ?thesis using assms(1) op set_bookmark_refused(2) [of args obj pos st env d]
      by (simp add: object_def position_def)
  next
    case True
    obtain res store d2 where step: "set_position (he_to_toml env) False (he_faults env) obj pos
        (as_bookmarks st) d = (res, store, d2)" by (metis prod_cases3)
    note memory = set_position_memory [OF step] and disk = set_position_unix [OF step assms(3)]
    from set_bookmark_set [OF op [unfolded object_def position_def] True] step assms(1,2)
    have res: "st' = st\<lparr>as_bookmarks := store\<rparr>" "d' = d2"
      "r = (if is_ok res then soap_success (soap_response CONTENT_DIRECTORY_TYPE ''X_SetBookmark'' [])
        else soap_error (upnp_error 501))" by auto
    have "bt_get (snapshot store) i = (if i = obj then if pos = 0 then None else Some pos
         else bt_get (snapshot (as_bookmarks st)) i)" for i
      by (simp add: snapshot_def memory update_position_get)
    moreover have "is_ok res \<longleftrightarrow> is_ok (he_to_toml env (snapshot store))
        \<and> write_fault (he_faults env) = None \<and> rename_fault (he_faults env) = None"
      using disk(1) by (cases "he_to_toml env (snapshot store)") (simp_all add: snapshot_def memory)
    moreover have "is_ok res \<Longrightarrow> map_option Inr (files d2 (bs_path (as_bookmarks st))) =
          Some (he_to_toml env (snapshot store))" using disk(2) by (auto simp: snapshot_def memory)
    ultimately show ?thesis using op True disk(3) by (auto simp: res)
  qed
qed

definition example_http_env :: http_env where
  "example_http_env =
    \<lparr>he_bytes = (\<lambda>body. if 2 * 1024 * 1024 < length body then Inl (413, ''too long'') else Inr body),
     he_reader = (\<lambda>_. []), he_unescape = Some, he_to_toml = example_to_toml, he_windows = False,
     he_faults = no_faults, he_media = example_media_files, he_now = 5, he_later = 6,
     he_uuid = ''u1''\<rparr>"

definition example_state :: "catalog \<Rightarrow> app_state" where
  "example_state c =
    \<lparr>as_catalog = c, as_config = example_config, as_base_url = ''http://10.0.0.2:8201'',
     as_udn = ''uuid:1'', as_events = new_manager (10, 0, 0, 2), as_bookmarks = example_store\<rparr>"

text \<open>The map of the example's file is not one the example's writer knows, so it is not saved.\<close>

theorem bookmark_request_witness:
  "case set_bookmark example_http_env
      [(''ObjectID'', e_id (example_file 0)), (''PosSecond'', show_word (5 :: u64))]
      (example_state example_media_catalog) example_disk of
    (r, st', d') \<Rightarrow> r = soap_error (upnp_error 501)
      \<and> bt_get (snapshot (as_bookmarks st')) (e_id (example_file 0)) = Some 5"
proof -
  let ?args = "[(''ObjectID'', e_id (example_file 0)), (''PosSecond'', show_word (5 :: u64))]"
  obtain r st' d' where run: "set_bookmark example_http_env ?args (example_state example_media_catalog)
      example_disk = (r, st', d')" by (metis prod_cases3)
  have pos: "Option.bind (hm_get ?args ''PosSecond'') parse_word = Some (5 :: u64)" by simp
  have obj: "hm_get ?args ''ObjectID'' = Some (e_id (example_file 0))" by simp
  have media: "is_media_object example_media_catalog (e_id (example_file 0))"
    by (simp add: is_media_object_def example_media_entry(1,2))
  have env: "\<not> he_windows example_http_env"
    "bs_path (as_bookmarks (example_state example_media_catalog)) \<noteq> []"
    by (simp_all add: example_http_env_def example_state_def example_store_def)
  note facts = bookmark_request [OF run env, unfolded pos obj option.sel]
  have get: "bt_get (snapshot (as_bookmarks st')) (e_id (example_file 0)) = Some 5"
    using facts media by (auto simp: example_state_def)
  then have "\<not> is_ok (example_to_toml (snapshot (as_bookmarks st')))"
    by (auto simp: example_to_toml_def example_file_def media_entry_def object_id_def split: if_splits)
  with facts media get have "r = soap_error (upnp_error 501)"
    by (auto simp: example_state_def example_http_env_def)
  with get show ?thesis by (simp add: run)
qed

end
