(* ===== verification/Rescan.thy ===== *)
theory Rescan
  imports Http Scan
begin

text \<open>
  Keeping the catalog current, from \<open>crates/joedlna-core/src/http.rs\<close>: \<open>rescan_catalog\<close>,
  \<open>reconcile_share_watches\<close>, \<open>event_is_relevant\<close> and the loop of \<open>run_scanner\<close>.

  The blocking task of a rescan is given by its result, where \<open>None\<close> is a task that panicked.  The
  native watcher is a parameter: which calls to it succeed, and the messages it sends.  An
  \<open>Instant\<close> counts seconds in 64 signed bits, and adding beyond that panics, which ends the scanner.
\<close>

section \<open>Rescans\<close>

datatype reload_error = ReloadConfig config_error | ReloadScan scan_error

type_synonym reloaded = "(reload_error + (config \<times> catalog_scan)) option"

definition reload ::
  "(string \<Rightarrow> io_error + string) \<Rightarrow> (string \<Rightarrow> string + config) \<Rightarrow> (string \<Rightarrow> string) \<Rightarrow>
    file_system \<Rightarrow> string \<Rightarrow> reloaded" where
  "reload read_to_string parse_toml to_lowercase fs file =
    (case load_config read_to_string parse_toml to_lowercase fs file of
       Inl e \<Rightarrow> Some (Inl (ReloadConfig e))
     | Inr cfg \<Rightarrow>
       map_option (\<lambda>r. bind_result (map_err ReloadScan r) (\<lambda>found. Inr (cfg, found)))
         (scan_settled fs cfg))"

record rescan_outcome =
  ro_config :: config
  ro_unsettled_files :: nat

definition rescan_catalog ::
  "instant \<Rightarrow> reloaded \<Rightarrow> app_state \<Rightarrow> rescan_outcome option \<times> notification_msg list \<times> app_state" where
  "rescan_catalog now reloaded st =
    (case reloaded of
       None \<Rightarrow> (None, [], st)
     | Some (Inl _) \<Rightarrow> (None, [], st)
     | Some (Inr (new_config, found)) \<Rightarrow>
       (let new_catalog = scan_catalog found;
            outcome = \<lparr>ro_config = new_config, ro_unsettled_files = unsettled_files found\<rparr> in
        if \<not> has_same_content (as_catalog st) new_catalog then
          (case notify_content_changed now (update_id new_catalog) (as_events st) of
             (ns, em) \<Rightarrow>
               (Some outcome, ns,
                st\<lparr>as_catalog := new_catalog, as_events := em, as_config := new_config\<rparr>))
        else (Some outcome, [], st\<lparr>as_config := new_config\<rparr>)))"

section \<open>Watches\<close>

datatype watch_mode = Recursive | NonRecursive

type_synonym watches = "(path, watch_mode) hash_map"

datatype watch_call = Watch path watch_mode | Unwatch path

definition wanted_mode :: "config \<Rightarrow> watch_mode" where
  "wanted_mode cfg = (if recursive (scanner cfg) then Recursive else NonRecursive)"

definition desired_watches :: "file_system \<Rightarrow> config \<Rightarrow> watches" where
  "desired_watches fs cfg =
    (if watch_filesystem (scanner cfg) then
       fold
         (\<lambda>share m.
            (case fs_resolve fs (sh_path share) of
               Inl _ \<Rightarrow> m
             | Inr p \<Rightarrow> hm_insert p (wanted_mode cfg) m))
         (shares cfg) []
     else [])"

definition stale_watches :: "watches \<Rightarrow> watches \<Rightarrow> path list" where
  "stale_watches desired watched =
    map fst (filter (\<lambda>(p, mode). hm_get desired p \<noteq> Some mode) watched)"

fun add_watches ::
  "(path \<Rightarrow> watch_mode \<Rightarrow> bool) \<Rightarrow> (path \<times> watch_mode) list \<Rightarrow> watches \<Rightarrow> watch_call list \<times> watches" where
  "add_watches watch_ok [] watched = ([], watched)"
| "add_watches watch_ok ((p, mode) # desired) watched =
    (if hm_get watched p = Some mode then add_watches watch_ok desired watched
     else
       (case add_watches watch_ok desired
           (if watch_ok p mode then hm_insert p mode watched else watched) of
          (calls, watched') \<Rightarrow> (Watch p mode # calls, watched')))"

text \<open>A failing \<open>unwatch\<close> is only logged, so its result does not matter.\<close>

definition reconcile_share_watches ::
  "(path \<Rightarrow> watch_mode \<Rightarrow> bool) \<Rightarrow> file_system \<Rightarrow> config \<Rightarrow> watches \<Rightarrow> watch_call list \<times> watches" where
  "reconcile_share_watches watch_ok fs cfg watched =
    (let desired = desired_watches fs cfg;
         stale = stale_watches desired watched in
     case add_watches watch_ok desired (fold hm_remove stale watched) of
       (calls, watched') \<Rightarrow> (map Unwatch stale @ calls, watched'))"

definition event_is_relevant :: "path list \<Rightarrow> path \<Rightarrow> path list \<Rightarrow> bool" where
  "event_is_relevant event_paths config_path share_roots =
    (event_paths = [] \<or>
     list_ex
       (\<lambda>p. p = config_path \<or> path_file_name p = path_file_name config_path
          \<or> list_ex (path_starts_with p) share_roots)
       event_paths)"

section \<open>The scanner\<close>

definition instant_add :: "instant \<Rightarrow> duration \<Rightarrow> instant option" where
  "instant_add t d = (if (t + d) div 1000000000 < 2 ^ 63 then Some (t + d) else None)"

record scanner_state =
  wn_fallback :: instant
  wn_settle :: "instant option"
  wn_watching :: bool
  wn_watched :: watches

record scanner_env =
  we_config_path :: path
  we_watch_ok :: "path \<Rightarrow> watch_mode \<Rightarrow> bool"

text \<open>
  Before the loop: \<open>watcher\<close> says whether a native watcher could be made.  The two instants are the
  clock's readings for the two deadlines.
\<close>

definition start_scanner ::
  "scanner_env \<Rightarrow> bool \<Rightarrow> file_system \<Rightarrow> instant \<Rightarrow> instant \<Rightarrow> nat \<Rightarrow> app_state \<Rightarrow> scanner_state option" where
  "start_scanner we watcher fs t1 t2 unsettled st =
    Option.bind (instant_add t1 (rescan_interval (as_config st))) (\<lambda>fallback.
    Option.bind
      (if unsettled > 0 then map_option Some (instant_add t2 (settle_time (as_config st)))
       else Some None) (\<lambda>settle.
    Some
      \<lparr>wn_fallback = fallback, wn_settle = settle, wn_watching = watcher,
       wn_watched =
         (if watcher then
            snd (reconcile_share_watches (we_watch_ok we) fs (as_config st) [])
          else [])\<rparr>))"

definition next_scan :: "scanner_state \<Rightarrow> instant" where
  "next_scan wn = (case wn_settle wn of Some d \<Rightarrow> d | None \<Rightarrow> wn_fallback wn)"

text \<open>
  What \<open>select!\<close> can receive.  A \<open>Timer\<close> carries the result of the reload, the file system the
  watches are resolved on, and the clock's readings for expired subscriptions and for the two
  deadlines; the watcher's messages carry the reading for the settle deadline.
\<close>

datatype scanner_event =
    Timer reloaded file_system instant instant instant
  | FilesChanged "path list" instant
  | WatchFailed instant
  | WatchClosed
  | ShutdownSeen "bool option"

datatype scanner_result =
    Running scanner_state app_state "notification_msg list" "watch_call list"
  | Finished
  | Panicked

definition queue_scan :: "instant \<Rightarrow> scanner_state \<Rightarrow> app_state \<Rightarrow> scanner_result" where
  "queue_scan now wn st =
    (case instant_add now (settle_time (as_config st)) of
       None \<Rightarrow> Panicked
     | Some d \<Rightarrow> Running (wn\<lparr>wn_settle := Some d\<rparr>) st [] [])"

definition timer_step ::
  "scanner_env \<Rightarrow> reloaded \<Rightarrow> file_system \<Rightarrow> instant \<Rightarrow> instant \<Rightarrow> instant \<Rightarrow> scanner_state \<Rightarrow>
    app_state \<Rightarrow> scanner_result" where
  "timer_step we reloaded fs now t1 t2 wn st =
    (case rescan_catalog now reloaded st of
       (outcome, ns, st') \<Rightarrow>
       (case
          (case outcome of
             Some out \<Rightarrow>
               if wn_watching wn then
                 reconcile_share_watches (we_watch_ok we) fs (ro_config out) (wn_watched wn)
               else ([], wn_watched wn)
           | None \<Rightarrow> ([], wn_watched wn)) of
          (calls, watched) \<Rightarrow>
          (case
             (case outcome of
                Some out \<Rightarrow>
                  if ro_unsettled_files out > 0
                  then map_option Some (instant_add t1 (settle_time (ro_config out)))
                  else Some None
              | None \<Rightarrow> Some None) of
             None \<Rightarrow> Panicked
           | Some settle \<Rightarrow>
             (case instant_add t2 (rescan_interval (as_config st')) of
                None \<Rightarrow> Panicked
              | Some fallback \<Rightarrow>
                Running
                  (wn\<lparr>wn_fallback := fallback, wn_settle := settle, wn_watched := watched\<rparr>)
                  st' ns calls))))"

definition scanner_step ::
  "scanner_env \<Rightarrow> scanner_event \<Rightarrow> scanner_state \<Rightarrow> app_state \<Rightarrow> scanner_result" where
  "scanner_step we ev wn st =
    (case ev of
       Timer reloaded fs now t1 t2 \<Rightarrow> timer_step we reloaded fs now t1 t2 wn st
     | FilesChanged event_paths now \<Rightarrow>
       if event_is_relevant event_paths (we_config_path we) (map fst (wn_watched wn))
       then queue_scan now wn st
       else Running wn st [] []
     | WatchFailed now \<Rightarrow> queue_scan now wn st
     | WatchClosed \<Rightarrow> Running (wn\<lparr>wn_watching := False\<rparr>) st [] []
     | ShutdownSeen changed \<Rightarrow>
       if changed = None \<or> changed = Some True then Finished else Running wn st [] [])"

end
