(* ===== verification/Rescan_Facts.thy ===== *)
theory Rescan_Facts
  imports Rescan Scan_Facts Events_Facts
begin

text \<open>
  Lemmas on rescans, watches and event requests that the properties and the composition share.
\<close>

section \<open>Watches\<close>

lemma get_fold_remove:
  "hm_ok m \<Longrightarrow> hm_get (fold hm_remove ps m) k = (if k \<in> set ps then None else hm_get m k)"
  by (induction ps arbitrary: m) (auto simp: hm.wf_del hm.get_del)

lemma ok_fold_remove: "hm_ok m \<Longrightarrow> hm_ok (fold hm_remove ps m)"
  by (induction ps arbitrary: m) (auto simp: hm.wf_del)

lemma desired_fold:
  fixes fs :: file_system and cfg :: config
  assumes "hm_ok m"
  defines "f \<equiv> \<lambda>share m. (case fs_resolve fs (sh_path share) of Inl _ \<Rightarrow> m
    | Inr p \<Rightarrow> hm_insert p (wanted_mode cfg) m)"
  shows "hm_ok (fold f ss m) \<and> hm_get (fold f ss m) p =
    (if \<exists>share \<in> set ss. fs_resolve fs (sh_path share) = Inr p then Some (wanted_mode cfg)
     else hm_get m p)"
  using assms(1)
proof (induction ss arbitrary: m)
  case (Cons s ss)
  have "hm_ok (f s m)" using Cons.prems by (auto simp: f_def hm.wf_put split: sum.split)
  from Cons.IH [OF this] Cons.prems show ?case by (auto simp: f_def split: sum.split)
qed simp

lemma desired_watches_get:
  "hm_ok (desired_watches fs cfg)"
  "hm_get (desired_watches fs cfg) p =
    (if watch_filesystem (scanner cfg)
        \<and> (\<exists>share \<in> set (shares cfg). fs_resolve fs (sh_path share) = Inr p)
     then Some (wanted_mode cfg) else None)"
  using desired_fold [where m = "[]" and fs = fs and cfg = cfg and ss = "shares cfg" and p = p]
  by (simp_all add: desired_watches_def hm.wf_nil)

lemma add_watches_get:
  assumes "hm_ok desired" and "hm_ok watched" and "add_watches watch_ok desired watched = (calls, w)"
  shows "hm_ok w \<and> (\<forall>p. hm_get w p =
      (case hm_get desired p of
         Some mode \<Rightarrow>
           if hm_get watched p = Some mode \<or> watch_ok p mode then Some mode else hm_get watched p
       | None \<Rightarrow> hm_get watched p))
    \<and> set calls = {Watch p mode |p mode. hm_get desired p = Some mode \<and> hm_get watched p \<noteq> Some mode}"
  using assms
proof (induction watch_ok desired watched arbitrary: calls w rule: add_watches.induct)
  case (1 watch_ok watched)
  then show ?case by simp
next
  case (2 watch_ok p mode desired watched)
  from "2.prems"(1) have ok: "hm_ok desired" "hm_get desired p = None"
    by (auto simp: hm_ok_def map_of_eq_None_iff)
  show ?case
  proof (cases "hm_get watched p = Some mode")
    case True
    with "2.IH"(1) [OF True ok(1) "2.prems"(2)] "2.prems"(3) ok(2) show ?thesis
      by auto (metis option.distinct(1))
  next
    case False
    let ?m = "if watch_ok p mode then hm_insert p mode watched else watched"
    obtain calls' where rest: "add_watches watch_ok desired ?m = (calls', w)"
      "calls = Watch p mode # calls'" using "2.prems"(3) False by (auto split: prod.splits)
    have m: "hm_ok ?m" using "2.prems"(2) by (simp add: hm.wf_put)
    from "2.IH"(2) [OF False ok(1) m rest(1)] ok(2) False rest(2) show ?thesis
      by (auto split: option.splits)
  qed
qed

section \<open>Reloading\<close>

lemma reload_Inr:
  assumes "reload read_to_string parse_toml to_lowercase fs path_name = Some (Inr (cfg, res))"
  shows "load_config read_to_string parse_toml to_lowercase fs path_name = Inr cfg
    \<and> scan_settled fs cfg = Some (Inr res)"
proof (cases "load_config read_to_string parse_toml to_lowercase fs path_name")
  case (Inl e)
  then show ?thesis using assms by (simp add: reload_def)
next
  case (Inr new)
  with assms obtain x where x: "scan_settled fs new = Some x"
    "bind_result (map_err ReloadScan x) (\<lambda>r. Inr (new, r)) = Inr (cfg, res)"
    by (auto simp: reload_def)
  with Inr show ?thesis by (cases x) simp_all
qed

lemma reload_finished:
  assumes "reload read_to_string parse_toml to_lowercase fs path_name = Some (Inr (cfg, res))"
  shows "finished (scan_catalog res)"
  using reload_Inr [OF assms] unfolding scan_settled_def by (blast intro: scanned_catalog_finished)

section \<open>Subscribing over HTTP\<close>

text \<open>What a granted request leaves behind.\<close>

lemma event_request_due:
  assumes "event_request env service req st = (r, st', Some (sid, u))"
    and "hr_headers req ''sid'' = None"
  shows "u = update_id (as_catalog st) \<and> as_catalog st' = as_catalog st \<and>
    (\<exists>s. hm_get (em_subscriptions (as_events st')) sid = Some s \<and> sub_service s = service
      \<and> sub_sequence s = 0
      \<and> sub_expires s = he_later env + from_secs (parse_timeout (hr_headers req ''timeout''))
      \<and> hr_peer req = V4 (addr_ip (cb_address (sub_callback s))))"
proof -
  obtain requester sub em where peer: "hr_peer req = V4 requester"
    and sub: "subscribe (he_now env) (he_later env) (he_uuid env) service (hr_headers req) requester
      (as_events st) = (Inr sub, em)"
    and st': "st' = st\<lparr>as_events := em\<rparr>" "sid = sr_sid sub" "u = update_id (as_catalog st)"
    using assms(1)
    by (auto simp: event_request_def split: if_splits ip_addr.splits prod.splits sum.splits)
  show ?thesis
  proof (cases rule: subscribe_new_cases [where em = "as_events st" and requester = requester
        and now = "he_now env" and later = "he_later env" and uuid = "he_uuid env"
        and service = service and headers = "hr_headers req", OF assms(2)])
    case (1 e)
    then show ?thesis using sub by simp
  next
    case (2 v cb)
    from subscribe_new [OF assms(2) 2, of "he_now env" "he_later env" "he_uuid env" service] sub 2(4)
    show ?thesis by (auto simp: st' peer)
  qed
qed

end
