(* ===== verification/Rescan_Properties.thy ===== *)
theory Rescan_Properties
  imports Rescan_Facts Data_Properties Events_Properties Http_Properties
begin

text \<open>
  Properties of rescans and watches, and of the first notification of a new subscriber.
\<close>

section \<open>Watches\<close>

text \<open>C33. Watches follow the configuration: afterwards exactly the resolvable shares are watched, in
  the configured mode and only if watching is enabled, less those the system refused; a watch that is
  already right is not touched, and calls are made for exactly the others.\<close>

theorem reconcile_correct:
  fixes fs :: file_system and cfg :: config
  assumes "hm_ok watched" and "reconcile_share_watches watch_ok fs cfg watched = (calls, watched')"
  defines "wanted \<equiv> \<lambda>p mode. watch_filesystem (scanner cfg) \<and> mode = wanted_mode cfg
    \<and> (\<exists>share \<in> set (shares cfg). fs_resolve fs (sh_path share) = Inr p)"
  shows "hm_ok watched'
    \<and> (hm_get watched' p = Some mode \<longleftrightarrow>
      wanted p mode \<and> (hm_get watched p = Some mode \<or> watch_ok p mode))
    \<and> set calls =
      {Unwatch p |p. \<exists>mode. hm_get watched p = Some mode \<and> \<not> wanted p mode}
      \<union> {Watch p mode |p mode. wanted p mode \<and> hm_get watched p \<noteq> Some mode}"
proof -
  let ?d = "desired_watches fs cfg"
  let ?stale = "stale_watches ?d watched"
  have wanted: "wanted p mode \<longleftrightarrow> hm_get ?d p = Some mode" for p mode
    by (auto simp: wanted_def desired_watches_get)
  have stale: "p \<in> set ?stale \<longleftrightarrow> (\<exists>mode. hm_get watched p = Some mode \<and> \<not> wanted p mode)" for p
    using assms(1) by (force simp: stale_watches_def wanted hm.items_get [symmetric])
  obtain adds where adds: "add_watches watch_ok ?d (fold hm_remove ?stale watched) = (adds, watched')"
    and calls: "calls = map Unwatch ?stale @ adds"
    using assms(2) by (auto simp: reconcile_share_watches_def Let_def split: prod.splits)
  note facts = add_watches_get [OF desired_watches_get(1) ok_fold_remove [OF assms(1)] adds]
  have removed: "hm_get (fold hm_remove ?stale watched) p = Some mode \<longleftrightarrow>
      hm_get watched p = Some mode \<and> wanted p mode" for p mode
    by (auto simp: get_fold_remove [OF assms(1)] stale)
  have "hm_ok watched'" using facts by blast
  moreover have "hm_get watched' p = Some mode \<longleftrightarrow> (if hm_get ?d p = Some mode
      then hm_get (fold hm_remove ?stale watched) p = Some mode \<or> watch_ok p mode else False)"
    using facts removed [of p] by (auto simp: wanted split: option.splits)
  then have "hm_get watched' p = Some mode \<longleftrightarrow>
      wanted p mode \<and> (hm_get watched p = Some mode \<or> watch_ok p mode)"
    by (auto simp: removed wanted)
  moreover have "set adds = {Watch p mode |p mode. wanted p mode \<and> hm_get watched p \<noteq> Some mode}"
    using facts by (auto simp: removed wanted)
  then have "set calls =
      {Unwatch p |p. \<exists>mode. hm_get watched p = Some mode \<and> \<not> wanted p mode}
      \<union> {Watch p mode |p mode. wanted p mode \<and> hm_get watched p \<noteq> Some mode}"
    by (auto simp: calls stale)
  ultimately show ?thesis by blast
qed

theorem reconcile_correct_witness:
  "case reconcile_share_watches (\<lambda>_ _. True) example_fs example_config [([''x''], Recursive)] of
    (calls, watched) \<Rightarrow> hm_get watched [''m''] = Some Recursive \<and> hm_get watched [''x''] = None
      \<and> Unwatch [''x''] \<in> set calls"
proof -
  obtain calls watched where r: "reconcile_share_watches (\<lambda>_ _. True) example_fs example_config
      [([''x''], Recursive)] = (calls, watched)" by fastforce
  have ok: "hm_ok [([''x''], Recursive)]" by (simp add: hm_ok_def)
  note facts = reconcile_correct [OF ok r]
  have cfg: "watch_filesystem (scanner example_config)" "wanted_mode example_config = Recursive"
    "shares example_config = [example_share]"
    "fs_resolve example_fs (sh_path example_share) = Inr [''m'']"
    by (simp_all add: example_config_def default_scanner_def wanted_mode_def example_fs_def
        example_share_def)
  have "hm_get watched [''m''] = Some Recursive"
    using facts [of "[''m'']" Recursive] by (simp add: cfg)
  moreover have "hm_get watched [''x''] = None"
    using facts [of "[''x'']" "the (hm_get watched [''x''])"]
    by (cases "hm_get watched [''x'']") (simp_all add: cfg)
  moreover have "Unwatch [''x''] \<in> set calls" using facts by (simp add: cfg)
  ultimately show ?thesis by (simp add: r)
qed

section \<open>Rescans\<close>

text \<open>C8. A successful rescan publishes what it found and a failed one changes nothing: afterwards the
  catalog answers every lookup as the new scan does, with the same update identifier, under the new
  configuration, and each live subscriber of the content directory is sent that identifier exactly
  when an entry was added, removed or changed.\<close>

theorem rescan_publishes:
  assumes "finished (as_catalog st)" and "manager_inv (as_events st)"
    and "reload read_to_string parse_toml to_lowercase fs path_name = Some (Inr (cfg, res))"
    and "rescan_catalog now (Some (Inr (cfg, res))) st = (out, ns, st')"
  shows "finished (as_catalog st') \<and> manager_inv (as_events st') \<and> as_config st' = cfg
      \<and> catalog_entry (as_catalog st') = catalog_entry (scan_catalog res)
      \<and> catalog_children (as_catalog st') = catalog_children (scan_catalog res)
      \<and> update_id (as_catalog st') = update_id (scan_catalog res)
    \<and> filter (\<lambda>n. nt_sid n = sid) ns =
      (case hm_get (em_subscriptions (as_events st)) sid of
         None \<Rightarrow> []
       | Some s \<Rightarrow>
         if now < sub_expires s \<and> sub_service s = ContentDirectory
            \<and> catalog_entry (scan_catalog res) \<noteq> catalog_entry (as_catalog st)
         then [\<lparr>nt_callback = sub_callback s, nt_sid = sid, nt_sequence = sub_sequence s,
                nt_body = event_body ContentDirectory (update_id (scan_catalog res))\<rparr>]
         else [])
    \<and> rescan_catalog now (Some (Inl e)) st = (None, [], st)"
proof -
  note new = reload_finished [OF assms(3)]
  have same: "has_same_content (as_catalog st) (scan_catalog res) \<longleftrightarrow>
      catalog_entry (scan_catalog res) = catalog_entry (as_catalog st)"
    using finished_same_iff [OF assms(1) new] by auto
  let ?em = "notify_content_changed now (update_id (scan_catalog res)) (as_events st)"
  have eq: "ns = (if has_same_content (as_catalog st) (scan_catalog res) then [] else fst ?em)"
    "as_catalog st' = (if has_same_content (as_catalog st) (scan_catalog res) then as_catalog st
      else scan_catalog res)"
    "as_events st' = (if has_same_content (as_catalog st) (scan_catalog res) then as_events st
      else snd ?em)" "as_config st' = cfg"
    using assms(4) by (auto simp: rescan_catalog_def Let_def split: prod.splits if_splits)
  have ok: "hm_ok (em_subscriptions (as_events st))" by (rule manager_inv_ok [OF assms(2)])
  have "finished (as_catalog st') \<and> manager_inv (as_events st') \<and> as_config st' = cfg
      \<and> catalog_entry (as_catalog st') = catalog_entry (scan_catalog res)
      \<and> catalog_children (as_catalog st') = catalog_children (scan_catalog res)
      \<and> update_id (as_catalog st') = update_id (scan_catalog res)"
    using finished_same_content [OF assms(1) new] assms(1,2) new
      notify_content_changed_inv [OF assms(2), of now "update_id (scan_catalog res)"]
    by (simp add: eq)
  moreover have "hm_get (prune_expired now (em_subscriptions (as_events st))) sid =
      (case hm_get (em_subscriptions (as_events st)) sid of None \<Rightarrow> None
       | Some s \<Rightarrow> if now < sub_expires s then Some s else None)"
    unfolding prune_expired_def by (rule hm.get_retain [OF ok])
  then have "filter (\<lambda>n. nt_sid n = sid) ns =
      (case hm_get (em_subscriptions (as_events st)) sid of
         None \<Rightarrow> []
       | Some s \<Rightarrow>
         if now < sub_expires s \<and> sub_service s = ContentDirectory
            \<and> catalog_entry (scan_catalog res) \<noteq> catalog_entry (as_catalog st)
         then [\<lparr>nt_callback = sub_callback s, nt_sid = sid, nt_sequence = sub_sequence s,
                nt_body = event_body ContentDirectory (update_id (scan_catalog res))\<rparr>]
         else [])"
    using notify_each_to [OF prune_ok [OF ok]]
    by (simp add: eq same notify_content_changed_eq notification_def split: option.split)
  moreover have "rescan_catalog now (Some (Inl e)) st = (None, [], st)"
    by (simp add: rescan_catalog_def)
  ultimately show ?thesis by blast
qed

theorem rescan_publishes_witness:
  "\<exists>old res out ns st'.
    rescan_catalog 7 (Some (Inr (example_config, res))) (example_state old) = (out, ns, st')
    \<and> catalog_entry (as_catalog st') = catalog_entry (scan_catalog res)"
proof -
  obtain old where old: "scan_with_minimum_age example_fs example_config 0 = Some (Inr old)"
    using example_scan [of 0] by auto
  obtain res where res: "scan_settled example_fs example_config = Some (Inr res)"
    using example_scan [of "settle_time example_config"]
    by (auto simp: scan_settled_def settle_time_def from_secs_def example_config_def default_scanner_def)
  have fin: "finished (as_catalog (example_state (scan_catalog old)))"
    using scanned_catalog_finished [OF old] by (simp add: example_state_def)
  have inv: "manager_inv (as_events (example_state (scan_catalog old)))"
    using new_manager_inv by (simp add: example_state_def)
  have load: "reload (\<lambda>_. Inr ''c'') (\<lambda>_. Inr example_config) (\<lambda>s. s) example_fs ''j'' =
      Some (Inr (example_config, res))"
    by (simp add: reload_def load_config_def example_accepted res)
  obtain out ns st' where run: "rescan_catalog 7 (Some (Inr (example_config, res)))
      (example_state (scan_catalog old)) = (out, ns, st')" by (metis prod_cases3)
  from rescan_publishes [OF fin inv load run] run show ?thesis by blast
qed

section \<open>The initial notification\<close>

text \<open>C21. A new subscriber's first notification has number 0 and the current update identifier and
  goes to the subscriber itself, if nothing happens in the ten milliseconds before it is sent.  But if
  a rescan finds a change in that time, or at any time before the initial notification while the new
  subscription lasts, the change is notified as number 0, and the initial notification follows as
  number 1 with the update identifier from before the change.\<close>

theorem initial_event:
  assumes "event_request env ContentDirectory req st = (r, st1, Some (sid, u))"
    and "hr_headers req ''sid'' = None" and "manager_inv (as_events st1)"
  shows "(\<exists>n em. notify_initial sid u (as_events st1) = ([n], em) \<and> nt_sequence n = 0
      \<and> nt_body n = event_body ContentDirectory (update_id (as_catalog st1))
      \<and> hr_peer req = V4 (addr_ip (cb_address (nt_callback n))))
    \<and> (rescan_catalog now (Some (Inr (cfg, res))) st1 = (out, ns, st2) \<longrightarrow>
      \<not> has_same_content (as_catalog st1) (scan_catalog res) \<longrightarrow>
      now < he_later env + from_secs (parse_timeout (hr_headers req ''timeout'')) \<longrightarrow>
      (\<exists>n em. notify_initial sid u (as_events st2) = ([n], em) \<and>
        map (\<lambda>n. (nt_sequence n, nt_body n)) (filter (\<lambda>n. nt_sid n = sid) (ns @ [n])) =
          [(0, event_body ContentDirectory (update_id (as_catalog st2))),
           (1, event_body ContentDirectory (update_id (as_catalog st1)))]))"
proof -
  from event_request_due [OF assms(1,2)] obtain s where u: "u = update_id (as_catalog st1)"
    and s: "hm_get (em_subscriptions (as_events st1)) sid = Some s" "sub_service s = ContentDirectory"
      "sub_sequence s = 0"
      "sub_expires s = he_later env + from_secs (parse_timeout (hr_headers req ''timeout''))"
      "hr_peer req = V4 (addr_ip (cb_address (sub_callback s)))" by auto
  have first: "\<exists>n em. notify_initial sid u (as_events st1) = ([n], em) \<and> nt_sequence n = 0
      \<and> nt_body n = event_body ContentDirectory (update_id (as_catalog st1))
      \<and> hr_peer req = V4 (addr_ip (cb_address (nt_callback n)))"
    using s by (simp add: notify_initial_def notification_def u)
  have late: "\<exists>n em. notify_initial sid u (as_events st2) = ([n], em) \<and>
        map (\<lambda>n. (nt_sequence n, nt_body n)) (filter (\<lambda>n. nt_sid n = sid) (ns @ [n])) =
          [(0, event_body ContentDirectory (update_id (as_catalog st2))),
           (1, event_body ContentDirectory (update_id (as_catalog st1)))]"
    if rescan: "rescan_catalog now (Some (Inr (cfg, res))) st1 = (out, ns, st2)"
      "\<not> has_same_content (as_catalog st1) (scan_catalog res)"
      "now < he_later env + from_secs (parse_timeout (hr_headers req ''timeout''))"
  proof -
    let ?p = "prune_expired now (em_subscriptions (as_events st1))"
    have ok: "hm_ok (em_subscriptions (as_events st1))" by (rule manager_inv_ok [OF assms(3)])
    have p: "hm_ok ?p" "hm_get ?p sid = Some s"
      using s(1,4) rescan(3) by (simp_all add: prune_ok [OF ok] prune_get [OF ok])
    from rescan have eq: "ns = fst (notify_each (update_id (scan_catalog res)) ?p)"
      "em_subscriptions (as_events st2) = snd (notify_each (update_id (scan_catalog res)) ?p)"
      "as_catalog st2 = scan_catalog res"
      by (auto simp: rescan_catalog_def Let_def notify_content_changed_eq)
    have "hm_get (em_subscriptions (as_events st2)) sid =
        Some (snd (notification sid s (update_id (scan_catalog res))))"
      unfolding eq notify_each_get p(2) using s(2) by simp
    moreover have "filter (\<lambda>n. nt_sid n = sid) ns = [fst (notification sid s (update_id (scan_catalog res)))]"
      unfolding eq notify_each_to [OF p(1)] p(2) using s(2) by simp
    ultimately show ?thesis
      using s(2,3) by (simp add: notify_initial_def notification_def eq u next_sequence_def)
  qed
  from first late show ?thesis by blast
qed

theorem initial_event_witness:
  "\<exists>r st1 n em n0 em0 out ns st2. event_request example_http_env ContentDirectory
      \<lparr>hr_method = ''SUBSCRIBE'', hr_path = [], hr_headers = example_headers, hr_body = [],
       hr_peer = V4 (10, 0, 0, 5)\<rparr> (example_state empty_catalog) =
        (r, st1, Some (''uuid:u1'', update_id empty_catalog))
    \<and> notify_initial ''uuid:u1'' (update_id empty_catalog) (as_events st1) = ([n0], em0)
    \<and> nt_sequence n0 = 0
    \<and> rescan_catalog (he_later example_http_env + 10000000)
        (Some (Inr (example_config, \<lparr>scan_catalog = empty_catalog
          \<lparr>entries := [(''x'', example_root)], update_id := 7\<rparr>, unsettled_files = 0\<rparr>))) st1 = (out, ns, st2)
    \<and> notify_initial ''uuid:u1'' (update_id empty_catalog) (as_events st2) = ([n], em)
    \<and> map nt_sequence (filter (\<lambda>n. nt_sid n = ''uuid:u1'') (ns @ [n])) = [0, 1]"
proof -
  let ?req = "\<lparr>hr_method = ''SUBSCRIBE'', hr_path = [], hr_headers = example_headers, hr_body = [],
       hr_peer = V4 (10, 0, 0, 5)\<rparr>"
  let ?found = "\<lparr>scan_catalog = empty_catalog\<lparr>entries := [(''x'', example_root)], update_id := 7\<rparr>,
      unsettled_files = 0\<rparr>"
  obtain r st1 due where run: "event_request example_http_env ContentDirectory ?req
      (example_state empty_catalog) = (r, st1, due)" by (metis prod_cases3)
  have due: "due = Some (''uuid:u1'', update_id empty_catalog)"
    and st1: "as_events st1 = snd (example_subscribe (new_manager (10, 0, 0, 2)))"
      "as_catalog st1 = empty_catalog"
    using run example_subscribed
    by (auto simp: event_request_def example_http_env_def example_state_def example_subscribe_def)
  have sid: "hr_headers ?req ''sid'' = None" by (simp add: example_headers_def)
  have inv: "manager_inv (as_events st1)"
    unfolding st1 example_subscribe_def by (rule subscribe_inv [OF new_manager_inv])
  have changed: "\<not> has_same_content (as_catalog st1) (scan_catalog ?found)"
    by (simp add: st1 has_same_content_def empty_catalog_def hm_eq_def)
  have "1 \<le> unat (parse_timeout v)" for v
    using parse_timeout_bounds [of v] by (simp add: word_le_nat_alt)
  then have "1000000000 \<le> from_secs (parse_timeout v)" for v
    by (simp add: from_secs_def)
  then have soon: "he_later example_http_env + 10000000 <
      he_later example_http_env + from_secs (parse_timeout (hr_headers ?req ''timeout''))"
    by (rule add_strict_left_mono [OF order_less_le_trans, rotated]) simp
  obtain out ns st2 where rescan: "rescan_catalog (he_later example_http_env + 10000000)
      (Some (Inr (example_config, ?found))) st1 = (out, ns, st2)" by (metis prod_cases3)
  note both = initial_event [OF run [unfolded due] sid inv,
      of "he_later example_http_env + 10000000" example_config ?found out ns st2]
  from both [THEN conjunct1] obtain n0 em0 where first:
    "notify_initial ''uuid:u1'' (update_id empty_catalog) (as_events st1) = ([n0], em0)"
    "nt_sequence n0 = 0" by (elim exE conjE)
  from mp [OF mp [OF mp [OF both [THEN conjunct2] rescan] changed] soon] obtain n em where late:
    "notify_initial ''uuid:u1'' (update_id empty_catalog) (as_events st2) = ([n], em)"
    "map (\<lambda>n. (nt_sequence n, nt_body n)) (filter (\<lambda>n. nt_sid n = ''uuid:u1'') (ns @ [n])) =
      [(0, event_body ContentDirectory (update_id (as_catalog st2))),
       (1, event_body ContentDirectory (update_id (as_catalog st1)))]" by (elim exE conjE)
  have "map nt_sequence (filter (\<lambda>n. nt_sid n = ''uuid:u1'') (ns @ [n])) = [0, 1]"
    using arg_cong [OF late(2), of "map fst"] by (simp add: comp_def)
  with run [unfolded due] first rescan late(1) show ?thesis by (intro exI conjI)
qed

end
