(* ===== verification/Scanner_Properties.thy ===== *)
theory Scanner_Properties
  imports Rescan Data_Properties
begin

text \<open>
  The deadlines of the scanner as a state machine: when the loop of \<open>run_scanner\<close> scans, and what it
  waits for.
\<close>

section \<open>Runs\<close>

text \<open>
  \<open>enabled t wn ev\<close>: at time \<open>t\<close> the \<open>select!\<close> in state \<open>wn\<close> may receive \<open>ev\<close>: the sleep only ends at
  its deadline, and the watcher's channel is only read while there is a watcher.  The clock is
  monotone.
\<close>

fun enabled :: "instant \<Rightarrow> scanner_state \<Rightarrow> scanner_event \<Rightarrow> bool" where
  "enabled t wn (Timer res fs now t1 t2) = (t \<le> now \<and> next_scan wn \<le> now \<and> now \<le> t1 \<and> t1 \<le> t2)"
| "enabled t wn (FilesChanged ps now) = (wn_watching wn \<and> t \<le> now)"
| "enabled t wn (WatchFailed now) = (wn_watching wn \<and> t \<le> now)"
| "enabled t wn WatchClosed = wn_watching wn"
| "enabled t wn (ShutdownSeen v) = True"

fun clock_after :: "instant \<Rightarrow> scanner_event \<Rightarrow> instant" where
  "clock_after t (Timer res fs now t1 t2) = t2"
| "clock_after t (FilesChanged ps now) = now"
| "clock_after t (WatchFailed now) = now"
| "clock_after t _ = t"

text \<open>
  A run, with its events, the latest first, the clock, and the states of the scanner and of the
  server.  Requests are served in between; they leave the configuration alone.
\<close>

inductive scanner_run ::
  "scanner_env \<Rightarrow> scanner_event list \<Rightarrow> instant \<Rightarrow> scanner_state \<Rightarrow> app_state \<Rightarrow> bool" for we where
  start: "start_scanner we watcher fs t1 t2 n st = Some wn \<Longrightarrow> t1 \<le> t2 \<Longrightarrow> scanner_run we [] t2 wn st"
| event: "scanner_run we log t wn st \<Longrightarrow> enabled t wn ev \<Longrightarrow>
    scanner_step we ev wn st = Running wn' st' ns calls \<Longrightarrow>
    scanner_run we (ev # log) (clock_after t ev) wn' st'"
| request: "scanner_run we log t wn st \<Longrightarrow> as_config st' = as_config st \<Longrightarrow> scanner_run we log t wn st'"

text \<open>When something relevant happened since the last scan.\<close>

fun triggers :: "scanner_env \<Rightarrow> path list \<Rightarrow> scanner_event list \<Rightarrow> instant list" where
  "triggers we roots [] = []"
| "triggers we roots (Timer res fs now t1 t2 # log) = []"
| "triggers we roots (FilesChanged ps now # log) =
    (if event_is_relevant ps (we_config_path we) roots then [now] else []) @ triggers we roots log"
| "triggers we roots (WatchFailed now # log) = now # triggers we roots log"
| "triggers we roots (_ # log) = triggers we roots log"

section \<open>The invariant of the deadlines\<close>

definition deadlines_ok ::
  "scanner_env \<Rightarrow> scanner_event list \<Rightarrow> instant \<Rightarrow> scanner_state \<Rightarrow> config \<Rightarrow> bool" where
  "deadlines_ok we log t wn cfg =
    ((\<forall>u \<in> set (triggers we (map fst (wn_watched wn)) log).
        u \<le> t \<and> (\<exists>d. wn_settle wn = Some d \<and> u + settle_time cfg \<le> d))
     \<and> (\<forall>d. wn_settle wn = Some d \<longrightarrow> d \<le> t + settle_time cfg)
     \<and> wn_fallback wn \<le> t + rescan_interval cfg)"

lemma instant_add_Some: "instant_add t d = Some e \<Longrightarrow> e = t + d"
  by (simp add: instant_add_def split: if_splits)

lemma start_scanner_ok:
  assumes "start_scanner we watcher fs t1 t2 n st = Some wn" and "t1 \<le> t2"
  shows "deadlines_ok we [] t2 wn (as_config st)"
  using assms
  by (auto simp: start_scanner_def deadlines_ok_def bind_eq_Some_conv split: if_splits
      dest!: instant_add_Some)

lemma rescan_outcome_config:
  "rescan_catalog now res st = (outcome, ns, st') \<Longrightarrow>
    (case outcome of Some out \<Rightarrow> ro_config out = as_config st' | None \<Rightarrow> st' = st)"
  by (auto simp: rescan_catalog_def Let_def split: option.splits sum.splits prod.splits if_splits)

lemma timer_step_ok:
  assumes "timer_step we res fs now t1 t2 wn st = Running wn' st' ns calls" and "t1 \<le> t2"
  shows "deadlines_ok we (Timer res fs now t1 t2 # log) t2 wn' (as_config st')"
proof -
  obtain outcome ns0 st0 where r: "rescan_catalog now res st = (outcome, ns0, st0)"
    by (metis prod_cases3)
  note cfg = rescan_outcome_config [OF r]
  show ?thesis
    using assms cfg
    by (auto simp: timer_step_def r deadlines_ok_def split: option.splits prod.splits if_splits
        dest!: instant_add_Some)
qed

lemma queue_scan_ok:
  assumes "deadlines_ok we log t wn (as_config st)" and "t \<le> now"
    and "queue_scan now wn st = Running wn' st' ns calls"
  shows "st' = st \<and> wn_watched wn' = wn_watched wn
    \<and> wn_settle wn' = Some (now + settle_time (as_config st)) \<and> wn_fallback wn' = wn_fallback wn"
  using assms(3) by (auto simp: queue_scan_def split: option.splits dest!: instant_add_Some)

lemma deadlines_later:
  "deadlines_ok we log t wn cfg \<Longrightarrow> t \<le> t' \<Longrightarrow> deadlines_ok we log t' wn cfg"
  unfolding deadlines_ok_def by fastforce

lemma deadlines_queue:
  assumes "deadlines_ok we log t wn cfg" and "t \<le> now"
    and "wn_watched wn' = wn_watched wn" and "wn_settle wn' = Some (now + settle_time cfg)"
    and "wn_fallback wn' = wn_fallback wn"
    and "set (triggers we (map fst (wn_watched wn)) (ev # log))
      \<subseteq> insert now (set (triggers we (map fst (wn_watched wn)) log))"
  shows "deadlines_ok we (ev # log) now wn' cfg"
proof -
  have "u \<le> now" if "u \<in> set (triggers we (map fst (wn_watched wn)) (ev # log))" for u
  proof -
    have "u = now \<or> u \<in> set (triggers we (map fst (wn_watched wn)) log)" using assms(6) that by blast
    then show ?thesis using assms(1,2) unfolding deadlines_ok_def by fastforce
  qed
  then show ?thesis using assms by (auto simp: deadlines_ok_def)
qed

lemma scanner_step_ok:
  assumes inv: "deadlines_ok we log t wn (as_config st)" and "enabled t wn ev"
    and step: "scanner_step we ev wn st = Running wn' st' ns calls"
  shows "deadlines_ok we (ev # log) (clock_after t ev) wn' (as_config st')"
proof (cases ev)
  case (Timer res fs now t1 t2)
  then show ?thesis using assms timer_step_ok by (simp add: scanner_step_def)
next
  case (FilesChanged ps now)
  show ?thesis
  proof (cases "event_is_relevant ps (we_config_path we) (map fst (wn_watched wn))")
    case True
    then have q: "queue_scan now wn st = Running wn' st' ns calls" and t: "t \<le> now"
      using assms by (simp_all add: FilesChanged scanner_step_def)
    from queue_scan_ok [OF inv t q] show ?thesis
      using deadlines_queue [OF inv t, of wn' ev] by (auto simp: FilesChanged)
  next
    case False
    then show ?thesis
      using assms deadlines_later [OF inv, of now] by (simp add: FilesChanged scanner_step_def deadlines_ok_def)
  qed
next
  case (WatchFailed now)
  then have q: "queue_scan now wn st = Running wn' st' ns calls" and t: "t \<le> now"
    using assms by (simp_all add: scanner_step_def)
  from queue_scan_ok [OF inv t q] show ?thesis
    using deadlines_queue [OF inv t, of wn' ev] by (auto simp: WatchFailed)
next
  case WatchClosed
  then show ?thesis using inv step by (auto simp: scanner_step_def deadlines_ok_def)
next
  case (ShutdownSeen v)
  then show ?thesis using inv step by (auto simp: scanner_step_def deadlines_ok_def split: if_splits)
qed

lemma scanner_run_ok: "scanner_run we log t wn st \<Longrightarrow> deadlines_ok we log t wn (as_config st)"
  by (induction rule: scanner_run.induct) (auto intro: start_scanner_ok scanner_step_ok)

section \<open>Properties\<close>

text \<open>C15. The scanner waits for quiet and never waits for ever: in every run, the next scan is not due
  before every relevant change since the last scan, and every failure of the watcher, lies the settle
  time back, so no scan falls into a burst of writes; and it is due at the latest one settle time or
  one rescan interval, whichever is longer, after the last event.\<close>

theorem scanner_debounces:
  assumes "scanner_run we log t wn st"
  shows "(\<forall>u \<in> set (triggers we (map fst (wn_watched wn)) log).
      u + settle_time (as_config st) \<le> next_scan wn)
    \<and> next_scan wn \<le> t + max (settle_time (as_config st)) (rescan_interval (as_config st))"
  using scanner_run_ok [OF assms]
  by (auto simp: deadlines_ok_def next_scan_def split: option.splits)

definition example_scanner :: scanner_env where
  "example_scanner = \<lparr>we_config_path = [''c''], we_watch_ok = (\<lambda>_ _. True)\<rparr>"

theorem scanner_debounces_witness:
  "\<exists>wn st. scanner_run example_scanner [FilesChanged [] 7] 7 wn st \<and>
    7 + settle_time (as_config st) \<le> next_scan wn"
proof -
  obtain st :: app_state where st: "as_config st = example_config" by (metis app_state.select_convs(2))
  obtain wn where wn: "start_scanner example_scanner True example_fs 5 6 0 st = Some wn" "wn_watching wn"
    by (simp add: start_scanner_def st instant_add_def rescan_interval_def from_secs_def
        example_config_def default_scanner_def)
  have run: "scanner_run example_scanner [] 6 wn st" by (rule scanner_run.start [OF wn(1)]) simp
  let ?wn = "wn\<lparr>wn_settle := Some (7 + settle_time (as_config st))\<rparr>"
  have "scanner_step example_scanner (FilesChanged [] 7) wn st = Running ?wn st [] []"
    by (simp add: scanner_step_def event_is_relevant_def queue_scan_def instant_add_def st
        settle_time_def from_secs_def example_config_def default_scanner_def)
  from scanner_run.event [OF run _ this]
  have "scanner_run example_scanner [FilesChanged [] 7] 7 ?wn st" using wn(2) by simp
  with scanner_debounces [OF this] show ?thesis by (auto simp: event_is_relevant_def)
qed

text \<open>C38. A configuration can stop the scanner: intervals have no upper bound, so whatever
  configuration is accepted stays so with a rescan interval of \<open>2 ^ 63 - 1\<close> seconds; but once the
  machine has been up for a second the scanner then panics before its first scan, because the
  deadline is no instant.\<close>

theorem interval_overflow:
  assumes "validate to_lowercase fs cfg = Inr ()"
    and "1000000000 \<le> t1"
  defines "cfg' \<equiv> cfg\<lparr>scanner := (scanner cfg)\<lparr>rescan_interval_seconds := 2 ^ 63 - 1\<rparr>\<rparr>"
  shows "validate to_lowercase fs cfg' = Inr ()
    \<and> start_scanner we watcher fs t1 t2 n (st\<lparr>as_config := cfg'\<rparr>) = None"
proof -
  have "unat (2 ^ 63 - 1 :: u64) = 2 ^ 63 - 1" by simp
  then have "rescan_interval cfg' = (2 ^ 63 - 1) * 1000000000"
    by (simp add: rescan_interval_def from_secs_def cfg'_def)
  with assms(2) have "instant_add t1 (rescan_interval cfg') = None"
    by (simp add: instant_add_def)
  moreover have "validate to_lowercase fs cfg' = Inr ()"
    using assms(1) by (simp add: validate_def cfg'_def split: if_splits)
  ultimately show ?thesis by (simp add: start_scanner_def)
qed

theorem interval_overflow_witness:
  "\<forall>st. start_scanner example_scanner True example_fs 1000000000 1000000000 0
      (st\<lparr>as_config := example_config\<lparr>scanner :=
        (scanner example_config)\<lparr>rescan_interval_seconds := 2 ^ 63 - 1\<rparr>\<rparr>\<rparr>) = None"
proof -
  have "(1000000000 :: instant) \<le> 1000000000" by simp
  from interval_overflow [OF example_accepted this] show ?thesis by blast
qed

end
