(* ===== verification/Watch_Channel.thy ===== *)
theory Watch_Channel
  imports Scanner_Properties
begin

text \<open>
  How changes of files reach the scanner, from \<open>run_scanner\<close> of \<open>crates/joedlna-core/src/http.rs\<close>: the
  native watcher's callback puts its messages into a channel of 64 with \<open>try_send\<close>, which drops what
  does not fit, and the loop takes them out one at a time between its scans.

  A message comes with the instant it was offered at.  A rescan takes time: what is offered while it
  runs follows the \<open>Timer\<close> in the history, with instants from the rescan's start on.
\<close>

section \<open>The channel\<close>

datatype watch_message = Changed "path list" | WatchError

type_synonym waiting = "(instant \<times> watch_message) list"

definition watch_capacity :: nat where
  "watch_capacity = 64"

definition try_send :: "instant \<Rightarrow> watch_message \<Rightarrow> waiting \<Rightarrow> waiting" where
  "try_send a m q = (if length q < watch_capacity then q @ [(a, m)] else q)"

text \<open>What the loop makes of a message received at \<open>now\<close>.\<close>

definition message_event :: "watch_message \<Rightarrow> instant \<Rightarrow> scanner_event" where
  "message_event m now = (case m of Changed ps \<Rightarrow> FilesChanged ps now | WatchError \<Rightarrow> WatchFailed now)"

text \<open>The history, the latest first; an offer is recorded with whether it was accepted.\<close>

datatype watch_entry =
    Offered instant watch_message bool
  | Received instant watch_message instant
  | Stepped scanner_event

fun scanner_log :: "watch_entry list \<Rightarrow> scanner_event list" where
  "scanner_log [] = []"
| "scanner_log (Offered a m ok # h) = scanner_log h"
| "scanner_log (Received a m now # h) = message_event m now # scanner_log h"
| "scanner_log (Stepped ev # h) = ev # scanner_log h"

text \<open>
  Runs of the watcher and the scanner together: \<open>s\<close> is the instant of the last offer or the start of
  the last rescan, \<open>t\<close> the clock of the scanner.
\<close>

inductive watch_run ::
  "scanner_env \<Rightarrow> watch_entry list \<Rightarrow> waiting \<Rightarrow> instant \<Rightarrow> instant \<Rightarrow> scanner_state \<Rightarrow> app_state \<Rightarrow> bool"
  for we where
  start: "start_scanner we watcher fs t1 t2 n st = Some wn \<Longrightarrow> t1 \<le> t2 \<Longrightarrow>
    watch_run we [] [] s t2 wn st"
| offer: "watch_run we h q s t wn st \<Longrightarrow> wn_watching wn \<Longrightarrow> s \<le> a \<Longrightarrow>
    watch_run we (Offered a m (length q < watch_capacity) # h) (try_send a m q) a t wn st"
| receive: "watch_run we h ((a, m) # q) s t wn st \<Longrightarrow> wn_watching wn \<Longrightarrow> t \<le> now \<Longrightarrow> a \<le> now \<Longrightarrow>
    scanner_step we (message_event m now) wn st = Running wn' st' ns calls \<Longrightarrow>
    watch_run we (Received a m now # h) q s now wn' st'"
| scan: "watch_run we h q s t wn st \<Longrightarrow> enabled t wn (Timer res fs now t1 t2) \<Longrightarrow> s \<le> now \<Longrightarrow>
    scanner_step we (Timer res fs now t1 t2) wn st = Running wn' st' ns calls \<Longrightarrow>
    watch_run we (Stepped (Timer res fs now t1 t2) # h) q now t2 wn' st'"
| signal: "watch_run we h q s t wn st \<Longrightarrow>
    scanner_step we (ShutdownSeen v) wn st = Running wn' st' ns calls \<Longrightarrow>
    watch_run we (Stepped (ShutdownSeen v) # h) q s t wn' st'"
| request: "watch_run we h q s t wn st \<Longrightarrow> as_config st' = as_config st \<Longrightarrow> watch_run we h q s t wn st'"

section \<open>Accepted and received\<close>

fun accepted :: "watch_entry list \<Rightarrow> waiting" where
  "accepted [] = []"
| "accepted (Offered a m ok # h) = accepted h @ (if ok then [(a, m)] else [])"
| "accepted (_ # h) = accepted h"

fun received :: "watch_entry list \<Rightarrow> waiting" where
  "received [] = []"
| "received (Received a m now # h) = received h @ [(a, m)]"
| "received (_ # h) = received h"

text \<open>The entries after the start of the last rescan.\<close>

fun since_scan :: "watch_entry list \<Rightarrow> watch_entry list" where
  "since_scan [] = []"
| "since_scan (Stepped (Timer res fs now t1 t2) # h) = []"
| "since_scan (x # h) = x # since_scan h"

definition message_relevant :: "scanner_env \<Rightarrow> path list \<Rightarrow> watch_message \<Rightarrow> bool" where
  "message_relevant we roots m =
    (case m of Changed ps \<Rightarrow> event_is_relevant ps (we_config_path we) roots | WatchError \<Rightarrow> True)"

lemma watch_run_scanner:
  "watch_run we h q s t wn st \<Longrightarrow> scanner_run we (scanner_log h) t wn st"
proof (induction rule: watch_run.induct)
  case (receive h a m q s t wn st now wn' st' ns calls)
  have "enabled t wn (message_event m now)" "clock_after t (message_event m now) = now"
    using receive.hyps by (cases m; simp add: message_event_def)+
  with scanner_run.event [OF receive.IH _ receive.hyps(5)] show ?case by simp
next
  case (scan h q s t wn st res fs now t1 t2 wn' st' ns calls)
  from scanner_run.event [OF scan.IH scan.hyps(2,4)] show ?case by simp
next
  case (signal h q s t wn st v wn' st' ns calls)
  have "enabled t wn (ShutdownSeen v)" by simp
  from scanner_run.event [OF signal.IH this signal.hyps(2)] show ?case by simp
qed (auto intro: scanner_run.intros)

lemma watch_run_queue:
  "watch_run we h q s t wn st \<Longrightarrow>
    accepted h = received h @ q \<and> length q \<le> watch_capacity
    \<and> (\<forall>x \<in> set (accepted (since_scan h)). x \<in> set q \<or> x \<in> set (received (since_scan h)))"
  by (induction rule: watch_run.induct) (auto simp: try_send_def)

text \<open>What was received since the scan began made the scanner wait.\<close>

lemma received_trigger:
  "watch_run we h q s t wn st \<Longrightarrow> (a, m) \<in> set (received (since_scan h)) \<Longrightarrow>
    message_relevant we roots m \<Longrightarrow> \<exists>u \<in> set (triggers we roots (scanner_log h)). a \<le> u"
proof (induction rule: watch_run.induct)
  case (receive h a' m' q s t wn st now wn' st' ns calls)
  have "now \<in> set (triggers we roots (message_event m' now # scanner_log h))" if "message_relevant we roots m'"
    using that by (auto simp: message_event_def message_relevant_def split: watch_message.splits)
  moreover have "set (triggers we roots (scanner_log h))
      \<subseteq> set (triggers we roots (message_event m' now # scanner_log h))"
    by (cases m') (auto simp: message_event_def)
  ultimately show ?case using receive by auto
qed auto

section \<open>Property\<close>

text \<open>C16. No change that fits the channel is lost: messages are received in the order they were accepted,
  never more than 64 wait, and a relevant one that was accepted after the last scan began is either
  still waiting or has a scan scheduled, which is not due before the settle time has passed since it
  was offered.\<close>

theorem changes_noticed:
  assumes "watch_run we h q s t wn st"
  shows "accepted h = received h @ q \<and> length q \<le> 64
    \<and> (\<forall>(a, m) \<in> set (accepted (since_scan h)).
        message_relevant we (map fst (wn_watched wn)) m \<longrightarrow>
        (a, m) \<in> set q
        \<or> (wn_settle wn = Some (next_scan wn) \<and> a + settle_time (as_config st) \<le> next_scan wn))"
proof -
  have "wn_settle wn = Some (next_scan wn) \<and> a + settle_time (as_config st) \<le> next_scan wn"
    if m: "(a, m) \<in> set (received (since_scan h))" "message_relevant we (map fst (wn_watched wn)) m" for a m
  proof -
    obtain u where u: "u \<in> set (triggers we (map fst (wn_watched wn)) (scanner_log h))" "a \<le> u"
      using received_trigger [OF assms m] by blast
    with scanner_run_ok [OF watch_run_scanner [OF assms]] show ?thesis
      by (fastforce simp: deadlines_ok_def next_scan_def)
  qed
  then show ?thesis using watch_run_queue [OF assms] unfolding watch_capacity_def by blast
qed

theorem changes_noticed_witness:
  "\<exists>h wn st. watch_run example_scanner h [] 7 8 wn st \<and> accepted (since_scan h) = [(7, Changed [])]
    \<and> 7 + settle_time (as_config st) \<le> next_scan wn"
proof -
  obtain st :: app_state where st: "as_config st = example_config" by (metis app_state.select_convs(2))
  obtain wn where wn: "start_scanner example_scanner True example_fs 5 6 0 st = Some wn" "wn_watching wn"
    by (simp add: start_scanner_def st instant_add_def rescan_interval_def from_secs_def
        example_config_def default_scanner_def)
  let ?wn = "wn\<lparr>wn_settle := Some (8 + settle_time (as_config st))\<rparr>"
  let ?h = "[Received 7 (Changed []) 8, Offered 7 (Changed []) True]"
  have begun: "watch_run example_scanner [] [] 6 6 wn st" by (rule watch_run.start [OF wn(1)]) simp
  have offered: "watch_run example_scanner [Offered 7 (Changed []) True] [(7, Changed [])] 7 6 wn st"
    using watch_run.offer [OF begun wn(2), of 7 "Changed []"] by (simp add: try_send_def watch_capacity_def)
  have "scanner_step example_scanner (message_event (Changed []) 8) wn st = Running ?wn st [] []"
    by (simp add: message_event_def scanner_step_def event_is_relevant_def queue_scan_def instant_add_def
        st settle_time_def from_secs_def example_config_def default_scanner_def)
  from watch_run.receive [OF offered wn(2) _ _ this]
  have run: "watch_run example_scanner ?h [] 7 8 ?wn st" by simp
  from changes_noticed [OF run] have "7 + settle_time (as_config st) \<le> next_scan ?wn"
    by (simp add: message_relevant_def event_is_relevant_def)
  with run show ?thesis by (intro exI [of _ ?h] exI [of _ ?wn] exI [of _ st]) simp
qed

section \<open>A full channel\<close>

lemma offers_fill:
  assumes "watch_run we h [] s t wn st" and "wn_watching wn" and "s \<le> a" and "k \<le> watch_capacity"
  shows "\<exists>h' s'. s' \<le> a \<and> watch_run we h' (replicate k (a, m)) s' t wn st"
  using assms(4)
proof (induction k)
  case 0
  then show ?case using assms(1,3) by auto
next
  case (Suc k)
  then obtain h' s' where run: "s' \<le> a" "watch_run we h' (replicate k (a, m)) s' t wn st" by auto
  have "try_send a m (replicate k (a, m)) = replicate (Suc k) (a, m)"
    using Suc.prems by (simp add: try_send_def replicate_append_same)
  with watch_run.offer [OF run(2) assms(2) run(1), of m] show ?case by (metis order_refl)
qed

lemma receipts_drain:
  assumes "watch_run we h (replicate k (a, x)) s t wn st" and "wn_watching wn" and "t \<le> a"
    and "\<not> message_relevant we (map fst (wn_watched wn)) x"
  shows "\<exists>h' t'. t' \<le> a \<and> watch_run we (h' @ h) [] s t' wn st"
  using assms(1,3)
proof (induction k arbitrary: h t)
  case 0
  then show ?case by (metis append_Nil replicate_0)
next
  case (Suc k)
  have "scanner_step we (message_event x a) wn st = Running wn st [] []"
    using assms(4) by (cases x) (simp_all add: message_event_def message_relevant_def scanner_step_def)
  from watch_run.receive [OF _ assms(2) Suc.prems(2) order_refl this] Suc.prems(1)
  have "watch_run we (Received a x a # h) (replicate k (a, x)) s a wn st" by simp
  from Suc.IH [OF this order_refl] obtain h' t' where
    "t' \<le> a" "watch_run we (h' @ Received a x a # h) [] s t' wn st" by blast
  then show ?case by (metis append_Cons append_Nil append_assoc)
qed

text \<open>A burst can hide a change until the periodic scan: whenever the channel is empty and a change
  can be irrelevant, there is a run in which 64 such messages come first, so that a message of any
  kind is dropped, and when all have been received the scanner is in the state it was in, with the
  next scan due when it was due before.\<close>

theorem change_missed:
  assumes "watch_run we h [] s t wn st" and "wn_watching wn" and "s \<le> a" and "t \<le> a"
    and "\<not> message_relevant we (map fst (wn_watched wn)) x"
  shows "\<exists>h' s' t'. watch_run we h' [] s' t' wn st \<and> Offered a m False \<in> set h'"
proof -
  obtain h1 s1 where full: "s1 \<le> a" "watch_run we h1 (replicate watch_capacity (a, x)) s1 t wn st"
    using offers_fill [OF assms(1-3) order_refl] by blast
  have "watch_run we (Offered a m False # h1) (replicate watch_capacity (a, x)) a t wn st"
    using watch_run.offer [OF full(2) assms(2) full(1), of m] by (simp add: try_send_def)
  from receipts_drain [OF this assms(2,4,5)] obtain h2 t2 where
    "watch_run we (h2 @ Offered a m False # h1) [] a t2 wn st" by blast
  then show ?thesis by (metis in_set_conv_decomp)
qed

end
