(* ===== verification/Server.thy ===== *)
theory Server
  imports Rescan_Facts Ssdp
begin

text \<open>
  The composition of the server, from \<open>serve\<close> of \<open>crates/joedlna-core/src/http.rs\<close>: how it starts,
  how its tasks share the state, and what it returns.

  \<open>host\<close> is what \<open>serve\<close> asks the machine: the address of a probing socket, the file system, the port
  a socket got, the output of \<open>hostname\<close> with its success, the environment, the canonical form and
  the bytes of the configuration's path, version 5 UUIDs, the reading of the file of bookmarks.
  \<open>served\<close> relates the states reached: requests, spawned initial notifications and rescans happen
  in any order, one at a time, as the locks have it; the file system and the configuration file may
  change between rescans.
\<close>

section \<open>Starting\<close>

datatype join_error = Cancelled | TaskPanicked

datatype server_error =
    ScanFailed scan_error
  | ScanTask join_error
  | BindHttp io_error
  | HttpFailed io_error
  | SsdpFailed ssdp_error
  | BookmarksFailed bookmark_error
  | NoInterface

record host =
  ho_probe :: "ip_addr option"
  ho_fs :: file_system
  ho_bind :: "u16 \<Rightarrow> io_error + u16"
  ho_hostname :: "(bool \<times> string) option"
  ho_env :: "string \<Rightarrow> string option"
  ho_canonicalize :: "path \<Rightarrow> path option"
  ho_os_str :: "path \<Rightarrow> string"
  ho_uuid5 :: "string \<Rightarrow> string"
  ho_from_toml :: "string \<Rightarrow> string + positions"
  ho_read_fault :: "disk_error option"

text \<open>The address a socket got that was connected to a documentation address.\<close>

definition is_loopback :: "ipv4 \<Rightarrow> bool" where
  "is_loopback ip = (fst ip = 127)"

definition detect_local_ipv4 :: "host \<Rightarrow> ipv4 option" where
  "detect_local_ipv4 ho =
    (case ho_probe ho of
       Some (V4 address) \<Rightarrow> if \<not> is_loopback address then Some address else None
     | _ \<Rightarrow> None)"

definition host_identity :: "host \<Rightarrow> string" where
  "host_identity ho =
    (case ho_hostname ho of
       Some (True, stdout) \<Rightarrow> stdout
     | _ \<Rightarrow>
       (case List.find (\<lambda>name. ho_env ho name \<noteq> None) [''HOSTNAME'', ''COMPUTERNAME''] of
          Some name \<Rightarrow> the (ho_env ho name)
        | None \<Rightarrow> []))"

definition stable_udn :: "host \<Rightarrow> path \<Rightarrow> string" where
  "stable_udn ho config_path =
    (let absolute =
       (case ho_canonicalize ho config_path of
          Some p \<Rightarrow> abs_os_str p
        | None \<Rightarrow> ho_os_str ho config_path)
     in ''uuid:'' @ ho_uuid5 ho (host_identity ho @ absolute))"

record started =
  sv_app :: app_state
  sv_unsettled :: nat
  sv_interface :: ipv4
  sv_port :: u16

definition base_url_of :: "ipv4 \<Rightarrow> u16 \<Rightarrow> string" where
  "base_url_of interface port = ''http://'' @ show_ipv4 interface @ '':'' @ show_word port"

definition bookmark_path :: "path \<Rightarrow> path" where
  "bookmark_path config_path =
    (case path_parent config_path of None \<Rightarrow> [''.''] | Some p \<Rightarrow> p) @ [''bookmarks.toml'']"

text \<open>\<open>None\<close> is a first scan that does not return.\<close>

definition start_server :: "host \<Rightarrow> path \<Rightarrow> config \<Rightarrow> files \<Rightarrow> (server_error + started) option" where
  "start_server ho config_path cfg fs =
    (case ok_or
        (case interface_addr (network cfg) of Some i \<Rightarrow> Some i | None \<Rightarrow> detect_local_ipv4 ho) NoInterface of
       Inl e \<Rightarrow> Some (Inl e)
     | Inr addr \<Rightarrow>
       bind_scan (map_option (map_err ScanFailed) (scan_settled (ho_fs ho) cfg)) (\<lambda>first_scan.
       Some
         (bind_result (map_err BindHttp (ho_bind ho (http_port (network cfg)))) (\<lambda>port.
          bind_result
            (map_err BookmarksFailed
              (load_bookmarks (ho_from_toml ho) (ho_read_fault ho) (bookmark_path config_path) fs))
            (\<lambda>store.
              Inr
                \<lparr>sv_app =
                   \<lparr>as_catalog = scan_catalog first_scan, as_config = cfg,
                    as_base_url = base_url_of addr port, as_udn = stable_udn ho config_path,
                    as_events = new_manager addr, as_bookmarks = store\<rparr>,
                 sv_unsettled = unsettled_files first_scan,
                 sv_interface = addr, sv_port = port\<rparr>)))))"

section \<open>The end\<close>

definition map_runtime_results ::
  "io_error + unit \<Rightarrow> join_error + (ssdp_error + unit) \<Rightarrow> server_error + unit" where
  "map_runtime_results http_result ssdp_result =
    (case ssdp_result of
       Inr (Inr _) \<Rightarrow> map_err HttpFailed http_result
     | Inr (Inl e) \<Rightarrow> Inl (SsdpFailed e)
     | Inl e \<Rightarrow> if e = Cancelled then map_err HttpFailed http_result else Inl (ScanTask e))"

text \<open>
  Whether waiting for the flag ends with the changes seen so far; \<open>None\<close> is a sender that is gone.
\<close>

fun wait_for_shutdown :: "bool \<Rightarrow> bool option list \<Rightarrow> bool" where
  "wait_for_shutdown True changes = True"
| "wait_for_shutdown False [] = False"
| "wait_for_shutdown False (None # changes) = True"
| "wait_for_shutdown False (Some v # changes) = wait_for_shutdown v changes"

definition shutdown_signal :: "bool \<Rightarrow> bool \<Rightarrow> bool option list \<Rightarrow> bool" where
  "shutdown_signal ctrl_c flag changes = (ctrl_c \<or> wait_for_shutdown flag changes)"

text \<open>
  The task of discovery: what it sends, and its result if it ends; it panics on a zero period after
  the first announcements.
\<close>

definition ssdp_task ::
  "socket_faults \<Rightarrow> ipv4 \<Rightarrow> u16 \<Rightarrow> string \<Rightarrow> u32 \<Rightarrow> ssdp_event list \<Rightarrow>
    ssdp_output list \<times> (join_error + (ssdp_error + unit)) option" where
  "ssdp_task faults interface port udn max_age evs =
    (case create_socket faults interface of
       Inl e \<Rightarrow> ([], Some (Inr (Inl e)))
     | Inr _ \<Rightarrow>
       (case run_ssdp interface port udn max_age evs of
          None \<Rightarrow> (send_alive (new_ssdp_server interface port udn max_age), Some (Inl TaskPanicked))
        | Some (out, stopped) \<Rightarrow> (out, if stopped then Some (Inr (Inr ())) else None)))"

text \<open>
  The \<open>select!\<close> of \<open>serve\<close>.  \<open>http\<close> is axum's server: what it returns, if it does, given whether its
  shutdown signal has come.  \<open>evs\<close> is what discovery sees before the HTTP server ends.  Whichever task
  ends first, the flag is raised, which is a change to discovery and the signal to the HTTP server, and
  the other task is awaited.  The result is \<open>None\<close> as long as the server goes on.
\<close>

definition run_tasks ::
  "socket_faults \<Rightarrow> ipv4 \<Rightarrow> u16 \<Rightarrow> string \<Rightarrow> u32 \<Rightarrow> ssdp_event list \<Rightarrow> bool \<Rightarrow>
    (bool \<Rightarrow> (io_error + unit) option) \<Rightarrow> ssdp_output list \<times> (server_error + unit) option" where
  "run_tasks faults interface port udn max_age evs ctrl_c http =
    (case ssdp_task faults interface port udn max_age evs of
       (out, Some ssdp_result) \<Rightarrow>
         (out, map_option (\<lambda>http_result. map_runtime_results http_result ssdp_result)
            (http (shutdown_signal ctrl_c False [Some True])))
     | (out, None) \<Rightarrow>
       (case http (shutdown_signal ctrl_c False []) of
          None \<Rightarrow> (out, None)
        | Some http_result \<Rightarrow>
          (case ssdp_task faults interface port udn max_age (evs @ [ShutdownChanged (Some True)]) of
             (out, ssdp_result) \<Rightarrow> (out, map_option (map_runtime_results http_result) ssdp_result))))"

text \<open>All of \<open>serve\<close>: what discovery does, and the result once both tasks have ended.\<close>

definition serve ::
  "host \<Rightarrow> path \<Rightarrow> config \<Rightarrow> files \<Rightarrow> socket_faults \<Rightarrow> ssdp_event list \<Rightarrow> bool \<Rightarrow>
    (bool \<Rightarrow> (io_error + unit) option) \<Rightarrow> (ssdp_output list \<times> (server_error + unit) option) option" where
  "serve ho config_path cfg fs faults evs ctrl_c http =
    map_option
      (\<lambda>r. case r of
          Inl e \<Rightarrow> ([], Some (Inl e))
        | Inr s \<Rightarrow>
          run_tasks faults (sv_interface s) (sv_port s) (as_udn (sv_app s))
            (ssdp_max_age_seconds (network cfg)) evs ctrl_c http)
      (start_server ho config_path cfg fs)"

section \<open>Serving\<close>

definition add_due :: "scheduled \<Rightarrow> (string \<times> u32) list \<Rightarrow> (string \<times> u32) list" where
  "add_due s due = (case s of None \<Rightarrow> due | Some x \<Rightarrow> due @ [x])"

inductive served :: "app_state \<Rightarrow> app_state \<Rightarrow> disk \<Rightarrow> (string \<times> u32) list \<Rightarrow> bool" for st0 where
  start: "served st0 st0 d []"
| request: "served st0 st d due \<Longrightarrow> handle_request env req st d = (r, st', d', s) \<Longrightarrow>
    served st0 st' d' (add_due s due)"
| initial: "served st0 st d due \<Longrightarrow> (sid, u) \<in> set due \<Longrightarrow>
    notify_initial sid u (as_events st) = (ns, em) \<Longrightarrow>
    served st0 (st\<lparr>as_events := em\<rparr>) d (remove1 (sid, u) due)"
| rescan: "served st0 st d due \<Longrightarrow>
    rescan_catalog now (reload read_to_string parse_toml to_lowercase fs config_file) st =
      (out, ns, st') \<Longrightarrow>
    served st0 st' d due"

section \<open>The invariant\<close>

text \<open>
  The published catalog is a finished one and is, entry by entry, what a scan of the current
  configuration found; the tables are well-formed; address, identifier and interface stay.
\<close>

definition catalog_current :: "app_state \<Rightarrow> bool" where
  "catalog_current st =
    (\<exists>fs r. scan_settled fs (as_config st) = Some (Inr r)
      \<and> catalog_entry (as_catalog st) = catalog_entry (scan_catalog r))"

definition server_inv :: "app_state \<Rightarrow> app_state \<Rightarrow> bool" where
  "server_inv st0 st =
    (finished (as_catalog st) \<and> catalog_current st \<and> manager_inv (as_events st)
     \<and> bt_ok (snapshot (as_bookmarks st))
     \<and> em_interface (as_events st) = em_interface (as_events st0)
     \<and> as_base_url st = as_base_url st0 \<and> as_udn st = as_udn st0
     \<and> bs_path (as_bookmarks st) = bs_path (as_bookmarks st0))"

text \<open>What a request may change: the subscriptions and the bookmarks.\<close>

definition request_keeps :: "app_state \<Rightarrow> app_state \<Rightarrow> bool" where
  "request_keeps st st' =
    (as_catalog st' = as_catalog st \<and> as_config st' = as_config st
     \<and> as_base_url st' = as_base_url st \<and> as_udn st' = as_udn st
     \<and> em_interface (as_events st') = em_interface (as_events st)
     \<and> bs_path (as_bookmarks st') = bs_path (as_bookmarks st)
     \<and> (manager_inv (as_events st) \<longrightarrow> manager_inv (as_events st'))
     \<and> (bt_ok (bs_positions (as_bookmarks st)) \<longrightarrow> bt_ok (bs_positions (as_bookmarks st'))))"

lemma request_keeps_refl [simp]: "request_keeps st st"
  by (simp add: request_keeps_def)

lemma request_keeps_events:
  "em_interface em = em_interface (as_events st) \<Longrightarrow> (manager_inv (as_events st) \<Longrightarrow> manager_inv em) \<Longrightarrow>
    request_keeps st (st\<lparr>as_events := em\<rparr>)"
  by (simp add: request_keeps_def)

lemma set_bookmark_keeps:
  assumes "set_bookmark env args st d = (r, st', d')"
  shows "request_keeps st st'"
proof -
  have "request_keeps st (st\<lparr>as_bookmarks := store\<rparr>)"
    if "set_position to_toml windows f obj position (as_bookmarks st) d = (x, store, d'')"
    for to_toml windows f obj position x store d''
    using set_position_memory [OF that] by (simp add: request_keeps_def update_position_ok)
  then show ?thesis using assms
    by (auto simp: set_bookmark_def Let_def split: option.splits if_splits prod.splits sum.splits)
qed

lemma event_request_keeps:
  assumes "event_request env service req st = (r, st', due)"
  shows "request_keeps st st'"
proof -
  have sub: "request_keeps st (st\<lparr>as_events := em\<rparr>)"
    if "subscribe now later uuid service headers requester (as_events st) = (x, em)"
    for now later uuid headers requester x em
    using that event_step_interface [of "Subscribe now later uuid service headers requester" "as_events st"]
      subscribe_inv [of "as_events st" now later uuid service headers requester]
    by (intro request_keeps_events) simp_all
  have unsub: "request_keeps st (st\<lparr>as_events := em\<rparr>)"
    if "unsubscribe service headers (as_events st) = (x, em)" for headers x em
    using that event_step_interface [of "Unsubscribe service headers" "as_events st"]
      unsubscribe_inv [of "as_events st" service headers]
    by (intro request_keeps_events) simp_all
  show ?thesis using assms sub unsub
    by (auto simp: event_request_def split: if_splits ip_addr.splits prod.splits sum.splits)
qed

lemma content_directory_control_keeps:
  "content_directory_control env headers body st d = (r, st', d') \<Longrightarrow> request_keeps st st'"
  by (auto simp: content_directory_control_def split: sum.splits prod.splits if_splits
      intro: set_bookmark_keeps)

lemma handle_request_keeps:
  assumes "handle_request env req st d = (r, st', d', s)"
  shows "request_keeps st st'"
proof -
  have "request_keeps st x" if "run_handler h env req st d = (q, x, y, z)" for h q x y z
    using that
    by (cases h)
      (auto simp: run_handler_def split: prod.splits
        intro: content_directory_control_keeps event_request_keeps)
  then show ?thesis using assms
    by (auto simp: handle_request_def split: option.splits prod.splits if_splits)
qed

text \<open>How a started server looks.\<close>

lemma start_server_Inr:
  assumes "start_server ho config_path cfg fs = Some (Inr s)"
  obtains first_scan store where "scan_settled (ho_fs ho) cfg = Some (Inr first_scan)"
    and "load_bookmarks (ho_from_toml ho) (ho_read_fault ho) (bookmark_path config_path) fs = Inr store"
    and "ho_bind ho (http_port (network cfg)) = Inr (sv_port s)"
    and "sv_app s =
      \<lparr>as_catalog = scan_catalog first_scan, as_config = cfg,
       as_base_url = base_url_of (sv_interface s) (sv_port s), as_udn = stable_udn ho config_path,
       as_events = new_manager (sv_interface s), as_bookmarks = store\<rparr>"
    and "sv_unsettled s = unsettled_files first_scan"
proof -
  let ?addr = "ok_or (case interface_addr (network cfg) of Some i \<Rightarrow> Some i | None \<Rightarrow> detect_local_ipv4 ho)
    NoInterface"
  obtain addr where addr: "?addr = Inr addr"
    using assms by (cases ?addr) (simp_all add: start_server_def)
  obtain x where scan: "scan_settled (ho_fs ho) cfg = Some x"
    using assms addr by (cases "scan_settled (ho_fs ho) cfg") (simp_all add: start_server_def bind_scan_def)
  then obtain res where "x = Inr res"
    using assms addr by (cases x) (simp_all add: start_server_def bind_scan_def)
  with assms addr scan show thesis
    by (auto simp: start_server_def bind_scan_def result_splits map_err_Inr_iff intro!: that)
qed

lemma started_address:
  "start_server ho config_path cfg fs = Some (Inr s) \<Longrightarrow>
    as_base_url (sv_app s) = base_url_of (sv_interface s) (sv_port s)"
  by (erule start_server_Inr) simp

lemma started_inv:
  assumes "start_server ho config_path cfg fs = Some (Inr s)"
    and read: "\<And>t m. ho_from_toml ho t = Inr m \<Longrightarrow> bt_ok m"
  shows "server_inv (sv_app s) (sv_app s)"
  using assms(1)
proof (cases rule: start_server_Inr)
  case (1 first_scan store)
  have "finished (scan_catalog first_scan)"
    using 1(1) unfolding scan_settled_def by (rule scanned_catalog_finished)
  moreover have "bt_ok (bs_positions store)"
    using load_reads_ok [OF _ 1(2)] read by blast
  moreover have "catalog_current (sv_app s)" using 1(1,4) by (auto simp: catalog_current_def)
  ultimately show ?thesis using new_manager_inv 1(4) by (simp add: server_inv_def snapshot_def)
qed

end
