(* ===== verification/Interleaving.thy ===== *)
theory Interleaving
  imports Server
begin

text \<open>
  The tasks of \<open>crates/joedlna-core/src/http.rs\<close> at the grain of their awaits.  \<open>served\<close> lets a
  request or a rescan run to its end; here, a subscription is granted (\<open>event_request\<close>), then the
  update identifier is read for the initial notification, then that is sent; and a rescan
  (\<open>rescan_catalog\<close>) replaces the catalog, then notifies, then replaces the configuration.  Anything
  may happen between two of these steps.

  \<open>interleaved\<close> are the states reached, with every notification made so far in \<open>tk_sent\<close>.  The
  invariant \<open>updates_tracked\<close> says that the current update identifier is on its way to every
  subscriber of the content directory or has been sent to it.
\<close>

section \<open>Tasks\<close>

text \<open>What a granted subscription still has to do.\<close>

datatype pending = Granted string | Due string u32

text \<open>Where the scanner is in a rescan that has read what it needs.\<close>

datatype rescan_point = Waiting | Publishing u32 config | Replacing config

record tasks =
  tk_app :: app_state
  tk_disk :: disk
  tk_pending :: "pending list"
  tk_rescan :: rescan_point
  tk_sent :: "notification_msg list"

definition granted :: "scheduled \<Rightarrow> pending list" where
  "granted s = (case s of None \<Rightarrow> [] | Some (sid, _) \<Rightarrow> [Granted sid])"

definition run_request :: "http_env \<Rightarrow> http_request \<Rightarrow> tasks \<Rightarrow> tasks" where
  "run_request env req tk =
    (case handle_request env req (tk_app tk) (tk_disk tk) of
       (r, st', d', s) \<Rightarrow>
         tk\<lparr>tk_app := st', tk_disk := d', tk_pending := tk_pending tk @ granted s\<rparr>)"

definition read_update :: "string \<Rightarrow> tasks \<Rightarrow> tasks" where
  "read_update sid tk =
    tk\<lparr>tk_pending := remove1 (Granted sid) (tk_pending tk)
        @ [Due sid (update_id (as_catalog (tk_app tk)))]\<rparr>"

definition send_initial :: "string \<Rightarrow> u32 \<Rightarrow> tasks \<Rightarrow> tasks" where
  "send_initial sid u tk =
    (case notify_initial sid u (as_events (tk_app tk)) of
       (ns, em) \<Rightarrow>
         tk\<lparr>tk_app := (tk_app tk)\<lparr>as_events := em\<rparr>, tk_sent := tk_sent tk @ ns,
            tk_pending := remove1 (Due sid u) (tk_pending tk)\<rparr>)"

definition publish_catalog :: "config \<Rightarrow> catalog_scan \<Rightarrow> tasks \<Rightarrow> tasks" where
  "publish_catalog cfg res tk =
    (if \<not> has_same_content (as_catalog (tk_app tk)) (scan_catalog res)
     then tk\<lparr>tk_app := (tk_app tk)\<lparr>as_catalog := scan_catalog res\<rparr>,
             tk_rescan := Publishing (update_id (scan_catalog res)) cfg\<rparr>
     else tk\<lparr>tk_rescan := Replacing cfg\<rparr>)"

definition notify_change :: "instant \<Rightarrow> u32 \<Rightarrow> config \<Rightarrow> tasks \<Rightarrow> tasks" where
  "notify_change now u cfg tk =
    (case notify_content_changed now u (as_events (tk_app tk)) of
       (ns, em) \<Rightarrow>
         tk\<lparr>tk_app := (tk_app tk)\<lparr>as_events := em\<rparr>, tk_sent := tk_sent tk @ ns,
            tk_rescan := Replacing cfg\<rparr>)"

definition replace_config :: "config \<Rightarrow> tasks \<Rightarrow> tasks" where
  "replace_config cfg tk =
    tk\<lparr>tk_app := (tk_app tk)\<lparr>as_config := cfg\<rparr>, tk_rescan := Waiting\<rparr>"

text \<open>A step that something is waiting for, and any step.\<close>

inductive internal :: "tasks \<Rightarrow> tasks \<Rightarrow> bool" where
  reads: "Granted sid \<in> set (tk_pending tk) \<Longrightarrow> internal tk (read_update sid tk)"
| sends: "Due sid u \<in> set (tk_pending tk) \<Longrightarrow> internal tk (send_initial sid u tk)"
| notifies: "tk_rescan tk = Publishing u cfg \<Longrightarrow> internal tk (notify_change now u cfg tk)"
| replaces: "tk_rescan tk = Replacing cfg \<Longrightarrow> internal tk (replace_config cfg tk)"

inductive interleaved :: "app_state \<Rightarrow> disk \<Rightarrow> tasks \<Rightarrow> bool" for st0 d0 where
  start: "interleaved st0 d0
    \<lparr>tk_app = st0, tk_disk = d0, tk_pending = [], tk_rescan = Waiting, tk_sent = []\<rparr>"
| request: "interleaved st0 d0 tk \<Longrightarrow> interleaved st0 d0 (run_request env req tk)"
| publish: "interleaved st0 d0 tk \<Longrightarrow> tk_rescan tk = Waiting \<Longrightarrow>
    reload read_to_string parse_toml to_lowercase fs config_file = Some (Inr (cfg, res)) \<Longrightarrow>
    interleaved st0 d0 (publish_catalog cfg res tk)"
| internal: "interleaved st0 d0 tk \<Longrightarrow> internal tk tk' \<Longrightarrow> interleaved st0 d0 tk'"

section \<open>No update is lost\<close>

definition was_sent :: "string \<Rightarrow> u32 \<Rightarrow> notification_msg list \<Rightarrow> bool" where
  "was_sent sid u ns = (\<exists>n \<in> set ns. nt_sid n = sid \<and> nt_body n = event_body ContentDirectory u)"

definition current_update :: "tasks \<Rightarrow> u32" where
  "current_update tk = update_id (as_catalog (tk_app tk))"

definition listens :: "event_manager \<Rightarrow> string \<Rightarrow> bool" where
  "listens em sid = (map_option sub_service (hm_get (em_subscriptions em) sid) = Some ContentDirectory)"

definition on_its_way :: "tasks \<Rightarrow> string \<Rightarrow> bool" where
  "on_its_way tk sid =
    (Granted sid \<in> set (tk_pending tk) \<or> Due sid (current_update tk) \<in> set (tk_pending tk)
     \<or> (\<exists>cfg. tk_rescan tk = Publishing (current_update tk) cfg))"

definition updates_tracked :: "tasks \<Rightarrow> bool" where
  "updates_tracked tk =
    (manager_inv (as_events (tk_app tk))
     \<and> (\<forall>u cfg. tk_rescan tk = Publishing u cfg \<longrightarrow> u = current_update tk)
     \<and> (\<forall>sid. listens (as_events (tk_app tk)) sid \<longrightarrow>
          on_its_way tk sid \<or> was_sent sid (current_update tk) (tk_sent tk)))"

lemma was_sent_append: "was_sent sid u (ns @ ms) \<longleftrightarrow> was_sent sid u ns \<or> was_sent sid u ms"
  by (auto simp: was_sent_def)

lemma listens_iff:
  "listens em sid \<longleftrightarrow> (\<exists>s. hm_get (em_subscriptions em) sid = Some s \<and> sub_service s = ContentDirectory)"
  by (auto simp: listens_def)

lemma listens_prune:
  "manager_inv em \<Longrightarrow> listens (em\<lparr>em_subscriptions := prune_expired now (em_subscriptions em)\<rparr>) sid \<Longrightarrow>
    listens em sid"
  by (auto simp: listens_iff prune_get [OF manager_inv_ok])

text \<open>A request only adds a listener when it is granted a subscription.\<close>

lemma subscribe_listens:
  assumes "subscribe now later uuid service headers requester em = (r, em')" and inv: "manager_inv em"
    and "listens em' sid"
  shows "listens em sid \<or> (\<exists>sub. r = Inr sub \<and> sr_is_new sub \<and> sr_sid sub = sid)"
proof (cases "headers ''sid''")
  case None
  then show ?thesis
  proof (cases rule: subscribe_new_cases [where em = em and requester = requester and now = now
        and later = later and uuid = uuid and service = service])
    case (granted v cb)
    then show ?thesis using assms
      by (auto simp: subscribe_new [OF None granted(1-5)] listens_def split: if_splits)
  qed (use assms in simp)
next
  case (Some sid')
  then show ?thesis
  proof (cases rule: subscribe_renew_cases [where em = em and requester = requester and now = now
        and later = later and uuid = uuid and service = service])
    case (refused e em'')
    then show ?thesis using assms listens_prune [OF inv] by auto
  next
    case (granted s)
    then show ?thesis using assms
      by (auto simp: subscribe_renew [OF Some granted] listens_iff prune_get [OF manager_inv_ok [OF inv]]
          split: if_splits)
  qed
qed

lemma unsubscribe_listens:
  "unsubscribe service headers em = (r, em') \<Longrightarrow> manager_inv em \<Longrightarrow> listens em' sid \<Longrightarrow> listens em sid"
  by (auto simp: unsubscribe_def listens_def hm.get_del [OF manager_inv_ok] split: option.splits if_splits)

lemma event_request_listens:
  assumes "event_request env service req st = (r, st', s)" and "manager_inv (as_events st)"
    and "listens (as_events st') sid"
  shows "listens (as_events st) sid \<or> (\<exists>u. s = Some (sid, u))"
  using assms
  by (auto simp: event_request_def split: if_splits ip_addr.splits prod.splits sum.splits
      dest!: subscribe_listens unsubscribe_listens)

lemma set_bookmark_events: "set_bookmark env args st d = (r, st', d') \<Longrightarrow> as_events st' = as_events st"
  by (auto simp: set_bookmark_def Let_def split: option.splits if_splits prod.splits sum.splits)

lemma content_directory_control_events:
  "content_directory_control env headers body st d = (r, st', d') \<Longrightarrow> as_events st' = as_events st"
  by (auto simp: content_directory_control_def split: sum.splits prod.splits if_splits
      dest: set_bookmark_events)

lemma handle_request_listens:
  assumes "handle_request env req st d = (r, st', d', s)" and inv: "manager_inv (as_events st)"
    and "listens (as_events st') sid"
  shows "listens (as_events st) sid \<or> (\<exists>u. s = Some (sid, u))"
proof -
  have "listens (as_events st) sid \<or> (\<exists>u. z = Some (sid, u))"
    if "run_handler h env req st d = (q, x, y, z)" "listens (as_events x) sid" for h q x y z
    using that event_request_listens [OF _ inv]
    by (cases h) (auto simp: run_handler_def dest: content_directory_control_events split: prod.splits)
  then show ?thesis using assms
    by (auto simp: handle_request_def split: option.splits prod.splits if_splits)
qed

lemma handle_request_manager:
  assumes "handle_request env req st d = (r, st', d', s)" and "manager_inv (as_events st)"
  shows "manager_inv (as_events st') \<and> as_catalog st' = as_catalog st"
  using handle_request_keeps [OF assms(1)] assms(2) by (simp add: request_keeps_def)

text \<open>The other steps.\<close>

lemma notify_initial_sent:
  assumes "notify_initial sid u em = (ns, em')" and "listens em sid"
  shows "was_sent sid u ns"
  using assms by (auto simp: notify_initial_def notification_def listens_iff was_sent_def split: option.splits)

lemma notify_initial_listens:
  "notify_initial sid u em = (ns, em') \<Longrightarrow> listens em' sid' \<longleftrightarrow> listens em sid'"
  by (auto simp: notify_initial_def notification_def listens_def split: option.splits if_splits)

lemma notify_content_changed_sent:
  assumes "notify_content_changed now u em = (ns, em')" and inv: "manager_inv em" and "listens em' sid"
  shows "listens em sid \<and> was_sent sid u ns"
proof -
  let ?p = "prune_expired now (em_subscriptions em)"
  have ok: "hm_ok ?p" by (rule prune_ok [OF manager_inv_ok [OF inv]])
  obtain s where s: "hm_get ?p sid = Some s" "sub_service s = ContentDirectory"
    using assms(1,3) by (auto simp: notify_content_changed_eq listens_iff notify_each_get split: if_splits)
  have "filter (\<lambda>n. nt_sid n = sid) ns = [fst (notification sid s u)]"
    using assms(1) notify_each_to [OF ok, of sid u] s by (auto simp: notify_content_changed_eq)
  then have "fst (notification sid s u) \<in> set (filter (\<lambda>n. nt_sid n = sid) ns)" by simp
  then have "fst (notification sid s u) \<in> set ns" "nt_sid (fst (notification sid s u)) = sid" by simp_all
  moreover have "nt_body (fst (notification sid s u)) = event_body ContentDirectory u"
    using s(2) by (simp add: notification_def)
  ultimately have "was_sent sid u ns" unfolding was_sent_def by blast
  moreover have "listens em sid" using s by (auto simp: listens_iff prune_get [OF manager_inv_ok [OF inv]])
  ultimately show ?thesis by blast
qed

section \<open>The invariant\<close>

lemma tracked_request: "updates_tracked tk \<Longrightarrow> updates_tracked (run_request env req tk)"
proof -
  assume t: "updates_tracked tk"
  obtain r st' d' s where run: "handle_request env req (tk_app tk) (tk_disk tk) = (r, st', d', s)"
    by (metis prod_cases4)
  have inv: "manager_inv (as_events (tk_app tk))" using t by (simp add: updates_tracked_def)
  note keeps = handle_request_manager [OF run inv] and listens = handle_request_listens [OF run inv]
  show ?thesis
    using t keeps listens
    by (fastforce simp: updates_tracked_def run_request_def run on_its_way_def current_update_def granted_def)
qed

lemma tracked_read: "updates_tracked tk \<Longrightarrow> updates_tracked (read_update sid tk)"
  by (auto simp: updates_tracked_def read_update_def on_its_way_def current_update_def in_set_remove1)

lemma tracked_initial: "updates_tracked tk \<Longrightarrow> updates_tracked (send_initial sid u tk)"
proof -
  assume t: "updates_tracked tk"
  obtain ns em where run: "notify_initial sid u (as_events (tk_app tk)) = (ns, em)" by fastforce
  have "manager_inv em"
    using notify_initial_inv [of "as_events (tk_app tk)" sid u] t run by (simp add: updates_tracked_def)
  moreover have "Due sid' v \<in> set ps \<Longrightarrow> (sid' = sid \<and> v = u) \<or> Due sid' v \<in> set (remove1 (Due sid u) ps)"
    for sid' v ps by (cases "Due sid' v = Due sid u") (auto simp: in_set_remove1)
  ultimately show ?thesis
    using t notify_initial_sent [OF run] notify_initial_listens [OF run]
    by (fastforce simp: updates_tracked_def send_initial_def run on_its_way_def current_update_def
        was_sent_append in_set_remove1)
qed

lemma tracked_publish:
  "updates_tracked tk \<Longrightarrow> tk_rescan tk = Waiting \<Longrightarrow> updates_tracked (publish_catalog cfg res tk)"
  by (auto simp: updates_tracked_def publish_catalog_def on_its_way_def current_update_def)

lemma tracked_notify:
  assumes t: "updates_tracked tk" and "tk_rescan tk = Publishing u cfg"
  shows "updates_tracked (notify_change now u cfg tk)"
proof -
  obtain ns em where run: "notify_content_changed now u (as_events (tk_app tk)) = (ns, em)" by fastforce
  have inv: "manager_inv (as_events (tk_app tk))" and u: "u = current_update tk"
    using assms by (simp_all add: updates_tracked_def)
  have eq: "notify_change now u cfg tk =
      tk\<lparr>tk_app := (tk_app tk)\<lparr>as_events := em\<rparr>, tk_sent := tk_sent tk @ ns, tk_rescan := Replacing cfg\<rparr>"
    by (simp add: notify_change_def run)
  have "manager_inv em" using notify_content_changed_inv [OF inv, of now u] run by simp
  then show ?thesis
    unfolding eq using notify_content_changed_sent [OF run inv] u
    by (simp add: updates_tracked_def current_update_def was_sent_append)
qed

lemma tracked_replace:
  "updates_tracked tk \<Longrightarrow> tk_rescan tk = Replacing cfg \<Longrightarrow> updates_tracked (replace_config cfg tk)"
  by (auto simp: updates_tracked_def replace_config_def on_its_way_def current_update_def)

lemma tracked_internal: "internal tk tk' \<Longrightarrow> updates_tracked tk \<Longrightarrow> updates_tracked tk'"
  by (induction rule: internal.induct)
    (simp_all add: tracked_read tracked_initial tracked_notify tracked_replace)

lemma interleaved_tracked:
  "interleaved st0 d0 tk \<Longrightarrow> manager_inv (as_events st0) \<Longrightarrow> em_subscriptions (as_events st0) = [] \<Longrightarrow>
    updates_tracked tk"
proof (induction rule: interleaved.induct)
  case start
  then show ?case by (simp add: updates_tracked_def listens_def)
qed (simp_all add: tracked_request tracked_publish tracked_internal)

section \<open>Progress\<close>

text \<open>How many steps the tasks still have to take.\<close>

fun pending_work :: "pending \<Rightarrow> nat" where
  "pending_work (Granted sid) = 2"
| "pending_work (Due sid u) = 1"

fun rescan_work :: "rescan_point \<Rightarrow> nat" where
  "rescan_work Waiting = 0"
| "rescan_work (Publishing u cfg) = 2"
| "rescan_work (Replacing cfg) = 1"

definition work :: "tasks \<Rightarrow> nat" where
  "work tk = sum_list (map pending_work (tk_pending tk)) + rescan_work (tk_rescan tk)"

lemma pending_work_pos [simp]: "pending_work p \<noteq> 0"
  by (cases p) simp_all

lemma sum_list_remove1:
  "x \<in> set xs \<Longrightarrow> sum_list (map f xs) = f x + sum_list (map f (remove1 x xs))" for f :: "'a \<Rightarrow> nat"
  by (induction xs) auto

lemma internal_work: "internal tk tk' \<Longrightarrow> work tk = Suc (work tk')"
proof (induction rule: internal.induct)
  case (reads sid tk)
  then show ?case using sum_list_remove1 [of "Granted sid" _ pending_work]
    by (simp add: work_def read_update_def)
next
  case (sends sid u tk)
  then show ?case using sum_list_remove1 [of "Due sid u" _ pending_work]
    by (auto simp: work_def send_initial_def split: prod.splits)
next
  case (notifies tk u cfg now)
  then show ?case by (auto simp: work_def notify_change_def split: prod.splits)
next
  case (replaces tk cfg)
  then show ?case by (simp add: work_def replace_config_def)
qed

lemma internal_enabled: "work tk \<noteq> 0 \<Longrightarrow> \<exists>tk'. internal tk tk'"
proof (cases "tk_pending tk")
  case (Cons p ps)
  then show ?thesis
    using internal.reads [of _ tk] internal.sends [of _ _ tk] by (cases p) fastforce+
next
  case Nil
  assume "work tk \<noteq> 0"
  with Nil show ?thesis
    by (cases "tk_rescan tk") (auto simp: work_def intro: internal.notifies internal.replaces)
qed

text \<open>The pending steps as runs.\<close>

inductive internal_run :: "nat \<Rightarrow> tasks \<Rightarrow> tasks \<Rightarrow> bool" where
  none: "internal_run 0 tk tk"
| more: "internal tk tk' \<Longrightarrow> internal_run n tk' tk'' \<Longrightarrow> internal_run (Suc n) tk tk''"

lemma internal_run_work: "internal_run n tk tk' \<Longrightarrow> work tk = n + work tk'"
  by (induction rule: internal_run.induct) (auto dest: internal_work)

lemma internal_run_exists: "\<exists>tk'. internal_run (work tk) tk tk'"
proof (induction "work tk" arbitrary: tk)
  case 0
  then show ?case using internal_run.none by metis
next
  case (Suc n)
  then obtain tk1 where step: "internal tk tk1" using internal_enabled by (metis nat.distinct(1))
  with Suc(2) internal_work have "n = work tk1" by fastforce
  with Suc(1) obtain tk' where "internal_run n tk1 tk'" by blast
  with step Suc(2) show ?case by (metis internal_run.more)
qed

lemma internal_run_tracked: "internal_run n tk tk' \<Longrightarrow> updates_tracked tk \<Longrightarrow> updates_tracked tk'"
  by (induction rule: internal_run.induct) (auto dest: tracked_internal)

lemma internal_run_catalog:
  "internal_run n tk tk' \<Longrightarrow> as_catalog (tk_app tk') = as_catalog (tk_app tk)"
proof (induction rule: internal_run.induct)
  case (more tk tk' n tk'')
  from more.hyps(1) have "as_catalog (tk_app tk') = as_catalog (tk_app tk)"
    by (cases rule: internal.cases)
      (auto simp: read_update_def send_initial_def notify_change_def replace_config_def split: prod.splits)
  with more.IH show ?case by simp
qed simp

lemma tracked_quiet:
  "updates_tracked tk \<Longrightarrow> work tk = 0 \<Longrightarrow> listens (as_events (tk_app tk)) sid \<Longrightarrow>
    was_sent sid (current_update tk) (tk_sent tk)"
proof -
  assume t: "updates_tracked tk" and w: "work tk = 0" and l: "listens (as_events (tk_app tk)) sid"
  from w have "tk_rescan tk = Waiting" by (cases "tk_rescan tk") (auto simp: work_def)
  moreover from w have "tk_pending tk = []"
    by (cases "tk_pending tk") (simp_all add: work_def)
  ultimately show ?thesis using t l by (auto simp: updates_tracked_def on_its_way_def)
qed

section \<open>The invariant of the server, between awaits\<close>

text \<open>The configuration that is in place or about to be.\<close>

definition target_config :: "tasks \<Rightarrow> config" where
  "target_config tk =
    (case tk_rescan tk of
       Waiting \<Rightarrow> as_config (tk_app tk)
     | Publishing u cfg \<Rightarrow> cfg
     | Replacing cfg \<Rightarrow> cfg)"

definition tasks_inv :: "app_state \<Rightarrow> tasks \<Rightarrow> bool" where
  "tasks_inv st0 tk = server_inv st0 ((tk_app tk)\<lparr>as_config := target_config tk\<rparr>)"

lemma tasks_inv_parts:
  "tasks_inv st0 tk \<longleftrightarrow>
    finished (as_catalog (tk_app tk))
    \<and> (\<exists>fs r. scan_settled fs (target_config tk) = Some (Inr r)
        \<and> catalog_entry (as_catalog (tk_app tk)) = catalog_entry (scan_catalog r))
    \<and> manager_inv (as_events (tk_app tk)) \<and> bt_ok (snapshot (as_bookmarks (tk_app tk)))
    \<and> em_interface (as_events (tk_app tk)) = em_interface (as_events st0)
    \<and> as_base_url (tk_app tk) = as_base_url st0 \<and> as_udn (tk_app tk) = as_udn st0
    \<and> bs_path (as_bookmarks (tk_app tk)) = bs_path (as_bookmarks st0)"
  by (simp add: tasks_inv_def server_inv_def catalog_current_def)

lemma tasks_inv_request: "tasks_inv st0 tk \<Longrightarrow> tasks_inv st0 (run_request env req tk)"
proof -
  assume t: "tasks_inv st0 tk"
  obtain r st' d' s where run: "handle_request env req (tk_app tk) (tk_disk tk) = (r, st', d', s)"
    by (metis prod_cases4)
  have "target_config (run_request env req tk) = target_config tk"
    using handle_request_keeps [OF run]
    by (simp add: target_config_def run_request_def run request_keeps_def split: rescan_point.split)
  then show ?thesis using t handle_request_keeps [OF run]
    by (simp add: tasks_inv_parts run_request_def run request_keeps_def snapshot_def)
qed

lemma tasks_inv_publish:
  assumes t: "tasks_inv st0 tk" and "tk_rescan tk = Waiting"
    and load: "reload read_to_string parse_toml to_lowercase fs config_file = Some (Inr (cfg, res))"
  shows "tasks_inv st0 (publish_catalog cfg res tk)"
proof -
  have "target_config (publish_catalog cfg res tk) = cfg"
    by (simp add: target_config_def publish_catalog_def)
  moreover have "has_same_content (as_catalog (tk_app tk)) (scan_catalog res) \<Longrightarrow>
      catalog_entry (as_catalog (tk_app tk)) = catalog_entry (scan_catalog res)"
    using finished_same_iff reload_finished [OF load] t by (auto simp: tasks_inv_parts)
  moreover note reload_Inr [OF load] reload_finished [OF load]
  ultimately show ?thesis using t
    by (cases "has_same_content (as_catalog (tk_app tk)) (scan_catalog res)")
      (auto simp: tasks_inv_parts publish_catalog_def)
qed

lemma tasks_inv_events:
  assumes "tasks_inv st0 tk" and "manager_inv em" "em_interface em = em_interface (as_events (tk_app tk))"
    and "tk_app tk' = (tk_app tk)\<lparr>as_events := em\<rparr>" and "target_config tk' = target_config tk"
  shows "tasks_inv st0 tk'"
  using assms by (simp add: tasks_inv_parts)

lemma tasks_inv_internal: "internal tk tk' \<Longrightarrow> tasks_inv st0 tk \<Longrightarrow> tasks_inv st0 tk'"
proof (induction rule: internal.induct)
  case (reads sid tk)
  then show ?case
    by (simp add: tasks_inv_parts read_update_def target_config_def cong: rescan_point.case_cong)
next
  case (sends sid u tk)
  have "manager_inv (snd (notify_initial sid u (as_events (tk_app tk))))"
    using notify_initial_inv sends by (simp add: tasks_inv_parts)
  then show ?case
    using sends event_step_interface [of "Initial sid u" "as_events (tk_app tk)"]
    by (intro tasks_inv_events [where em = "snd (notify_initial sid u (as_events (tk_app tk)))", OF sends(2)])
      (auto simp: send_initial_def target_config_def split: prod.split rescan_point.split)
next
  case (notifies tk u cfg now)
  have "manager_inv (snd (notify_content_changed now u (as_events (tk_app tk))))"
    using notify_content_changed_inv notifies by (simp add: tasks_inv_parts)
  then show ?case using notifies(1)
    by (intro tasks_inv_events [where em = "snd (notify_content_changed now u (as_events (tk_app tk)))",
          OF notifies(2)])
      (auto simp: notify_change_def notify_content_changed_eq target_config_def)
next
  case (replaces tk cfg)
  then show ?case by (simp add: tasks_inv_parts replace_config_def target_config_def)
qed

lemma interleaved_inv: "interleaved st0 d0 tk \<Longrightarrow> server_inv st0 st0 \<Longrightarrow> tasks_inv st0 tk"
proof (induction rule: interleaved.induct)
  case start
  then show ?case by (simp add: tasks_inv_def target_config_def)
next
  case (publish tk read_to_string parse_toml to_lowercase fs config_file cfg res)
  then show ?case using tasks_inv_publish by blast
qed (simp_all add: tasks_inv_request tasks_inv_internal)

lemma internal_addresses:
  "internal tk tk' \<Longrightarrow> as_base_url (tk_app tk') = as_base_url (tk_app tk) \<and> as_udn (tk_app tk') = as_udn (tk_app tk)"
  by (induction rule: internal.induct)
    (auto simp: read_update_def send_initial_def notify_change_def replace_config_def split: prod.splits)

lemma interleaved_addresses:
  "interleaved st0 d0 tk \<Longrightarrow> as_base_url (tk_app tk) = as_base_url st0 \<and> as_udn (tk_app tk) = as_udn st0"
proof (induction rule: interleaved.induct)
  case (request tk env req)
  obtain r st' d' s where run: "handle_request env req (tk_app tk) (tk_disk tk) = (r, st', d', s)"
    by (metis prod_cases4)
  with handle_request_keeps [OF run] request.IH show ?case by (simp add: run_request_def request_keeps_def)
next
  case (publish tk read_to_string parse_toml to_lowercase fs config_file cfg res)
  then show ?case by (simp add: publish_catalog_def)
qed (use internal_addresses in auto)

section \<open>Whole steps are runs of small ones\<close>

definition due_tasks :: "(string \<times> u32) list \<Rightarrow> pending list" where
  "due_tasks due = map (\<lambda>(sid, u). Due sid u) due"

lemma remove1_due: "remove1 (Due sid u) (due_tasks due) = due_tasks (remove1 (sid, u) due)"
  by (induction due) (auto simp: due_tasks_def)

lemma granted_not_due: "Granted sid \<notin> set (due_tasks due)"
  by (auto simp: due_tasks_def)

lemma handle_request_due:
  "handle_request env req st d = (r, st', d', Some (sid, u)) \<Longrightarrow> u = update_id (as_catalog st)"
  by (auto simp: handle_request_def run_handler_def event_request_def
      split: option.splits prod.splits if_splits handler.splits ip_addr.splits sum.splits)

definition at_rest :: "app_state \<Rightarrow> disk \<Rightarrow> (string \<times> u32) list \<Rightarrow> tasks \<Rightarrow> bool" where
  "at_rest st d due tk =
    (tk_app tk = st \<and> tk_disk tk = d \<and> tk_pending tk = due_tasks due \<and> tk_rescan tk = Waiting)"

lemma served_interleaved: "served st0 st d due \<Longrightarrow> \<exists>d0 tk. interleaved st0 d0 tk \<and> at_rest st d due tk"
proof (induction rule: served.induct)
  case (start d)
  show ?case using interleaved.start [of st0 d] by (force simp: at_rest_def due_tasks_def)
next
  case (request st d due env req r st' d' s)
  then obtain d0 tk where tk: "interleaved st0 d0 tk" "at_rest st d due tk" by blast
  let ?tk = "run_request env req tk"
  have run: "interleaved st0 d0 ?tk" by (rule interleaved.request [OF tk(1)])
  have rest: "tk_app ?tk = st'" "tk_disk ?tk = d'" "tk_pending ?tk = due_tasks due @ granted s"
    "tk_rescan ?tk = Waiting"
    using tk(2) request.hyps(2) by (simp_all add: at_rest_def run_request_def)
  show ?case
  proof (cases s)
    case None
    with run rest show ?thesis by (force simp: at_rest_def add_due_def granted_def)
  next
    case (Some x)
    then obtain sid u where s: "s = Some (sid, u)" by fastforce
    have u: "update_id (as_catalog st') = u"
      using handle_request_due [OF request.hyps(2) [unfolded s]] handle_request_keeps [OF request.hyps(2)]
      by (simp add: request_keeps_def)
    have "interleaved st0 d0 (read_update sid ?tk)"
      using rest s by (intro interleaved.internal [OF run] internal.reads) (simp add: granted_def)
    moreover have "at_rest st' d' (add_due s due) (read_update sid ?tk)"
      using rest u granted_not_due [of sid due]
      by (simp add: at_rest_def read_update_def s add_due_def granted_def due_tasks_def remove1_append)
    ultimately show ?thesis by blast
  qed
next
  case (initial st d due sid u ns em)
  then obtain d0 tk where tk: "interleaved st0 d0 tk" "at_rest st d due tk" by blast
  have "interleaved st0 d0 (send_initial sid u tk)"
    using tk(2) initial.hyps(2)
    by (intro interleaved.internal [OF tk(1)] internal.sends) (auto simp: at_rest_def due_tasks_def)
  moreover have "at_rest (st\<lparr>as_events := em\<rparr>) d (remove1 (sid, u) due) (send_initial sid u tk)"
    using tk(2) initial.hyps(3) by (simp add: at_rest_def send_initial_def remove1_due)
  ultimately show ?case by blast
next
  case (rescan st d due now read_to_string parse_toml to_lowercase fs config_file out ns st')
  then obtain d0 tk where tk: "interleaved st0 d0 tk" "at_rest st d due tk" by blast
  show ?case
  proof (cases "\<exists>cfg res. reload read_to_string parse_toml to_lowercase fs config_file = Some (Inr (cfg, res))")
    case False
    then have "st' = st" using rescan.hyps(2)
      by (auto simp: rescan_catalog_def split: option.splits sum.splits)
    with tk show ?thesis by blast
  next
    case True
    then obtain cfg res where load:
      "reload read_to_string parse_toml to_lowercase fs config_file = Some (Inr (cfg, res))" by blast
    let ?tk = "publish_catalog cfg res tk"
    have first: "interleaved st0 d0 ?tk"
      using tk(2) by (intro interleaved.publish [OF tk(1) _ load]) (simp add: at_rest_def)
    show ?thesis
    proof (cases "has_same_content (as_catalog st) (scan_catalog res)")
      case True
      have "interleaved st0 d0 (replace_config cfg ?tk)"
        using tk(2) True
        by (intro interleaved.internal [OF first] internal.replaces) (simp add: at_rest_def publish_catalog_def)
      moreover have "at_rest st' d due (replace_config cfg ?tk)"
        using tk(2) True rescan.hyps(2) load
        by (auto simp: at_rest_def publish_catalog_def replace_config_def rescan_catalog_def Let_def)
      ultimately show ?thesis by blast
    next
      case False
      let ?n = "notify_change now (update_id (scan_catalog res)) cfg ?tk"
      have "interleaved st0 d0 ?n"
        using tk(2) False
        by (intro interleaved.internal [OF first] internal.notifies) (simp add: at_rest_def publish_catalog_def)
      then have "interleaved st0 d0 (replace_config cfg ?n)"
        by (rule interleaved.internal) (auto intro!: internal.replaces simp: notify_change_def split: prod.split)
      moreover have "at_rest st' d due (replace_config cfg ?n)"
        using tk(2) False rescan.hyps(2) load
        by (auto simp: at_rest_def publish_catalog_def notify_change_def replace_config_def
            rescan_catalog_def Let_def split: prod.splits)
      ultimately show ?thesis by blast
    qed
  qed
qed

text \<open>So what holds between the steps of interleaved tasks holds when each runs to its end.\<close>

lemma served_inv:
  assumes "served st0 st d due" and "server_inv st0 st0"
  shows "server_inv st0 st"
proof -
  obtain d0 tk where "interleaved st0 d0 tk" "at_rest st d due tk"
    using served_interleaved [OF assms(1)] by blast
  with interleaved_inv [OF _ assms(2)] show ?thesis
    by (fastforce simp: tasks_inv_def target_config_def at_rest_def)
qed

end
