(* ===== verification/Server_Properties.thy ===== *)
theory Server_Properties
  imports Interleaving Http_Properties Events_Properties Ssdp_Properties
begin

text \<open>
  Properties of the server as a whole: what holds in every state it can reach, that what discovery
  announces is what the routes serve, and that the links of the catalog lead to the files.
\<close>

section \<open>An example\<close>

text \<open>The example's share served by a machine at 10.0.0.2.\<close>

definition example_host :: host where
  "example_host =
    \<lparr>ho_probe = Some (V4 (10, 0, 0, 2)), ho_fs = example_fs, ho_bind = Inr,
     ho_hostname = Some (True, ''tv''), ho_env = (\<lambda>_. None), ho_canonicalize = Some,
     ho_os_str = (\<lambda>_. ''j.toml''), ho_uuid5 = (\<lambda>_. ''1''), ho_from_toml = example_from_toml, ho_read_fault = None\<rparr>"

lemma example_from_toml_ok: "ho_from_toml example_host s = Inr m \<Longrightarrow> bt_ok m"
  using toml_codec_read [OF example_codec] by (simp add: example_host_def)

lemma example_started:
  "\<exists>s. start_server example_host [''j.toml''] example_config (\<lambda>_. None) = Some (Inr s)
    \<and> catalog_entry (as_catalog (sv_app s)) (e_id (example_file 0)) = Some (example_file 0)
    \<and> as_events (sv_app s) = new_manager (10, 0, 0, 2)"
proof -
  obtain res where res: "scan_settled example_fs example_config = Some (Inr res)"
    "catalog_entry (scan_catalog res) (e_id (example_file (settle_time example_config))) =
      Some (example_file (settle_time example_config))"
    using example_scan [of "settle_time example_config"]
    by (auto simp: scan_settled_def settle_time_def from_secs_def example_config_def default_scanner_def)
  have same: "example_file a = example_file 0" for a
    by (simp add: example_file_def entry_of_age [of example_share default_scanner a])
  have "load_bookmarks example_from_toml None [''bookmarks.toml''] (\<lambda>_. None) = Inr example_store"
    using example_load by (simp add: example_disk_def)
  moreover have "interface_addr (network example_config) = None"
    "bookmark_path [''j.toml''] = [''bookmarks.toml'']"
    by (simp_all add: example_config_def default_network_def bookmark_path_def path_parent_def)
  ultimately show ?thesis using res(1) res(2) [unfolded same [of "settle_time example_config"]]
    by (auto simp: start_server_def bind_scan_def example_host_def detect_local_ipv4_def is_loopback_def)
qed

section \<open>Every reachable state\<close>

text \<open>C1. In every state the server can reach, whatever requests, notifications and rescans came
  before, in whatever order and interleaved at every await: the published catalog is finished and
  is, entry by entry, what a scan found under the configuration that is in place or, in the middle
  of a rescan, about to be; the subscription table and the bookmarks are well-formed; and the
  address, the interface and the place of the bookmarks are those of the start.\<close>

theorem server_invariant:
  assumes "start_server ho config_path cfg fs = Some (Inr s)"
    and "\<And>t m. ho_from_toml ho t = Inr m \<Longrightarrow> bt_ok m"
    and "interleaved (sv_app s) d0 tk"
  defines "st \<equiv> tk_app tk"
  shows "finished (as_catalog st)
    \<and> (\<exists>tree r. scan_settled tree
          (case tk_rescan tk of Waiting \<Rightarrow> as_config st | Publishing u new \<Rightarrow> new | Replacing new \<Rightarrow> new) =
            Some (Inr r)
        \<and> catalog_entry (as_catalog st) = catalog_entry (scan_catalog r))
    \<and> manager_inv (as_events st) \<and> bt_ok (snapshot (as_bookmarks st))
    \<and> em_interface (as_events st) = sv_interface s
    \<and> as_base_url st = ''http://'' @ show_ipv4 (sv_interface s) @ '':'' @ show_word (sv_port s)
    \<and> as_udn st = stable_udn ho config_path
    \<and> bs_path (as_bookmarks st) = bookmark_path config_path"
proof -
  have inv: "tasks_inv (sv_app s) tk"
    using interleaved_inv [OF assms(3) started_inv [OF assms(1,2)]] .
  from assms(1) show ?thesis
  proof (cases rule: start_server_Inr)
    case (1 first_scan store)
    then have "bs_path store = bookmark_path config_path"
      by (auto simp: load_bookmarks_def result_splits)
    with inv 1(4) show ?thesis
      by (simp add: st_def tasks_inv_parts target_config_def base_url_of_def new_manager_def
          cong: rescan_point.case_cong)
  qed
qed

theorem server_invariant_witness:
  "\<exists>s tk. start_server example_host [''j.toml''] example_config (\<lambda>_. None) = Some (Inr s)
    \<and> interleaved (sv_app s) example_disk tk \<and> finished (as_catalog (tk_app tk))"
proof -
  obtain s where s: "start_server example_host [''j.toml''] example_config (\<lambda>_. None) = Some (Inr s)"
    using example_started by blast
  note run = interleaved.start [of "sv_app s" example_disk]
  with server_invariant [OF s _ run] example_from_toml_ok s show ?thesis by blast
qed

text \<open>C2. No change of content is lost: from every state the server can reach, what is pending can
  run and needs a bounded number of steps in whatever order it runs, and once it has run, without
  new requests or rescans, every subscriber of the content directory has been sent the update
  identifier of the published catalog, whether it subscribed before, during or after the rescan
  that published it.\<close>

theorem updates_delivered:
  assumes "start_server ho config_path cfg fs = Some (Inr s)"
    and "interleaved (sv_app s) d0 tk" and "internal_run n tk tk'"
  shows "n \<le> work tk \<and> as_catalog (tk_app tk') = as_catalog (tk_app tk)
    \<and> (if n < work tk then \<exists>tk''. internal tk' tk''
       else (\<forall>tk''. \<not> internal tk' tk'')
        \<and> (\<forall>sid sub. hm_get (em_subscriptions (as_events (tk_app tk'))) sid = Some sub \<longrightarrow>
            sub_service sub = ContentDirectory \<longrightarrow>
            (\<exists>x \<in> set (tk_sent tk'). nt_sid x = sid
              \<and> nt_body x = event_body ContentDirectory (update_id (as_catalog (tk_app tk))))))"
proof -
  have "as_events (sv_app s) = new_manager (sv_interface s)"
    using assms(1) by (cases rule: start_server_Inr) simp
  then have "updates_tracked tk"
    using interleaved_tracked [OF assms(2)] new_manager_inv by (simp add: new_manager_def)
  then have tracked: "updates_tracked tk'" by (rule internal_run_tracked [OF assms(3)])
  note left = internal_run_work [OF assms(3)] and catalog = internal_run_catalog [OF assms(3)]
  have "\<exists>x \<in> set (tk_sent tk'). nt_sid x = sid
      \<and> nt_body x = event_body ContentDirectory (update_id (as_catalog (tk_app tk)))"
    if "n = work tk" "listens (as_events (tk_app tk')) sid" for sid
    using tracked_quiet [OF tracked _ that(2)] left that(1) catalog
    by (simp add: was_sent_def current_update_def)
  moreover have "\<not> internal tk' tk''" if "n = work tk" for tk''
    using internal_work [of tk' tk''] left that by auto
  moreover have "\<exists>tk''. internal tk' tk''" if "n < work tk"
    using internal_enabled [of tk'] left that by simp
  ultimately show ?thesis using left catalog by (auto simp: listens_iff)
qed

text \<open>A television subscribes, and its initial notification is sent.\<close>

definition example_request :: http_request where
  "example_request =
    \<lparr>hr_method = ''SUBSCRIBE'', hr_path = [''upnp'', ''content-directory'', ''events''],
     hr_headers = example_headers, hr_body = [], hr_peer = V4 (10, 0, 0, 5)\<rparr>"

lemma example_granted:
  assumes "as_events st = new_manager (10, 0, 0, 2)"
  shows "\<exists>r. handle_request example_http_env example_request st d =
    (r, st\<lparr>as_events := snd (example_subscribe (new_manager (10, 0, 0, 2)))\<rparr>, d,
     Some (''uuid:u1'', update_id (as_catalog st)))"
proof -
  have "route (hr_path example_request) = Some (None, ContentDirectoryEvents)"
    by (simp add: example_request_def) code_simp
  then show ?thesis using assms example_subscribed
    by (simp add: handle_request_def allowed_def run_handler_def event_request_def example_request_def
        example_http_env_def example_subscribe_def)
qed

theorem updates_delivered_witness:
  "\<exists>s tk. start_server example_host [''j.toml''] example_config (\<lambda>_. None) = Some (Inr s)
    \<and> interleaved (sv_app s) example_disk tk \<and> work tk = 2
    \<and> (\<exists>tk' x. internal_run 2 tk tk' \<and> x \<in> set (tk_sent tk') \<and> nt_sid x = ''uuid:u1''
      \<and> nt_body x = event_body ContentDirectory (update_id (as_catalog (sv_app s))))"
proof -
  obtain s where s: "start_server example_host [''j.toml''] example_config (\<lambda>_. None) = Some (Inr s)"
    "as_events (sv_app s) = new_manager (10, 0, 0, 2)" using example_started by blast
  let ?st = "(sv_app s)\<lparr>as_events := snd (example_subscribe (new_manager (10, 0, 0, 2)))\<rparr>"
  let ?tk = "\<lparr>tk_app = ?st, tk_disk = example_disk, tk_pending = [Granted ''uuid:u1''],
    tk_rescan = Waiting, tk_sent = []\<rparr>"
  have run: "interleaved (sv_app s) example_disk ?tk"
    using interleaved.request [OF interleaved.start, of "sv_app s" example_disk example_http_env example_request]
      example_granted [OF s(2), of example_disk]
    by (auto simp: run_request_def granted_def)
  let ?u = "update_id (as_catalog (sv_app s))"
  let ?read = "read_update ''uuid:u1'' ?tk"
  let ?tk' = "send_initial ''uuid:u1'' ?u ?read"
  have work: "work ?tk = 2" and no: "(2 < (2 :: nat)) = False" by (simp_all add: work_def)
  have one: "internal ?tk ?read" by (rule internal.reads) simp
  have two: "internal ?read ?tk'" by (rule internal.sends) (simp add: read_update_def)
  have more: "internal_run 2 ?tk ?tk'"
    unfolding numeral_2_eq_2
    by (rule internal_run.more [OF one internal_run.more [OF two internal_run.none]])
  have "listens (as_events (tk_app ?tk')) ''uuid:u1''"
    using notify_initial_listens [of "''uuid:u1''" ?u "as_events ?st"] example_subscribed
    by (auto simp: send_initial_def read_update_def listens_def split: prod.split)
  then obtain sub where sub: "hm_get (em_subscriptions (as_events (tk_app ?tk'))) ''uuid:u1'' = Some sub"
    "sub_service sub = ContentDirectory" unfolding listens_iff by blast
  note all = updates_delivered [OF s(1) run more, THEN conjunct2, THEN conjunct2,
      unfolded work no if_False, THEN conjunct2]
  have "\<exists>x \<in> set (tk_sent ?tk'). nt_sid x = ''uuid:u1''
      \<and> nt_body x = event_body ContentDirectory (update_id (as_catalog (tk_app ?tk)))"
    using all sub by blast
  then have "\<exists>x \<in> set (tk_sent ?tk'). nt_sid x = ''uuid:u1'' \<and> nt_body x = event_body ContentDirectory ?u"
    by simp
  with s run work more show ?thesis by blast
qed

section \<open>Discovery, descriptions and routes\<close>

text \<open>What the device description says of a service, and the two services it lists.\<close>

record service_info =
  sn_type :: string
  sn_id :: string
  sn_scpd :: string
  sn_control :: string
  sn_events :: string

definition service_element :: "service_info \<Rightarrow> string" where
  \<open>service_element sn =
    ''      <service>\<newline>'' @
    ''        <serviceType>'' @ sn_type sn @ ''</serviceType>\<newline>'' @
    ''        <serviceId>'' @ sn_id sn @ ''</serviceId>\<newline>'' @
    ''        <SCPDURL>'' @ sn_scpd sn @ ''</SCPDURL>\<newline>'' @
    ''        <controlURL>'' @ sn_control sn @ ''</controlURL>\<newline>'' @
    ''        <eventSubURL>'' @ sn_events sn @ ''</eventSubURL>\<newline>'' @
    ''      </service>\<newline>''\<close>

definition content_directory_service :: service_info where
  "content_directory_service =
    \<lparr>sn_type = CONTENT_DIRECTORY_TYPE, sn_id = ''urn:upnp-org:serviceId:ContentDirectory'',
     sn_scpd = ''/upnp/content-directory.xml'', sn_control = ''/upnp/content-directory/control'',
     sn_events = ''/upnp/content-directory/events''\<rparr>"

definition connection_manager_service :: service_info where
  "connection_manager_service =
    \<lparr>sn_type = CONNECTION_MANAGER_TYPE, sn_id = ''urn:upnp-org:serviceId:ConnectionManager'',
     sn_scpd = ''/upnp/connection-manager.xml'', sn_control = ''/upnp/connection-manager/control'',
     sn_events = ''/upnp/connection-manager/events''\<rparr>"

definition service_list :: string where
  \<open>service_list =
    ''    <serviceList>\<newline>'' @ service_element content_directory_service
    @ service_element connection_manager_service @ ''    </serviceList>\<newline>''\<close>

lemma contains_skip: "\<exists>a b. y = a @ x @ b \<Longrightarrow> \<exists>a b. z @ y = a @ x @ b"
  by (metis append_assoc)

lemma description_services: "\<exists>a b. device_description name udn base_url = a @ service_list @ b"
  unfolding device_description_def
  by ((rule exI [of _ "[]"], simp only: service_list_def service_element_def service_info.simps
        content_directory_service_def connection_manager_service_def append.simps append_assoc,
        rule exI, rule refl)
      | rule contains_skip)+

text \<open>A path of a URL as the routes see it.\<close>

definition request_path :: "string \<Rightarrow> string list" where
  "request_path url = split_on CHR ''/'' (drop 1 url)"

lemma request_path_slash: "request_path (CHR ''/'' # s) = split_on CHR ''/'' s"
  by (simp add: request_path_def)

lemma service_routes:
  "route (request_path ''/root.xml'') = Some (Some [''GET'', ''HEAD''], RootDescription)"
  "route (request_path (sn_scpd content_directory_service)) =
    Some (Some [''GET'', ''HEAD''], ContentDirectoryScpd)"
  "route (request_path (sn_scpd connection_manager_service)) =
    Some (Some [''GET'', ''HEAD''], ConnectionManagerScpd)"
  "route (request_path (sn_control content_directory_service)) =
    Some (Some [''POST''], ContentDirectoryControl)"
  "route (request_path (sn_control connection_manager_service)) =
    Some (Some [''POST''], ConnectionManagerControl)"
  "route (request_path (sn_events content_directory_service)) = Some (None, ContentDirectoryEvents)"
  "route (request_path (sn_events connection_manager_service)) = Some (None, ConnectionManagerEvents)"
  by code_simp+

text \<open>What a request of a method for a path is answered, and what it leaves behind.\<close>

definition answer ::
  "http_env \<Rightarrow> string \<Rightarrow> string \<Rightarrow> http_request \<Rightarrow> app_state \<Rightarrow> disk \<Rightarrow>
    http_response \<times> app_state \<times> disk \<times> scheduled" where
  "answer env verb url req st d =
    handle_request env (req\<lparr>hr_method := verb, hr_path := request_path url\<rparr>) st d"

lemma answer_routed:
  "route (request_path url) = Some (methods, h) \<Longrightarrow> allowed methods verb \<Longrightarrow> verb \<noteq> ''HEAD'' \<Longrightarrow>
    answer env verb url req st d =
      run_handler h env (req\<lparr>hr_method := verb, hr_path := request_path url\<rparr>) st d"
  by (simp add: answer_def handle_request_def without_body_def)

definition serves ::
  "http_env \<Rightarrow> service_info \<Rightarrow> string \<Rightarrow> event_service \<Rightarrow> http_request \<Rightarrow> app_state \<Rightarrow> disk \<Rightarrow> bool" where
  "serves env sn document service req st d =
    (answer env ''GET'' (sn_scpd sn) req st d = (xml_response 200 document, st, d, None)
     \<and> (\<forall>verb \<in> {''SUBSCRIBE'', ''UNSUBSCRIBE''}. answer env verb (sn_events sn) req st d =
          (case event_request env service
              (req\<lparr>hr_method := verb, hr_path := request_path (sn_events sn)\<rparr>) st of
             (r, st', s) \<Rightarrow> (r, st', d, s))))"

lemma services_served:
  "serves env content_directory_service CONTENT_DIRECTORY_SCPD ContentDirectory req st d"
  "serves env connection_manager_service CONNECTION_MANAGER_SCPD ConnectionManager req st d"
  unfolding serves_def
  by (auto simp: answer_routed [OF service_routes(2)] answer_routed [OF service_routes(3)]
      answer_routed [OF service_routes(6)] answer_routed [OF service_routes(7)] allowed_def
      run_handler_def content_directory_scpd_def connection_manager_scpd_def)

text \<open>C19. What discovery announces is what is served: in every reachable state the location in the
  advertisements is the server's address with the path of the device description; a request there
  gets the description, with the advertised identifier and the list of both services; and the
  addresses listed for a service lead to its own description, to its control handler, and, for
  subscriptions, to its own events.\<close>

theorem discovery_consistent:
  fixes max_age :: u32
  assumes "start_server ho config_path cfg fs = Some (Inr s)"
    and "interleaved (sv_app s) d0 tk"
  defines "st \<equiv> tk_app tk" and "sd \<equiv> new_ssdp_server (sv_interface s) (sv_port s) (as_udn (sv_app s)) max_age"
  shows "sd_location sd = as_base_url st @ ''/root.xml''
    \<and> sd_advertisements sd = advertisements (as_udn st)
    \<and> (\<exists>a b. answer env ''GET'' ''/root.xml'' req st d =
        (xml_response 200 (device_description (friendly_name (as_config st)) (as_udn st) (as_base_url st)),
         st, d, None)
       \<and> device_description (friendly_name (as_config st)) (as_udn st) (as_base_url st) =
          a @ service_list @ b)
    \<and> serves env content_directory_service CONTENT_DIRECTORY_SCPD ContentDirectory req st d
    \<and> answer env ''POST'' (sn_control content_directory_service) req st d =
        (case content_directory_control env (hr_headers req) (hr_body req) st d of
           (r, st', d') \<Rightarrow> (r, st', d', None))
    \<and> serves env connection_manager_service CONNECTION_MANAGER_SCPD ConnectionManager req st d
    \<and> answer env ''POST'' (sn_control connection_manager_service) req st d =
        (connection_manager_control env (hr_headers req) (hr_body req), st, d, None)"
proof -
  have base: "as_base_url st = base_url_of (sv_interface s) (sv_port s)" "as_udn st = as_udn (sv_app s)"
    using interleaved_addresses [OF assms(2)] started_address [OF assms(1)] by (simp_all add: st_def)
  have root: "answer env ''GET'' ''/root.xml'' req st d =
      (xml_response 200 (device_description (friendly_name (as_config st)) (as_udn st) (as_base_url st)),
       st, d, None)"
    by (simp add: answer_routed [OF service_routes(1)] allowed_def run_handler_def root_description_def)
  have control: "answer env ''POST'' (sn_control content_directory_service) req st d =
      (case content_directory_control env (hr_headers req) (hr_body req) st d of
         (r, st', d') \<Rightarrow> (r, st', d', None))"
    "answer env ''POST'' (sn_control connection_manager_service) req st d =
      (connection_manager_control env (hr_headers req) (hr_body req), st, d, None)"
    by (simp_all add: answer_routed [OF service_routes(4)] answer_routed [OF service_routes(5)]
        allowed_def run_handler_def)
  have "sd_location sd = as_base_url st @ ''/root.xml''" "sd_advertisements sd = advertisements (as_udn st)"
    by (simp_all add: sd_def new_ssdp_server_def base base_url_of_def)
  with root control services_served description_services show ?thesis by simp
qed

theorem discovery_consistent_witness:
  "\<exists>s. start_server example_host [''j.toml''] example_config (\<lambda>_. None) = Some (Inr s)
    \<and> sd_location (new_ssdp_server (sv_interface s) (sv_port s) (as_udn (sv_app s)) 1800) =
      as_base_url (sv_app s) @ ''/root.xml''"
proof -
  obtain s where s: "start_server example_host [''j.toml''] example_config (\<lambda>_. None) = Some (Inr s)"
    using example_started by blast
  note run = interleaved.start [of "sv_app s" example_disk]
  from discovery_consistent [OF s run, THEN conjunct1, of 1800] s show ?thesis by auto
qed

section \<open>Links\<close>

text \<open>An identifier of a scan is the name of one kind followed by hexadecimal digits.\<close>

lemma hex_digit_plain: "d < 16 \<Longrightarrow> is_ascii_alphanumeric (hex_digit d)"
  by (simp add: is_ascii_alphanumeric_def is_ascii_digit_def byte_hex_digit)

lemma hex_pad_plain: "list_all is_ascii_alphanumeric (hex_pad k n)"
  by (induction k n rule: hex_pad.induct) (simp_all add: hex_digit_plain)

lemma object_id_plain:
  "is_ascii_alphanumeric kind \<Longrightarrow> list_all is_ascii_alphanumeric (object_id kind r p)"
  by (simp add: object_id_def hex16_def hex_pad_plain)

lemma scanned_id_plain:
  assumes "scan_with_minimum_age fs cfg age = Some (Inr r)" and "catalog_entry (scan_catalog r) k = Some e"
  shows "e_id e = k \<and> k \<noteq> [] \<and> list_all is_ascii_alphanumeric k"
proof -
  from scanned_catalog_sound [OF assms] obtain share where
    e: "e_id e = k" "share_gives fs (scanner cfg) age share e" by blast
  then obtain kind h q where k: "k = object_id kind h q" "kind = CHR ''d'' \<or> kind = CHR ''f''"
    by (auto simp: share_gives_def scanned_def found_def root_entry_def directory_entry_def media_entry_def)
  have "is_ascii_alphanumeric kind"
    using k(2) by (auto simp: is_ascii_alphanumeric_def)
  then show ?thesis using e k(1) object_id_plain by (auto simp: object_id_def)
qed

text \<open>The path of a link, and how the routes see it.\<close>

definition resource_path :: "entry \<Rightarrow> string" where
  "resource_path e = ''/media/'' @ e_id e @ ''/file.'' @ url_extension (e_path e)"

lemma plain_no_slash: "list_all is_ascii_alphanumeric s \<Longrightarrow> CHR ''/'' \<notin> set s"
  by (auto simp: list_all_iff is_ascii_alphanumeric_def is_ascii_digit_def)

lemma url_extension_plain: "list_all is_ascii_alphanumeric (url_extension p)"
  by (auto simp: url_extension_def is_ascii_alphanumeric_def split: option.split)

lemma resource_path_segments:
  assumes "list_all is_ascii_alphanumeric (e_id e)"
  shows "request_path (resource_path e) = [''media'', e_id e, ''file.'' @ url_extension (e_path e)]"
proof -
  note plain = plain_no_slash [OF assms] plain_no_slash [OF url_extension_plain]
  have "split_on CHR ''/'' (''media'' @ CHR ''/'' # e_id e @ CHR ''/'' # ''file.'' @ url_extension (e_path e)) =
      [''media'', e_id e, ''file.'' @ url_extension (e_path e)]"
    by (subst split_on_prefix, simp, subst split_on_prefix, rule plain, subst split_on_plain) (use plain in auto)
  then show ?thesis by (simp add: request_path_def resource_path_def)
qed

lemma media_route: "i \<noteq> [] \<Longrightarrow> n \<noteq> [] \<Longrightarrow> route [''media'', i, n] = Some (Some [''GET'', ''HEAD''], MediaFile)"
  by (simp add: route_def routes_def)

text \<open>C5. Every link of the catalog leads to its file: in every reachable state, for every published
  media entry, the address that \<open>Browse\<close> gives is the server's address with a path, and a plain
  request for that path answers, as long as the file can be read, with exactly the content of the
  entry's file and its media type, and changes nothing.\<close>

theorem media_link:
  assumes "start_server ho config_path cfg fs = Some (Inr s)"
    and "\<And>t m. ho_from_toml ho t = Inr m \<Longrightarrow> bt_ok m"
    and "interleaved (sv_app s) d0 tk"
    and "catalog_entry (as_catalog (tk_app tk)) i = Some e" and "e_kind e = Media k"
    and "readable (he_media env) (e_path e) content" and "length content < 2 ^ 64"
    and "hr_headers req ''range'' = None"
  defines "st \<equiv> tk_app tk"
  shows "resource_url (as_base_url st) e = as_base_url st @ resource_path e
    \<and> (\<exists>r. answer env ''GET'' (resource_path e) req st d = (r, st, d, None)
      \<and> rs_status r = 200 \<and> rs_body r = content
      \<and> map_of (rs_headers r) ''content-type'' = Some (mk_mime_type k))"
proof -
  have "tasks_inv (sv_app s) tk" using interleaved_inv [OF assms(3) started_inv [OF assms(1,2)]] .
  then obtain tree r where r: "scan_settled tree (target_config tk) = Some (Inr r)"
    "catalog_entry (scan_catalog r) i = Some e"
    using assms(4) by (auto simp: tasks_inv_parts)
  have id: "e_id e = i" "i \<noteq> []" "list_all is_ascii_alphanumeric (e_id e)"
    using scanned_id_plain [OF r(1) [unfolded scan_settled_def] r(2)] by auto
  note path = resource_path_segments [OF id(3)]
  let ?r = "media (he_media env) (as_catalog st) i ''GET'' (hr_headers req)"
  have "answer env ''GET'' (resource_path e) req st d = (?r, st, d, None)"
    using id by (subst answer_routed [OF _ _ _, of _ "Some [''GET'', ''HEAD'']" MediaFile])
      (simp_all add: path media_route allowed_def run_handler_def)
  moreover have "rs_status ?r = 200 \<and> rs_body ?r = content
      \<and> map_of (rs_headers ?r) ''content-type'' = Some (mk_mime_type k)"
  proof -
    have whole: "parse_range (hr_headers req ''range'') (word_of_nat (length content)) =
        Inr \<lparr>rg_start = 0, rg_end = saturating_sub (word_of_nat (length content)) 1, rg_partial = False\<rparr>"
      by (simp add: parse_range_def assms(8))
    have size: "unat (word_of_nat (length content) :: u64) = length content"
      using assms(7) by (simp add: unat_of_nat)
    show ?thesis unfolding media_get [where headers = "hr_headers req", OF assms(4-6) [folded st_def] whole assms(7)]
      by (simp add: range_bytes_def unat_saturating_sub size)
  qed
  ultimately show ?thesis by (simp add: resource_url_def resource_path_def)
qed

theorem media_link_witness:
  "\<exists>s r. start_server example_host [''j.toml''] example_config (\<lambda>_. None) = Some (Inr s)
    \<and> answer example_http_env ''GET'' (resource_path (example_file 0))
        \<lparr>hr_method = [], hr_path = [], hr_headers = (\<lambda>_. None), hr_body = [], hr_peer = V4 (10, 0, 0, 5)\<rparr>
        (sv_app s) example_disk = (r, sv_app s, example_disk, None)
    \<and> rs_body r = ''abcd''"
proof -
  obtain s where s: "start_server example_host [''j.toml''] example_config (\<lambda>_. None) = Some (Inr s)"
    "catalog_entry (as_catalog (sv_app s)) (e_id (example_file 0)) = Some (example_file 0)"
    using example_started by blast
  note run = interleaved.start [of "sv_app s" example_disk]
  have env: "readable (he_media example_http_env) (e_path (example_file 0)) ''abcd''"
    using example_media_entry(3) by (simp add: example_http_env_def)
  let ?req = "\<lparr>hr_method = [], hr_path = [], hr_headers = (\<lambda>_. None), hr_body = [],
    hr_peer = V4 (10, 0, 0, 5)\<rparr>"
  have req: "length ''abcd'' < 2 ^ 64" "hr_headers ?req ''range'' = None" by simp_all
  from media_link [where i = "e_id (example_file 0)" and d = example_disk,
      OF s(1) _ run _ example_media_entry(2) env req, THEN conjunct2]
    example_from_toml_ok s
  show ?thesis by auto
qed

section \<open>The end of the server\<close>

lemma wait_for_shutdown_iff:
  "wait_for_shutdown flag changes \<longleftrightarrow> flag \<or> None \<in> set changes \<or> Some True \<in> set changes"
  by (induction flag changes rule: wait_for_shutdown.induct) auto

lemma socket_calls_Inl:
  "socket_calls faults calls = Inl e \<Longrightarrow>
    \<exists>before call after err. calls = before @ call # after \<and> (\<forall>c \<in> set before. faults c = None)
      \<and> faults call = Some err \<and> e = SocketError err"
proof (induction faults calls rule: socket_calls.induct)
  case (2 faults call calls)
  show ?case
  proof (cases "faults call")
    case None
    with 2 obtain before c after err where "calls = before @ c # after" "\<forall>c \<in> set before. faults c = None"
      "faults c = Some err" "e = SocketError err" by (auto simp: bind_result_Inl_iff)
    with None show ?thesis by (intro exI [of _ "call # before"]) auto
  next
    case (Some err)
    with 2(2) show ?thesis by (intro exI [of _ "[]"]) auto
  qed
qed simp

text \<open>The raised flag ends the HTTP server.\<close>

lemma flag_ends_http: "shutdown_signal ctrl_c False [Some True]"
  by (simp add: shutdown_signal_def)

lemma no_flag: "shutdown_signal ctrl_c False [] = ctrl_c"
  by (simp add: shutdown_signal_def)

text \<open>C7. The end of the server.  If discovery's socket cannot be set up, discovery sends nothing, the
  HTTP server is told to stop and waited for, and the result is the error of the first call that
  failed.  Otherwise, with a lifetime the configuration accepts, the server goes on as long as its HTTP
  part does; once that ends, by the user's
  interrupt or an error, discovery is told, the last messages of its own revoke every announcement,
  and the result is that of the HTTP part.  Only answers to searches that still wait can leave the
  socket after those messages.\<close>

theorem shutdown_complete:
  assumes "start_server ho config_path cfg fs = Some (Inr s)"
    and "60 \<le> ssdp_max_age_seconds (network cfg)"
    and "\<forall>ev \<in> set evs. \<not> stops ev"
  defines "udn \<equiv> stable_udn ho config_path"
  defines "sd \<equiv> new_ssdp_server (sv_interface s) (sv_port s) udn (ssdp_max_age_seconds (network cfg))"
  defines "running \<equiv> reaction sd RefreshTick @ concat (map (reaction sd) evs)"
  defines "out \<equiv> running @ map (Send ssdp_destination \<circ> byebye_message) (advertisements udn)"
  shows "case create_socket faults (sv_interface s) of
      Inl e \<Rightarrow>
        serve ho config_path cfg fs faults evs ctrl_c http =
          Some ([], map_option (\<lambda>_. Inl (SsdpFailed e)) (http True))
        \<and> (\<exists>before call after err. socket_sequence (sv_interface s) = before @ call # after
            \<and> (\<forall>c \<in> set before. faults c = None) \<and> faults call = Some err \<and> e = SocketError err)
    | Inr _ \<Rightarrow>
        serve ho config_path cfg fs faults evs ctrl_c http =
          Some (case http ctrl_c of
             None \<Rightarrow> (running, None)
           | Some http_result \<Rightarrow>
             (out, Some (case http_result of Inr _ \<Rightarrow> Inr () | Inl e \<Rightarrow> Inl (HttpFailed e))))
        \<and> (\<forall>acts w. transmit acts (on_wire out) = Some w \<and> wi_left w = [] \<longrightarrow>
            own_sent w = sends running @ map (\<lambda>ad. (ssdp_destination, byebye_message ad)) (advertisements udn))"
proof -
  let ?age = "ssdp_max_age_seconds (network cfg)"
  have udn: "as_udn (sv_app s) = udn"
    using assms(1) by (cases rule: start_server_Inr) (simp add: udn_def)
  have serve: "serve ho config_path cfg fs faults evs ctrl_c http =
      Some (run_tasks faults (sv_interface s) (sv_port s) udn ?age evs ctrl_c http)"
    by (simp add: serve_def assms(1) udn)
  show ?thesis
  proof (cases "create_socket faults (sv_interface s)")
    case (Inl e)
    then have "\<exists>before call after err. socket_sequence (sv_interface s) = before @ call # after
        \<and> (\<forall>c \<in> set before. faults c = None) \<and> faults call = Some err \<and> e = SocketError err"
      unfolding create_socket_def by (rule socket_calls_Inl)
    with Inl show ?thesis
      by (simp add: serve run_tasks_def ssdp_task_def map_runtime_results_def flag_ends_http)
  next
    case (Inr made)
    have all: "takeWhile (\<lambda>ev. \<not> stops ev) evs = evs" using assms(3) by (simp add: takeWhile_eq_all_conv)
    then have tail: "takeWhile (\<lambda>ev. \<not> stops ev) (evs @ [ShutdownChanged (Some True)]) = evs"
      using assms(3) by (simp add: takeWhile_tail stops_def)
    have stop: "stops (ShutdownChanged (Some True))" by (simp add: stops_def)
    have "run_ssdp (sv_interface s) (sv_port s) udn ?age evs = Some (running, False)"
      "run_ssdp (sv_interface s) (sv_port s) udn ?age (evs @ [ShutdownChanged (Some True)]) = Some (out, True)"
      using assms(3) stop
      by (simp_all add: run_ssdp_runs [OF assms(2)] life_def all tail running_def out_def sd_def byebyes_def)
    then have "run_tasks faults (sv_interface s) (sv_port s) udn ?age evs ctrl_c http =
        (case http ctrl_c of
             None \<Rightarrow> (running, None)
           | Some http_result \<Rightarrow>
             (out, Some (case http_result of Inr _ \<Rightarrow> Inr () | Inl e \<Rightarrow> Inl (HttpFailed e))))"
      by (auto simp: run_tasks_def ssdp_task_def Inr no_flag map_runtime_results_def split: option.split sum.split)
    moreover have "own_sent w = sends running
        @ map (\<lambda>ad. (ssdp_destination, byebye_message ad)) (advertisements udn)"
      if "transmit acts (on_wire out) = Some w" "wi_left w = []" for acts w
    proof -
      have "own_sent w = sends out" using transmitted(1) [OF that(1)] that(2) by auto
      also have "\<dots> = sends running @ map (\<lambda>ad. (ssdp_destination, byebye_message ad)) (advertisements udn)"
        by (simp add: out_def sends_def comp_def)
      finally show ?thesis .
    qed
    ultimately show ?thesis using Inr by (auto simp: serve)
  qed
qed

theorem shutdown_complete_witness:
  "\<exists>out. serve example_host [''j.toml''] example_config (\<lambda>_. None) (\<lambda>_. None) [RefreshTick] True
      (\<lambda>signal. if signal then Some (Inr ()) else None) =
    Some (out @ map (Send ssdp_destination \<circ> byebye_message) (advertisements ''uuid:1''), Some (Inr ()))
    \<and> length out = 20"
proof -
  obtain s where s: "start_server example_host [''j.toml''] example_config (\<lambda>_. None) = Some (Inr s)"
    using example_started by blast
  have age: "60 \<le> ssdp_max_age_seconds (network example_config)"
    by (simp add: example_config_def default_network_def)
  have "\<forall>ev \<in> set [RefreshTick]. \<not> stops ev" by (simp add: stops_def)
  moreover have udn: "stable_udn example_host [''j.toml''] = ''uuid:1''"
    by (simp add: stable_udn_def example_host_def)
  moreover obtain made where "create_socket (\<lambda>_. None) (sv_interface s) = Inr made"
    by (simp add: create_socket_def socket_sequence_def)
  moreover have "length (reaction (new_ssdp_server i p ''uuid:1'' a) RefreshTick) = 10" for i p a
    by (simp add: reaction_def new_ssdp_server_def advertisements_def Let_def)
  ultimately show ?thesis
    using shutdown_complete [OF s age, of "[RefreshTick]" "\<lambda>_. None" True
        "\<lambda>signal. if signal then Some (Inr ()) else None"]
    by (auto simp: append_assoc [symmetric] simp del: append_assoc)
qed

end
