(* ===== verification/Response_Properties.thy ===== *)
theory Response_Properties
  imports Server_Properties
begin

text \<open>
  Every answer of the server is a well-formed HTTP response.  The library refuses header values
  with control characters, and the handlers \<open>unwrap\<close> what they build, so this also says that no
  handler panics.
\<close>

section \<open>Well-formed responses\<close>

text \<open>\<open>too_large\<close> says that the request's body is beyond what the server takes.\<close>

definition well_formed :: "bool \<Rightarrow> bool \<Rightarrow> http_response \<Rightarrow> bool" where
  "well_formed too_large sends_body r =
    ((rs_status r \<in> {200, 206, 400, 404, 405, 412, 416, 500} \<or> (too_large \<and> rs_status r = 413))
     \<and> distinct (map fst (rs_headers r)) \<and> list_all (\<lambda>(_, v). header_text v) (rs_headers r)
     \<and> (sends_body \<longrightarrow>
          (case map_of (rs_headers r) ''content-length'' of
             None \<Rightarrow> rs_body r = []
           | Some v \<Rightarrow> v = show_nat (length (rs_body r)))))"

lemma header_text_simps [simp]:
  "header_text []" "header_text (s @ t) \<longleftrightarrow> header_text s \<and> header_text t"
  "header_text (c # s) \<longleftrightarrow> (byte c = 9 \<or> (0x20 \<le> byte c \<and> byte c < 0x7F)) \<and> header_text s"
  "header_text (show_nat n)" "header_text (show_word w)"
proof -
  have "32 \<le> byte c \<and> byte c < 127" if "c \<in> set (show_nat n)" for c n
    using show_nat_digits [OF that] by (simp add: is_ascii_digit_def)
  then show "header_text []" "header_text (s @ t) \<longleftrightarrow> header_text s \<and> header_text t"
    "header_text (c # s) \<longleftrightarrow> (byte c = 9 \<or> (0x20 \<le> byte c \<and> byte c < 0x7F)) \<and> header_text s"
    "header_text (show_nat n)" "header_text (show_word w)"
    by (auto simp: header_text_def show_word_def)
qed

lemma header_text_constants: "header_text SERVER" "header_text XML_CONTENT_TYPE"
  by code_simp+

lemma media_table_headers:
  "list_all (\<lambda>(_, k). header_text (mk_mime_type k) \<and> header_text (content_features k)) media_table"
  by code_simp

section \<open>Responses of the handlers\<close>

lemma response_well_formed: "status \<in> {200, 500} \<Longrightarrow> header_text t \<Longrightarrow> well_formed big b (response status t body)"
  by (auto simp: well_formed_def response_def header_text_constants)

lemma soap_well_formed: "well_formed big b (soap_success body)" "well_formed big b (soap_error e)"
  "well_formed big b (soap_result r)"
  by (auto simp: well_formed_def soap_result_def soap_success_def soap_error_def insert_header_def
      xml_response_def response_def header_text_constants split: sum.split)

lemma status_well_formed: "status \<in> {404, 405, 412, 500} \<Longrightarrow> well_formed big b (status_response status)"
  by (auto simp: well_formed_def status_response_def)

lemma set_bookmark_well_formed: "set_bookmark env args st d = (r, st', d') \<Longrightarrow> well_formed big b r"
  by (auto simp: set_bookmark_def soap_well_formed Let_def split: option.splits if_splits prod.splits sum.splits)

text \<open>
  The extractor of the body as it is documented: the bytes, or 413 for a body beyond the default limit
  of two megabytes, or 400 for one that could not be received.
\<close>

definition body_limit :: nat where
  "body_limit = 2 * 1024 * 1024"

definition extracts_bytes :: "(string \<Rightarrow> (nat \<times> string) + string) \<Rightarrow> bool" where
  "extracts_bytes f =
    (\<forall>body. case f body of
       Inl (status, _) \<Rightarrow> status = 400 \<or> (status = 413 \<and> body_limit < length body)
     | Inr received \<Rightarrow> received = body \<and> length body \<le> body_limit)"

lemma rejection_well_formed:
  "extracts_bytes f \<Longrightarrow> f body = Inl refused \<Longrightarrow>
    well_formed (body_limit < length body) b (rejection refused)"
  by (drule extracts_bytes_def [THEN iffD1, THEN spec [where x = body]])
    (auto simp: well_formed_def rejection_def split: prod.splits)

lemma content_directory_control_well_formed:
  "content_directory_control env headers body st d = (r, st', d') \<Longrightarrow> extracts_bytes (he_bytes env) \<Longrightarrow>
    well_formed (body_limit < length body) b r"
  by (auto simp: content_directory_control_def soap_well_formed set_bookmark_well_formed
      rejection_well_formed split: sum.splits prod.splits if_splits)

lemma connection_manager_control_well_formed:
  "extracts_bytes (he_bytes env) \<Longrightarrow>
    well_formed (body_limit < length body) b (connection_manager_control env headers body)"
  by (auto simp: connection_manager_control_def soap_well_formed rejection_well_formed
      split: sum.split prod.split)

text \<open>Every identifier of a subscription can be sent back.\<close>

definition sids_ok :: "event_manager \<Rightarrow> bool" where
  "sids_ok em = (\<forall>sid \<in> dom (hm_get (em_subscriptions em)). header_text sid)"

lemma sids_ok_prune:
  "hm_ok (em_subscriptions em) \<Longrightarrow> sids_ok em \<Longrightarrow>
    sids_ok (em\<lparr>em_subscriptions := prune_expired now (em_subscriptions em)\<rparr>)"
  by (auto simp: sids_ok_def prune_get dom_def)

lemma subscribe_sids:
  assumes run: "subscribe now later uuid service headers requester em = (r, em')"
    and em: "manager_inv em" "sids_ok em" and uuid: "header_text uuid"
  shows "sids_ok em' \<and> (\<forall>sub. r = Inr sub \<longrightarrow> header_text (sr_sid sub))"
proof (cases "headers ''sid''")
  case None
  then show ?thesis
  proof (cases rule: subscribe_new_cases [where em = em and requester = requester and now = now
        and later = later and uuid = uuid and service = service])
    case (granted v cb)
    then show ?thesis using run em(2) uuid
      by (auto simp: subscribe_new [OF None granted(1-5)] sids_ok_def dom_def split: if_splits)
  qed (use run em in simp)
next
  case (Some sid)
  note ok = manager_inv_ok [OF em(1)]
  from Some show ?thesis
  proof (cases rule: subscribe_renew_cases [where em = em and requester = requester and now = now
        and later = later and uuid = uuid and service = service])
    case (refused e em'')
    then show ?thesis using run em(2) sids_ok_prune [OF ok em(2)] by auto
  next
    case (granted s)
    have "header_text sid" using granted(3) em(2) by (auto simp: sids_ok_def prune_get [OF ok] dom_def)
    then show ?thesis using run em(2)
      by (auto simp: subscribe_renew [OF Some granted] sids_ok_def prune_get [OF ok] dom_def
          split: if_splits)
  qed
qed

lemma unsubscribe_sids:
  "unsubscribe service headers em = (r, em') \<Longrightarrow> manager_inv em \<Longrightarrow> sids_ok em \<Longrightarrow> sids_ok em'"
  by (auto simp: unsubscribe_def sids_ok_def dom_def hm.get_del [OF manager_inv_ok]
      split: option.splits if_splits)

lemma show_zero: "show_nat 0 = ''0''"
  by code_simp

lemma event_error_well_formed: "well_formed big b (event_error e)"
  by (auto simp: well_formed_def event_error_def header_text_constants show_zero
      split: subscription_error.split)

lemma granted_well_formed:
  "header_text sid \<Longrightarrow> well_formed big b (insert_header ''ext'' []
    \<lparr>rs_status = 200, rs_headers = [(''server'', SERVER), (''content-length'', ''0''), (''sid'', sid),
      (''timeout'', ''Second-'' @ show_word w)], rs_body = []\<rparr>)"
  by (simp add: well_formed_def insert_header_def header_text_constants show_zero)

lemma event_request_well_formed:
  assumes run: "event_request env service req st = (r, st', s)" and inv: "manager_inv (as_events st)"
    and sids: "sids_ok (as_events st)" and uuid: "header_text (he_uuid env)"
  shows "well_formed big b r \<and> sids_ok (as_events st')"
proof (cases "hr_method req = ''SUBSCRIBE''")
  case True
  show ?thesis
  proof (cases "hr_peer req")
    case (V4 requester)
    obtain x em where sub: "subscribe (he_now env) (he_later env) (he_uuid env) service (hr_headers req)
        requester (as_events st) = (x, em)" by fastforce
    from subscribe_sids [OF sub inv sids uuid] run True V4 sub show ?thesis
      by (auto simp: event_request_def event_error_well_formed granted_well_formed [simplified] split: sum.splits)
  next
    case (V6 a)
    with run True sids show ?thesis by (auto simp: event_request_def status_well_formed)
  qed
next
  case False
  obtain x em where un: "unsubscribe service (hr_headers req) (as_events st) = (x, em)" by fastforce
  have "well_formed big b \<lparr>rs_status = 200,
      rs_headers = [(''server'', SERVER), (''content-length'', ''0'')], rs_body = []\<rparr>"
    by (simp add: well_formed_def header_text_constants show_zero)
  with unsubscribe_sids [OF un inv sids] run False un sids show ?thesis
    by (auto simp: event_request_def event_error_well_formed status_well_formed
        split: sum.splits if_splits)
qed

section \<open>Streamed files\<close>

text \<open>Files do not change between the look at their size and the reading.\<close>

definition steady :: "media_files \<Rightarrow> bool" where
  "steady mf =
    (\<forall>p m content. mf_metadata mf p = Inr m \<longrightarrow> mf_open mf p = Some content \<longrightarrow>
      unat (md_len m) = length content)"

definition known_kinds :: "catalog \<Rightarrow> bool" where
  "known_kinds c =
    (\<forall>i e k. catalog_entry c i = Some e \<longrightarrow> e_kind e = Media k \<longrightarrow> k \<in> snd ` set media_table)"

lemma media_body_length:
  assumes "steady mf" and "mf_metadata mf p = Inr m" and "parse_range v (md_len m) = Inr rng"
    and "media_body mf p method rng (range_length (md_len m) rng) = Inr body" and "method \<noteq> ''HEAD''"
  shows "length body = unat (range_length (md_len m) rng)"
proof (cases "range_length (md_len m) rng = 0")
  case True
  then show ?thesis using assms(4) by (simp add: media_body_def)
next
  case False
  then obtain content where c: "mf_open mf p = Some content"
    "body = take (unat (range_length (md_len m) rng)) (drop (unat (rg_start rng)) content)"
    using assms(4,5) by (auto simp: media_body_def split: option.splits if_splits)
  have "unat (md_len m) = length content" using assms(1,2) c(1) by (simp add: steady_def)
  from range_bytes_length [OF assms(3) this] show ?thesis by (simp add: c(2))
qed

lemma media_well_formed:
  assumes "steady mf" and "known_kinds c"
  shows "well_formed big (method \<noteq> ''HEAD'') (media mf c obj method headers)"
proof -
  have kind: "header_text (mk_mime_type k)" "header_text (content_features k)"
    if "catalog_entry c obj = Some e" "e_kind e = Media k" for e k
    using that assms(2) media_table_headers by (fastforce simp: known_kinds_def list_all_iff)+
  have range: "well_formed big b (unsatisfiable n)" for big b n
    by (simp add: well_formed_def unsatisfiable_def show_zero)
  have len: "show_word (range_length (md_len m) rng) = show_nat (length body)"
    if "mf_metadata mf p = Inr m" "parse_range v (md_len m) = Inr rng"
      "media_body mf p method rng (range_length (md_len m) rng) = Inr body" "method \<noteq> ''HEAD''"
    for p m v rng body
    using media_body_length [OF assms(1) that] by (simp add: show_word_def)
  have status: "status \<in> {404, 500}" if "media_body mf p method rng n = Inl status" for p rng n status
    using that by (auto simp: media_body_def split: if_splits option.splits)
  show ?thesis
  proof (cases "\<exists>e k m rng body. catalog_entry c obj = Some e \<and> e_kind e = Media k
      \<and> mf_metadata mf (e_path e) = Inr m \<and> is_file m
      \<and> parse_range (headers ''range'') (md_len m) = Inr rng
      \<and> media_body mf (e_path e) method rng (range_length (md_len m) rng) = Inr body")
    case True
    then obtain e k m rng body where found: "catalog_entry c obj = Some e" "e_kind e = Media k"
      "mf_metadata mf (e_path e) = Inr m" "is_file m"
      "parse_range (headers ''range'') (md_len m) = Inr rng"
      "media_body mf (e_path e) method rng (range_length (md_len m) rng) = Inr body" by blast
    then show ?thesis using kind [OF found(1,2)] len [OF found(3,5,6)]
      by (simp add: media_def well_formed_def header_text_constants)
  next
    case False
    then show ?thesis using status status_well_formed range
      by (fastforce simp: media_def Let_def split: option.split entry_kind.split sum.split)
  qed
qed

section \<open>The server\<close>

lemma scanned_kinds:
  assumes "scan_with_minimum_age fs cfg age = Some (Inr r)"
  shows "known_kinds (scan_catalog r)"
proof -
  have "k \<in> snd ` set media_table" if "share_gives fs opts age share e" "e_kind e = Media k" for opts share e k
    using that media_kind_in_table
    by (auto simp: share_gives_def scanned_def found_def root_entry_def directory_entry_def media_entry_def
        publishes_def shareable_def)
  with scanned_catalog_sound [OF assms] show ?thesis unfolding known_kinds_def by blast
qed

lemma interleaved_kinds: "tasks_inv st0 tk \<Longrightarrow> known_kinds (as_catalog (tk_app tk))"
  using scanned_kinds unfolding tasks_inv_parts known_kinds_def scan_settled_def by metis

lemma run_handler_well_formed:
  assumes run: "run_handler h env req st d = (r, st', d', s)" and inv: "manager_inv (as_events st)"
    and sids: "sids_ok (as_events st)" and uuid: "header_text (he_uuid env)"
    and files: "steady (he_media env)" and bytes: "extracts_bytes (he_bytes env)" and kinds: "known_kinds (as_catalog st)"
  shows "well_formed (body_limit < length (hr_body req)) (hr_method req \<noteq> ''HEAD'') r \<and> sids_ok (as_events st')"
proof (cases h)
  case ContentDirectoryControl
  then show ?thesis using run sids bytes
    by (auto simp: run_handler_def content_directory_control_well_formed
        dest: content_directory_control_events split: prod.splits)
next
  case ContentDirectoryEvents
  then show ?thesis using run event_request_well_formed [OF _ inv sids uuid]
    by (auto simp: run_handler_def split: prod.splits)
next
  case ConnectionManagerEvents
  then show ?thesis using run event_request_well_formed [OF _ inv sids uuid]
    by (auto simp: run_handler_def split: prod.splits)
next
  case MediaFile
  then show ?thesis using run sids media_well_formed [OF files kinds]
    by (auto simp: run_handler_def)
qed (use run sids bytes in \<open>auto simp: run_handler_def presentation_def root_description_def
      content_directory_scpd_def connection_manager_scpd_def xml_response_def header_text_constants
      connection_manager_control_well_formed intro!: response_well_formed\<close>)

text \<open>C6. Every answer is a well-formed response: in every reachable state, for every request, the status
  is one of nine, of which 413 only answers a body beyond axum's limit; no header comes twice, every
  header value is one that HTTP allows, so that building the response does not panic, and the
  announced length is that of the body, provided files do not change between the look at their size
  and the reading; and identifiers of subscriptions stay fit to be sent back.  The path is taken as
  the segments axum gives; that it refuses escapes in them that are not UTF-8 is not modelled.\<close>

theorem responses_well_formed:
  assumes "start_server ho config_path cfg fs = Some (Inr s)"
    and "\<And>t m. ho_from_toml ho t = Inr m \<Longrightarrow> bt_ok m"
    and "interleaved (sv_app s) d0 tk"
    and "\<forall>sid \<in> dom (hm_get (em_subscriptions (as_events (tk_app tk)))). header_text sid"
    and "header_text (he_uuid env)" and "steady (he_media env)" and "extracts_bytes (he_bytes env)"
    and "handle_request env req (tk_app tk) d = (r, st', d', due)"
  shows "rs_status r \<in> {200, 206, 400, 404, 405, 412, 413, 416, 500}
    \<and> (rs_status r = 413 \<longrightarrow> body_limit < length (hr_body req))
    \<and> distinct (map fst (rs_headers r)) \<and> (\<forall>(name, v) \<in> set (rs_headers r). header_text v)
    \<and> (if hr_method req = ''HEAD'' then rs_body r = []
       else case map_of (rs_headers r) ''content-length'' of
         None \<Rightarrow> rs_body r = []
       | Some v \<Rightarrow> v = show_nat (length (rs_body r)))
    \<and> (\<forall>sid \<in> dom (hm_get (em_subscriptions (as_events st'))). header_text sid)"
proof -
  let ?ok = "well_formed (body_limit < length (hr_body req)) (hr_method req \<noteq> ''HEAD'')"
  have inv: "tasks_inv (sv_app s) tk" using interleaved_inv [OF assms(3) started_inv [OF assms(1,2)]] .
  then have em: "manager_inv (as_events (tk_app tk))" and kinds: "known_kinds (as_catalog (tk_app tk))"
    using interleaved_kinds by (auto simp: tasks_inv_parts)
  have sids: "sids_ok (as_events (tk_app tk))" using assms(4) by (simp add: sids_ok_def)
  have body: "?ok (without_body (hr_method req) x)" if "?ok x" for x
    using that by (auto simp: well_formed_def without_body_def split: option.split)
  have "?ok r \<and> sids_ok (as_events st')"
    using assms(8) sids body run_handler_well_formed [OF _ em sids assms(5-7) kinds]
    by (auto simp: handle_request_def status_well_formed split: option.splits if_splits prod.splits)
  moreover have "hr_method req = ''HEAD'' \<Longrightarrow> rs_body r = []"
    using assms(8) by (auto simp: handle_request_def without_body_def status_response_def
        split: option.splits if_splits prod.splits)
  ultimately show ?thesis
    by (cases "hr_method req = ''HEAD''") (auto simp: well_formed_def sids_ok_def list_all_iff)
qed

theorem responses_well_formed_witness:
  "\<exists>s r st' d' due. start_server example_host [''j.toml''] example_config (\<lambda>_. None) = Some (Inr s)
    \<and> handle_request example_http_env example_request (sv_app s) example_disk = (r, st', d', due)
    \<and> distinct (map fst (rs_headers r)) \<and> (\<forall>(name, v) \<in> set (rs_headers r). header_text v)"
proof -
  obtain s where s: "start_server example_host [''j.toml''] example_config (\<lambda>_. None) = Some (Inr s)"
    "as_events (sv_app s) = new_manager (10, 0, 0, 2)" using example_started by blast
  let ?tk = "\<lparr>tk_app = sv_app s, tk_disk = example_disk, tk_pending = [], tk_rescan = Waiting, tk_sent = []\<rparr>"
  have run: "interleaved (sv_app s) example_disk ?tk" by (rule interleaved.start)
  have sids: "\<forall>sid \<in> dom (hm_get (em_subscriptions (as_events (tk_app ?tk)))). header_text sid"
    by (simp add: s(2) new_manager_def)
  have env: "header_text (he_uuid example_http_env)" "steady (he_media example_http_env)"
    by (simp_all add: example_http_env_def steady_def example_media_files_def)
  have bytes: "extracts_bytes (he_bytes example_http_env)"
    by (simp add: extracts_bytes_def body_limit_def example_http_env_def)
  obtain r st' d' due where
    req: "handle_request example_http_env example_request (tk_app ?tk) example_disk = (r, st', d', due)"
    by (metis prod_cases4)
  from responses_well_formed [OF s(1) _ run sids env bytes req] example_from_toml_ok s(1) req
  show ?thesis by simp
qed

end
