(* ===== verification/Delivery.thy ===== *)
theory Delivery
  imports Events_Text "HOL-Library.Sublist"
begin

text \<open>
  The delivery of a notification, \<open>send_notification\<close> of \<open>crates/joedlna-core/src/events.rs\<close>: four
  calls on a TCP stream under one timeout of three seconds.

  The network is a parameter: what each call answers and how many milliseconds it takes, \<open>None\<close> for
  a call that never returns.  The result is what the code logs.
\<close>

section \<open>The code\<close>

datatype tcp_call = Connect socket_addr_v4 | WriteAll string | ShutdownWrite | ReadReply nat

record tcp =
  tc_answer :: "tcp_call \<Rightarrow> io_error + unit"
  tc_time :: "tcp_call \<Rightarrow> nat option"

datatype delivery = Delivered | DeliveryFailed io_error | DeliveryTimedOut

text \<open>An error of a call ends the sequence, but the result of the read is thrown away.\<close>

definition ignores_error :: "tcp_call \<Rightarrow> bool" where
  "ignores_error c = (case c of ReadReply _ \<Rightarrow> True | _ \<Rightarrow> False)"

fun tcp_run :: "tcp \<Rightarrow> nat \<Rightarrow> tcp_call list \<Rightarrow> tcp_call list \<times> delivery" where
  "tcp_run w left [] = ([], Delivered)"
| "tcp_run w left (c # cs) =
    (case tc_time w c of
       None \<Rightarrow> ([c], DeliveryTimedOut)
     | Some t \<Rightarrow>
       if left < t then ([c], DeliveryTimedOut)
       else
         (case (tc_answer w c, ignores_error c) of
            (Inl e, False) \<Rightarrow> ([c], DeliveryFailed e)
          | _ \<Rightarrow> (case tcp_run w (left - t) cs of (made, r) \<Rightarrow> (c # made, r))))"

definition send_calls :: "notification_msg \<Rightarrow> tcp_call list" where
  "send_calls n =
    [Connect (cb_address (nt_callback n)), WriteAll (notify_request n), ShutdownWrite, ReadReply 128]"

definition send_notification :: "tcp \<Rightarrow> notification_msg \<Rightarrow> tcp_call list \<times> delivery" where
  "send_notification w n = tcp_run w 3000 (send_calls n)"

section \<open>Facts\<close>

text \<open>Calls that all return, within a time.\<close>

definition in_time :: "tcp \<Rightarrow> nat \<Rightarrow> tcp_call list \<Rightarrow> bool" where
  "in_time w left cs =
    (list_all (\<lambda>c. tc_time w c \<noteq> None) cs \<and> sum_list (map (\<lambda>c. the (tc_time w c)) cs) \<le> left)"

definition succeeds :: "tcp \<Rightarrow> tcp_call \<Rightarrow> bool" where
  "succeeds w c = (ignores_error c \<or> is_ok (tc_answer w c))"

lemma in_time_Nil [simp]: "in_time w left []"
  by (simp add: in_time_def)

lemma in_time_Cons:
  "in_time w left (c # cs) \<longleftrightarrow> (\<exists>t. tc_time w c = Some t \<and> t \<le> left \<and> in_time w (left - t) cs)"
  by (auto simp: in_time_def)

lemma tcp_run_Cons:
  "tcp_run w left (c # cs) =
    (if \<not> in_time w left [c] then ([c], DeliveryTimedOut)
     else if \<not> succeeds w c then ([c], DeliveryFailed (projl (tc_answer w c)))
     else (case tcp_run w (left - the (tc_time w c)) cs of (made, r) \<Rightarrow> (c # made, r)))"
  by (auto simp: in_time_Cons succeeds_def split: option.split sum.split bool.split)

lemma tcp_run_facts:
  assumes "tcp_run w left cs = (made, r)"
  shows "prefix made cs \<and> (cs \<noteq> [] \<longrightarrow> made \<noteq> [])
    \<and> (r = DeliveryTimedOut \<longleftrightarrow> \<not> in_time w left made)
    \<and> (r = Delivered \<longleftrightarrow> in_time w left cs \<and> list_all (succeeds w) cs)
    \<and> (r = Delivered \<longrightarrow> made = cs)"
  using assms
proof (induction cs arbitrary: left made r)
  case Nil
  then show ?case by simp
next
  case (Cons c cs)
  show ?case
  proof (cases "in_time w left [c] \<and> succeeds w c")
    case True
    then obtain t where t: "tc_time w c = Some t" "t \<le> left" by (auto simp: in_time_Cons)
    obtain made' where run: "tcp_run w (left - t) cs = (made', r)" and made: "made = c # made'"
      using Cons.prems True t by (auto simp: tcp_run_Cons simp del: tcp_run.simps split: prod.splits)
    from Cons.IH [OF run] show ?thesis using True t by (auto simp: made in_time_Cons)
  next
    case False
    then show ?thesis using Cons.prems
      by (auto simp: tcp_run_Cons in_time_Cons simp del: tcp_run.simps split: if_splits)
  qed
qed

section \<open>Property\<close>

text \<open>Delivery is decided within three seconds: the calls made are a beginning of connecting to the
  callback, sending the whole request, closing and reading a reply; unless it times out they took
  at most three seconds together, and the notification counts as delivered if and only if all four
  return within that time and none of the first three fails, whatever the subscriber replies.\<close>

theorem delivery_decided:
  assumes "send_notification w n = (calls, r)"
  shows "prefix calls (send_calls n) \<and> hd calls = Connect (cb_address (nt_callback n))
    \<and> (r = DeliveryTimedOut \<longleftrightarrow> \<not> in_time w 3000 calls)
    \<and> (r = Delivered \<longleftrightarrow> in_time w 3000 (send_calls n)
        \<and> is_ok (tc_answer w (Connect (cb_address (nt_callback n))))
        \<and> is_ok (tc_answer w (WriteAll (notify_request n))) \<and> is_ok (tc_answer w ShutdownWrite))"
proof -
  note facts = tcp_run_facts [OF assms [unfolded send_notification_def]]
  have "hd calls = Connect (cb_address (nt_callback n))"
    using facts by (cases calls) (auto simp: send_calls_def)
  moreover have "list_all (succeeds w) (send_calls n) \<longleftrightarrow>
      is_ok (tc_answer w (Connect (cb_address (nt_callback n))))
      \<and> is_ok (tc_answer w (WriteAll (notify_request n))) \<and> is_ok (tc_answer w ShutdownWrite)"
    by (simp add: send_calls_def succeeds_def ignores_error_def)
  ultimately show ?thesis using facts by simp
qed

text \<open>A subscriber that never replies: the request went out, but the delivery counts as timed out.\<close>

definition silent_peer :: tcp where
  "silent_peer =
    \<lparr>tc_answer = (\<lambda>_. Inr ()), tc_time = (\<lambda>c. if ignores_error c then None else Some 10)\<rparr>"

definition example_notification :: notification_msg where
  "example_notification =
    \<lparr>nt_callback = \<lparr>cb_address = \<lparr>addr_ip = (10, 0, 0, 7), addr_port = 49152\<rparr>, cb_path = ''/e''\<rparr>,
     nt_sid = ''uuid:u1'', nt_sequence = 0, nt_body = event_body ContentDirectory 7\<rparr>"

theorem delivery_decided_witness:
  "\<exists>calls. send_notification silent_peer example_notification = (calls, DeliveryTimedOut)
      \<and> hd calls = Connect (cb_address (nt_callback example_notification))
      \<and> WriteAll (notify_request example_notification) \<in> set calls"
proof -
  have "send_notification silent_peer example_notification = (send_calls example_notification, DeliveryTimedOut)"
    by (simp add: send_notification_def send_calls_def silent_peer_def ignores_error_def)
  with delivery_decided [OF this] show ?thesis by (auto simp: send_calls_def)
qed

end
