(* ===== verification/Command_Line.thy ===== *)
theory Command_Line
  imports Server Data_Properties
begin

text \<open>
  The program, \<open>crates/joedlna-bin/src/main.rs\<close>: the two commands over a configuration file.  The
  reading of the arguments is clap's, whose result is the command; the log is set up by
  \<open>tracing_subscriber\<close>, given here as \<open>try_init\<close>, with the filter of the environment if it has one.
\<close>

section \<open>Commands\<close>

datatype main_error =
    ConfigFailed config_error
  | ServerFailed server_error
  | LoggingFailed string

datatype command = CheckConfig | Serve

text \<open>What \<open>check-config\<close> prints.\<close>

definition check_report :: "config \<Rightarrow> catalog \<Rightarrow> string" where
  "check_report cfg c =
    ''configuration is valid: '' @ show_nat (length (shares cfg)) @ '' share(s), ''
    @ show_nat (file_count c) @ '' media file(s), '' @ show_word (total_bytes c) @ '' byte(s)'' @ [LF]"

definition check_config ::
  "(string \<Rightarrow> io_error + string) \<Rightarrow> (string \<Rightarrow> string + config) \<Rightarrow> (string \<Rightarrow> string) \<Rightarrow>
    file_system \<Rightarrow> string \<Rightarrow> (main_error + string) option" where
  "check_config read_to_string parse_toml to_lowercase fs file_name =
    (case load_config read_to_string parse_toml to_lowercase fs file_name of
       Inl e \<Rightarrow> Some (Inl (ConfigFailed e))
     | Inr parsed \<Rightarrow>
       bind_scan (map_option (map_err (ServerFailed \<circ> ScanFailed)) (scan fs parsed)) (\<lambda>c.
         Some (Inr (check_report parsed c))))"

definition init_tracing :: "string option \<Rightarrow> (string \<Rightarrow> string + unit) \<Rightarrow> string + unit" where
  "init_tracing env_filter try_init =
    try_init
      (case env_filter of
         Some chosen \<Rightarrow> chosen
       | None \<Rightarrow> ''joedlna_core=info,joedlna=info'')"

text \<open>
  \<open>main\<close>: what is printed, or the error.  The last four arguments are those of \<open>serve\<close>, which may go
  on without an end.
\<close>

definition main ::
  "string option \<Rightarrow> (string \<Rightarrow> string + unit) \<Rightarrow> command \<Rightarrow> (string \<Rightarrow> io_error + string) \<Rightarrow>
    (string \<Rightarrow> string + config) \<Rightarrow> (string \<Rightarrow> string) \<Rightarrow> host \<Rightarrow> string \<Rightarrow> path \<Rightarrow> files \<Rightarrow>
    socket_faults \<Rightarrow> ssdp_event list \<Rightarrow> bool \<Rightarrow> (bool \<Rightarrow> (io_error + unit) option) \<Rightarrow>
    (main_error + string) option" where
  "main env_filter try_init cmd read_to_string parse_toml to_lowercase ho file_name config_path
      fs faults evs ctrl_c http =
    (case map_err LoggingFailed (init_tracing env_filter try_init) of
       Inl e \<Rightarrow> Some (Inl e)
     | Inr _ \<Rightarrow>
       (case cmd of
          CheckConfig \<Rightarrow> check_config read_to_string parse_toml to_lowercase (ho_fs ho) file_name
        | Serve \<Rightarrow>
          (case load_config read_to_string parse_toml to_lowercase (ho_fs ho) file_name of
             Inl e \<Rightarrow> Some (Inl (ConfigFailed e))
           | Inr parsed \<Rightarrow>
             Option.bind (serve ho config_path parsed fs faults evs ctrl_c http)
               (\<lambda>(_, r). map_option (\<lambda>x. bind_result (map_err ServerFailed x) (\<lambda>_. Inr [])) r))))"

section \<open>What the check reports\<close>

lemma load_config_valid:
  "load_config read_to_string parse_toml to_lowercase fs file_name = Inr cfg \<Longrightarrow>
    validate to_lowercase fs cfg = Inr ()"
  by (auto simp: load_config_def result_splits map_err_Inr_iff)

lemma stored_keys: "catalog_wf c \<Longrightarrow> map e_id (stored c) = map fst (entries c)"
  using catalog_wf_entry catalog_wf_entries by (auto simp: hm.items_get)

lemma distinct_stored: "catalog_wf c \<Longrightarrow> distinct (stored c)"
  using stored_keys [of c] catalog_wf_entries [of c] distinct_map [of e_id "stored c"]
  by (auto simp only: hm_ok_def)

lemma stored_iff:
  assumes "catalog_wf c"
  shows "e \<in> set (stored c) \<longleftrightarrow> catalog_entry c (e_id e) = Some e"
proof -
  have "e \<in> set (stored c) \<longleftrightarrow> (\<exists>k. (k, e) \<in> set (entries c))" by force
  also have "\<dots> \<longleftrightarrow> (\<exists>k. hm_get (entries c) k = Some e)"
    using hm.items_get [OF catalog_wf_entries [OF assms]] by simp
  finally show ?thesis using catalog_wf_entry [OF assms] by (auto simp: catalog_entry_def)
qed

definition published :: "file_system \<Rightarrow> config \<Rightarrow> entry set" where
  "published fs cfg =
    {e. is_media e \<and> (\<exists>share \<in> set (shares cfg). share_gives fs (scanner cfg) 0 share e)}"

lemma scanned_published:
  assumes "scan_with_minimum_age fs cfg 0 = Some (Inr r)" and "\<not> follow_symlinks (scanner cfg)"
  shows "set (filter is_media (stored (scan_catalog r))) = published fs cfg"
proof -
  have wf: "catalog_wf (scan_catalog r)" using scanned_catalog_finished [OF assms(1)] by (rule finished_wf)
  show ?thesis
    using scanned_catalog_sound [OF assms(1)] scanned_catalog_complete [OF assms]
    by (auto simp: stored_iff [OF wf] published_def simp del: set_map)
qed

text \<open>C35. The check reports what the server would publish: if it succeeds, the configuration is one
  that \<open>serve\<close> accepts, and, links not followed, what it prints is the number of its shares, the
  number of different media files that the shares give however recent, and the sum of their sizes,
  at most what 64 bits can hold.\<close>

theorem check_config_correct:
  assumes "check_config read_to_string parse_toml to_lowercase fs file_name = Some (Inr report)"
  shows "\<exists>cfg. load_config read_to_string parse_toml to_lowercase fs file_name = Inr cfg
    \<and> (\<exists>roots. config_ok to_lowercase fs cfg roots)
    \<and> (\<not> follow_symlinks (scanner cfg) \<longrightarrow> finite (published fs cfg) \<and>
        report = ''configuration is valid: '' @ show_nat (length (shares cfg)) @ '' share(s), ''
          @ show_nat (card (published fs cfg)) @ '' media file(s), ''
          @ show_nat (min (\<Sum>e \<in> published fs cfg. unat (e_size e)) (2 ^ 64 - 1)) @ '' byte(s)'' @ [LF])"
proof -
  obtain cfg c where cfg: "load_config read_to_string parse_toml to_lowercase fs file_name = Inr cfg"
    and c: "scan fs cfg = Some (Inr c)" "report = check_report cfg c"
    using assms by (auto simp: check_config_def bind_scan_def map_err_Inr_iff split: sum.splits option.splits)
  obtain r where r: "scan_with_minimum_age fs cfg 0 = Some (Inr r)" "c = scan_catalog r"
    using c(1) by (auto simp: scan_def bind_scan_def split: sum.splits option.splits)
  have fin: "finished c" using scanned_catalog_finished [OF r(1)] r(2) by simp
  let ?files = "filter is_media (stored c)"
  have "finite (published fs cfg)
    \<and> report = ''configuration is valid: '' @ show_nat (length (shares cfg)) @ '' share(s), ''
        @ show_nat (card (published fs cfg)) @ '' media file(s), ''
        @ show_nat (min (\<Sum>e \<in> published fs cfg. unat (e_size e)) (2 ^ 64 - 1)) @ '' byte(s)'' @ [LF]"
    if "\<not> follow_symlinks (scanner cfg)"
  proof -
    have all: "published fs cfg = set ?files" using scanned_published [OF r(1) that] r(2) by simp
    have d: "distinct ?files" using distinct_stored [OF finished_wf [OF fin]] by simp
    have "counts_ok c" using fin by (simp add: finished_def catalog_inv_def)
    then have "file_count c = card (published fs cfg)"
      "unat (total_bytes c) = min (\<Sum>e \<in> published fs cfg. unat (e_size e)) (2 ^ 64 - 1)"
      unfolding all by (simp_all only: counts_ok_def distinct_card [OF d] sum_list_distinct_conv_sum_set [OF d])
    then show ?thesis unfolding c(2) check_report_def show_word_def using all by simp
  qed
  with cfg validate_iff load_config_valid [OF cfg] show ?thesis by blast
qed

theorem check_config_correct_witness:
  "\<exists>report. check_config (\<lambda>_. Inr ''c'') (\<lambda>_. Inr example_config) (\<lambda>s. s) example_fs ''j'' = Some (Inr report)
    \<and> (\<exists>cfg. load_config (\<lambda>_. Inr ''c'') (\<lambda>_. Inr example_config) (\<lambda>s. s) example_fs ''j'' = Inr cfg)"
proof -
  obtain r where r: "scan_with_minimum_age example_fs example_config 0 = Some (Inr r)"
    using example_scan [of 0] by auto
  have "check_config (\<lambda>_. Inr ''c'') (\<lambda>_. Inr example_config) (\<lambda>s. s) example_fs ''j'' =
      Some (Inr (check_report example_config (scan_catalog r)))"
    by (simp add: check_config_def load_config_def example_accepted scan_def r bind_scan_def)
  from check_config_correct [OF this] this show ?thesis by blast
qed

end
