(* ===== verification/Repository_Tests.thy ===== *)
theory Repository_Tests
  imports Rescan Http_Properties Ssdp_Properties Core_Properties Bookmarks_Properties
begin

text \<open>
  The unit tests of the repository that need no file system, as predicates on the model, and that
  they hold.  Each has the name of the Rust test; the cases of a parameterised test are a list.
  They tie the model to what the authors expect of the code on concrete inputs.
\<close>

section \<open>\<open>catalog.rs\<close>\<close>

definition recognizes_media :: bool where
  "recognizes_media =
    list_all (\<lambda>(name, expected). map_option mk_mime_type (media_kind [name]) = expected)
      [(''song.mp3'', Some ''audio/mpeg''), (''movie.MKV'', Some ''video/x-matroska''),
       (''notes.txt'', None)]"

lemma recognizes_media_holds: recognizes_media
  by code_simp

definition unix_path_hash_preserves_raw_byte_identity :: bool where
  "unix_path_hash_preserves_raw_byte_identity = (stable_os_hash ''abc'' = 0xe71fa2190541574b)"

lemma unix_path_hash_holds: unix_path_hash_preserves_raw_byte_identity
  unfolding unix_path_hash_preserves_raw_byte_identity_def by (rule stable_os_hash_abc)

section \<open>\<open>xml.rs\<close>\<close>

definition escapes_markup_and_replaces_invalid_xml_characters :: bool where
  "escapes_markup_and_replaces_invalid_xml_characters =
    (escape_text (''a&<'' @ [CHR 0x01] @ ''b'') =
      ''a&amp;&lt;'' @ [CHR 0xEF, CHR 0xBF, CHR 0xBD] @ ''b'')"

lemma escapes_markup_holds: escapes_markup_and_replaces_invalid_xml_characters
proof -
  have "chars (''a&<'' @ [CHR 0x01] @ ''b'') = map byte (''a&<'' @ [CHR 0x01] @ ''b'')"
    by (rule chars_ascii) simp
  moreover have "push_char 0xFFFD = [CHR 0xEF, CHR 0xBF, CHR 0xBD]"
    by (simp add: push_char_def encode_char_def of_bytes_def) code_simp
  moreover have "char_of (97 :: nat) = CHR ''a''" "char_of (98 :: nat) = CHR ''b''" by code_simp+
  ultimately show ?thesis
    by (simp add: escapes_markup_and_replaces_invalid_xml_characters_def escape_text_def
        escape_char_def xml_char_def push_char_ascii)
qed

section \<open>\<open>events.rs\<close>\<close>

definition parses_callback :: bool where
  "parses_callback =
    (parse_callback ''<http://192.168.1.40:49152/events>'' =
      Inr \<lparr>cb_address = \<lparr>addr_ip = (192, 168, 1, 40), addr_port = 49152\<rparr>, cb_path = ''/events''\<rparr>)"

lemma parses_callback_holds: parses_callback
proof -
  have "trim ''<http://192.168.1.40:49152/events>'' = ''<http://192.168.1.40:49152/events>''"
    by (rule trim_graphic) simp
  then show ?thesis
    by (simp add: parses_callback_def parse_callback_def strip_prefix_def
        rsplit_once_def parse_ipv4_def parse_octet_def parse_word_def parse_uint_def is_ascii_digit_def)
qed

definition checks_private_network :: bool where
  "checks_private_network =
    list_all
      (\<lambda>(interface, cb, expected).
        (case (parse_ipv4 interface, parse_ipv4 cb) of
           (Some i, Some c) \<Rightarrow> same_private_network i c = expected
         | _ \<Rightarrow> False))
      [(''192.168.1.2'', ''192.168.40.3'', True), (''10.1.2.3'', ''10.99.1.2'', True),
       (''192.168.1.2'', ''10.0.0.3'', False), (''192.168.1.2'', ''8.8.8.8'', False)]"

lemma checks_private_network_holds: checks_private_network
  by code_simp

section \<open>\<open>ssdp.rs\<close>\<close>

definition parses_case_insensitive_search_headers :: bool where
  "parses_case_insensitive_search_headers =
    (parse_search
      (''M-SEARCH * HTTP/1.1'' @ crlf @ ''HOST: 239.255.255.250:1900'' @ crlf
       @ ''MAN: '' @ [CHR 0x22] @ ''ssdp:discover'' @ [CHR 0x22] @ crlf
       @ ''MX: 3'' @ crlf @ ''ST: ssdp:all'' @ crlf @ crlf) =
      Some \<lparr>se_target = ''ssdp:all'', se_mx_seconds = 3\<rparr>)"

text \<open>The datagram is the text of a request with these headers.\<close>

definition search_headers :: "(string \<times> string) list" where
  "search_headers =
    [(''HOST'', '' 239.255.255.250:1900''),
     (''MAN'', '' '' @ [CHR 0x22] @ ''ssdp:discover'' @ [CHR 0x22]),
     (''MX'', '' 3''), (''ST'', '' ssdp:all'')]"

lemma trim_space: "\<forall>c \<in> set s. byte c < 0x80 \<Longrightarrow> trim (CHR '' '' # s) = trim s"
  by (simp add: trim_def chars_ascii is_whitespace_def)

lemma search_headers_trimmed:
  "trim ''HOST'' = ''HOST''" "trim ''MAN'' = ''MAN''" "trim ''MX'' = ''MX''" "trim ''ST'' = ''ST''"
  "trim '' 3'' = ''3''" "trim '' ssdp:all'' = ''ssdp:all''"
  "trim ('' '' @ [CHR 0x22] @ ''ssdp:discover'' @ [CHR 0x22]) = [CHR 0x22] @ ''ssdp:discover'' @ [CHR 0x22]"
  by (simp_all add: trim_space trim_graphic)

lemma search_headers_meaning: "search_of search_headers = Some \<lparr>se_target = ''ssdp:all'', se_mx_seconds = 3\<rparr>"
proof -
  have low: "to_ascii_lowercase ''HOST'' = ''host''" "to_ascii_lowercase ''MAN'' = ''man''"
    "to_ascii_lowercase ''MX'' = ''mx''" "to_ascii_lowercase ''ST'' = ''st''" by code_simp+
  have three: "parse_word ''3'' = Some (3 :: u64)"
    by (simp add: parse_word_def parse_uint_def is_ascii_digit_def)
  show ?thesis using low three search_headers_trimmed [simplified]
    by (simp add: search_of_def search_headers_def header_value_def trim_matches_def clamp_def)
qed

lemma parses_case_insensitive_search_headers_holds: parses_case_insensitive_search_headers
proof -
  let ?first = "''M-SEARCH * HTTP/1.1''"
  have plain: "plain_headers search_headers" "CR \<notin> set ?first"
    by (simp_all add: plain_headers_def search_headers_def CR_def)
  have "utf8_valid (request_text ?first search_headers)"
    by (rule utf8_valid_ascii)
      (simp add: request_text_def search_headers_def header_line_def crlf_def CR_def LF_def)
  from parse_search_text [OF plain this] show ?thesis
    unfolding parses_case_insensitive_search_headers_def search_headers_meaning
    by (simp add: request_text_def search_headers_def header_line_def)
qed

definition rejects_non_discovery_datagram :: bool where
  "rejects_non_discovery_datagram = (parse_search (''NOTIFY * HTTP/1.1'' @ crlf @ crlf) = None)"

lemma rejects_non_discovery_datagram_holds: rejects_non_discovery_datagram
  by code_simp

section \<open>\<open>http.rs\<close>\<close>

definition parses_single_http_range :: bool where
  "parses_single_http_range =
    list_all (\<lambda>(v, size, expected). parse_range v size = expected)
      [(None, 10, Inr \<lparr>rg_start = 0, rg_end = 9, rg_partial = False\<rparr>),
       (Some ''bytes=2-5'', 10, Inr \<lparr>rg_start = 2, rg_end = 5, rg_partial = True\<rparr>),
       (Some ''bytes=7-'', 10, Inr \<lparr>rg_start = 7, rg_end = 9, rg_partial = True\<rparr>),
       (Some ''bytes=-3'', 10, Inr \<lparr>rg_start = 7, rg_end = 9, rg_partial = True\<rparr>),
       (Some ''bytes=12-'', 10, Inl ()), (Some ''bytes=1-2,4-5'', 10, Inl ())]"

lemma parses_single_http_range_holds: parses_single_http_range
  by (simp add: parses_single_http_range_def parse_range_def strip_prefix_def 
      parse_word_def parse_uint_def is_ascii_digit_def saturating_sub_def
      word_le_nat_alt)

definition filters_filesystem_events_to_config_and_shares :: bool where
  "filters_filesystem_events_to_config_and_shares =
    (let config_path = [''config'', ''joedlna.toml'']; roots = [[''media'', ''movies'']] in
     event_is_relevant [[''media'', ''movies'', ''new'', ''movie.mp4'']] config_path roots
     \<and> event_is_relevant [[''config'', ''joedlna.toml'']] config_path roots
     \<and> \<not> event_is_relevant [[''tmp'', ''unrelated.txt'']] config_path roots
     \<and> event_is_relevant [] config_path roots)"

lemma filters_filesystem_events_holds: filters_filesystem_events_to_config_and_shares
  by code_simp

section \<open>\<open>soap.rs\<close>\<close>

text \<open>The bodies are the events that the XML reader gives for them.\<close>

definition parses_namespaced_soap_arguments :: bool where
  "parses_namespaced_soap_arguments =
    (case parse_request
        (\<lambda>_. map Inr
          [StartEvent ''Envelope'', StartEvent ''Body'', StartEvent ''Browse'',
           StartEvent ''ObjectID'', TextEvent ''0'', EndEvent,
           StartEvent ''Filter'', TextEvent ''*'', EndEvent,
           EndEvent, EndEvent, EndEvent, EofEvent])
        Some (Some ([CHR 0x22] @ ''urn:test#Browse'' @ [CHR 0x22])) [] of
       Inr (action, args) \<Rightarrow>
         action = ''Browse'' \<and> hm_get args ''ObjectID'' = Some ''0''
         \<and> hm_get args ''Filter'' = Some ''*''
     | Inl _ \<Rightarrow> False)"

lemma parses_namespaced_soap_arguments_holds: parses_namespaced_soap_arguments
  by (simp add: parses_namespaced_soap_arguments_def parse_request_def to_string_lossy_ascii
      rsplit_once_def trim_matches_def)

definition parses_empty_soap_arguments :: bool where
  "parses_empty_soap_arguments =
    (case parse_request
        (\<lambda>_. map Inr
          [StartEvent ''Envelope'', StartEvent ''Body'', StartEvent ''Browse'',
           StartEvent ''ObjectID'', TextEvent ''0'', EndEvent,
           StartEvent ''SortCriteria'', EndEvent, EmptyEvent ''Filter'',
           EndEvent, EndEvent, EndEvent, EofEvent])
        Some (Some ''urn:test#Browse'') [] of
       Inr (_, args) \<Rightarrow>
         hm_get args ''SortCriteria'' = Some [] \<and> hm_get args ''Filter'' = Some []
     | Inl _ \<Rightarrow> False)"

lemma parses_empty_soap_arguments_holds: parses_empty_soap_arguments
  by (simp add: parses_empty_soap_arguments_def parse_request_def to_string_lossy_ascii
      rsplit_once_def trim_matches_def hm_or_default_def)

definition contains :: "string \<Rightarrow> string \<Rightarrow> bool" where
  "contains s t = list_ex (\<lambda>n. take (length t) (drop n s) = t) [0..<Suc (length s)]"

definition protocol_info_advertises_byte_ranges :: bool where
  "protocol_info_advertises_byte_ranges =
    (let v = protocol_info ''audio/mpeg'' (Some ''MP3'') in
     contains v ''DLNA.ORG_PN=MP3'' \<and> contains v ''DLNA.ORG_OP=01'')"

lemma protocol_info_advertises_byte_ranges_holds: protocol_info_advertises_byte_ranges
  by code_simp

section \<open>\<open>bookmarks.rs\<close>\<close>

text \<open>On an empty disk without faults; \<open>unwrap\<close> on an error makes the test fail.\<close>

definition persists_and_removes_positions ::
  "(positions \<Rightarrow> string + string) \<Rightarrow> (string \<Rightarrow> string + positions) \<Rightarrow> path \<Rightarrow> bool" where
  "persists_and_removes_positions to_toml from_toml p =
    (case load_bookmarks from_toml None p (\<lambda>_. None) of
       Inl _ \<Rightarrow> False
     | Inr store \<Rightarrow>
       (case set_position to_toml False no_faults ''item-1'' 12345 store
            \<lparr>files = (\<lambda>_. None), moments = []\<rparr> of
          (Inl _, _) \<Rightarrow> False
        | (Inr _, _, d) \<Rightarrow>
          (case load_bookmarks from_toml None p (files d) of
             Inl _ \<Rightarrow> False
           | Inr reloaded \<Rightarrow>
             bt_get (snapshot reloaded) ''item-1'' = Some 12345
             \<and> (case set_position to_toml False no_faults ''item-1'' 0 reloaded d of
                  (Inl _, _) \<Rightarrow> False
                | (Inr _, reloaded', _) \<Rightarrow> bt_get (snapshot reloaded') ''item-1'' = None))))"

text \<open>It holds for every TOML writer that can write the two maps of the test.\<close>

lemma persists_and_removes_positions_holds:
  assumes codec: "toml_codec to_toml from_toml" and p: "p \<noteq> []"
    and one: "to_toml [(''item-1'', 12345)] = Inr s1" and none: "to_toml [] = Inr s0"
  shows "persists_and_removes_positions to_toml from_toml p"
proof -
  define store where "store = \<lparr>bs_path = p, bs_positions = []\<rparr>"
  define d0 where "d0 = \<lparr>files = (\<lambda>_. None), moments = []\<rparr>"
  have load: "load_bookmarks from_toml None p (\<lambda>_. None) = Inr store"
    by (simp add: load_bookmarks_def disk_read_def store_def)
  have maps: "update_position ''item-1'' 12345 [] = [(''item-1'', 12345)]"
    "update_position ''item-1'' 0 [(''item-1'', 12345)] = []"
    "bt_get [(''item-1'', 12345 :: u64)] ''item-1'' = Some 12345"
    by (simp_all add: update_position_def bt_remove_def)
  have ok: "bt_ok [(''item-1'', 12345 :: u64)]" by (simp add: bt_ok_def)
  obtain r st1 d1 where set1: "set_position to_toml False no_faults ''item-1'' 12345 store d0 = (r, st1, d1)"
    by (metis prod_cases3)
  have path: "bs_path store \<noteq> []" using p by (simp add: store_def)
  note disk1 = set_position_unix [OF set1 path, unfolded store_def bookmark_store.simps maps(1)]
  have r: "is_ok r" "files d1 p = Some s1" using disk1(1,2) one by (simp_all add: no_faults_def)
  have reload: "load_bookmarks from_toml None p (files d1) =
      Inr \<lparr>bs_path = p, bs_positions = [(''item-1'', 12345)]\<rparr>"
    by (rule load_written [where fs = "files d1" and p = p, OF codec ok one r(2)])
  obtain r' st2 d2 where set2: "set_position to_toml False no_faults ''item-1'' 0
      \<lparr>bs_path = p, bs_positions = [(''item-1'', 12345)]\<rparr> d1 = (r', st2, d2)" by (metis prod_cases3)
  have "bs_path \<lparr>bs_path = p, bs_positions = [(''item-1'', 12345 :: u64)]\<rparr> \<noteq> []" using p by simp
  from set_position_unix(1) [OF set2 this] set_position_memory(2) [OF set2] maps(2) none
  have "is_ok r'" "bs_positions st2 = []" by (simp_all add: no_faults_def)
  then show ?thesis
    using r(1) load set1 [unfolded d0_def] reload set2 maps(3)
    by (cases r; cases r') (simp_all add: persists_and_removes_positions_def snapshot_def)
qed

lemma persists_and_removes_positions_example:
  "persists_and_removes_positions
    (\<lambda>m. if m = [] then Inr ''-'' else if m = [(''item-1'', 12345)] then Inr ''+'' else Inl ''?'')
    (\<lambda>s. if s = ''-'' then Inr [] else if s = ''+'' then Inr [(''item-1'', 12345)] else Inl ''?'')
    [''bookmarks.toml'']"
  by (rule persists_and_removes_positions_holds)
    (simp_all add: toml_codec_def bt_ok_def utf8_valid_ascii)

end
