(* ===== verification/Bookmark_Tasks.thy ===== *)
theory Bookmark_Tasks
  imports Bookmarks_Properties
begin

text \<open>
  \<open>BookmarkStore::set\<close> of \<open>crates/joedlna-core/src/bookmarks.rs\<close> at the grain of its awaits, on Unix.

  Each disk operation of \<open>set\<close> runs on a thread of its own, which the task awaits with the mutex
  held.  A task can be dropped at an await, as the HTTP server does when the client disconnects: then
  the mutex is free, but the thread goes on.  So jobs of dropped calls are kept beside the call that
  holds the mutex.

  A thread writes through the file it opened, whatever names that file has by then.  Files are
  therefore numbered, and names refer to numbers.
\<close>

section \<open>Files with an identity\<close>

record inodes =
  ino_names :: "path \<Rightarrow> nat option"
  ino_contents :: "nat \<Rightarrow> string"
  ino_next :: nat

definition visible :: "inodes \<Rightarrow> files" where
  "visible d = (\<lambda>p. map_option (ino_contents d) (ino_names d p))"

definition ino_ok :: "inodes \<Rightarrow> bool" where
  "ino_ok d =
    ((\<forall>p i. ino_names d p = Some i \<longrightarrow> i < ino_next d)
     \<and> (\<forall>p q i. ino_names d p = Some i \<longrightarrow> ino_names d q = Some i \<longrightarrow> p = q))"

definition open_truncated :: "path \<Rightarrow> inodes \<Rightarrow> nat \<times> inodes" where
  "open_truncated p d =
    (case ino_names d p of
       Some i \<Rightarrow> (i, d\<lparr>ino_contents := (ino_contents d)(i := [])\<rparr>)
     | None \<Rightarrow>
       (ino_next d,
        d\<lparr>ino_names := (ino_names d)(p \<mapsto> ino_next d),
          ino_contents := (ino_contents d)(ino_next d := []), ino_next := Suc (ino_next d)\<rparr>))"

text \<open>Writing behind the end of a file that has been truncated leaves a hole of zeros.\<close>

definition put_byte :: "nat \<Rightarrow> nat \<Rightarrow> char \<Rightarrow> inodes \<Rightarrow> inodes" where
  "put_byte i k c d =
    (let s = ino_contents d i in
     d\<lparr>ino_contents := (ino_contents d)
        (i := take k s @ replicate (k - length s) CHR 0x00 @ c # drop (Suc k) s)\<rparr>)"

definition move_name :: "path \<Rightarrow> path \<Rightarrow> inodes \<Rightarrow> inodes" where
  "move_name p q d =
    (case ino_names d p of
       None \<Rightarrow> d
     | Some i \<Rightarrow> d\<lparr>ino_names := (ino_names d)(p := None, q \<mapsto> i)\<rparr>)"

section \<open>Calls\<close>

datatype job = OpenFile path string | WriteBytes nat nat string | MoveFile path path

fun job_step :: "job \<Rightarrow> inodes \<Rightarrow> job option \<times> inodes" where
  "job_step (OpenFile p s) d =
    (case open_truncated p d of (i, d') \<Rightarrow> (Some (WriteBytes i 0 s), d'))"
| "job_step (WriteBytes i k []) d = (None, d)"
| "job_step (WriteBytes i k (c # s)) d = (Some (WriteBytes i (Suc k) s), put_byte i k c d)"
| "job_step (MoveFile p q) d = (None, move_name p q d)"

text \<open>The job awaited by the call that holds the mutex, and the jobs of dropped calls.\<close>

record bookmark_tasks =
  bk_disk :: inodes
  bk_store :: bookmark_store
  bk_call :: "job option"
  bk_detached :: "job list"
  bk_results :: "(bookmark_error + unit) list"

definition temporary_of :: "bookmark_store \<Rightarrow> path" where
  "temporary_of st = path_with_extension (bs_path st) ''toml.tmp''"

definition finish_call :: "bookmark_error + unit \<Rightarrow> bookmark_tasks \<Rightarrow> bookmark_tasks" where
  "finish_call r t = t\<lparr>bk_call := None, bk_results := bk_results t @ [r]\<rparr>"

text \<open>The mutex is taken, the map is changed and serialized, and the write begins.\<close>

definition begin_call ::
  "(positions \<Rightarrow> string + string) \<Rightarrow> string \<Rightarrow> u64 \<Rightarrow> bookmark_tasks \<Rightarrow> bookmark_tasks" where
  "begin_call to_toml obj position t =
    (let st = (bk_store t)\<lparr>bs_positions := update_position obj position (bs_positions (bk_store t))\<rparr> in
     case to_toml (bs_positions st) of
       Inl e \<Rightarrow> finish_call (Inl (BookmarkSerialize e)) (t\<lparr>bk_store := st\<rparr>)
     | Inr s \<Rightarrow> t\<lparr>bk_store := st, bk_call := Some (OpenFile (temporary_of st) s)\<rparr>)"

text \<open>One step of the awaited job; after the write the rename begins, and after that the call ends.\<close>

definition work_call :: "job \<Rightarrow> bookmark_tasks \<Rightarrow> bookmark_tasks" where
  "work_call job t =
    (case job_step job (bk_disk t) of
       (Some job', d) \<Rightarrow> t\<lparr>bk_disk := d, bk_call := Some job'\<rparr>
     | (None, d) \<Rightarrow>
       (case job of
          MoveFile p q \<Rightarrow>
            finish_call
              (if ino_names (bk_disk t) p = None then Inl (BookmarkWrite q (NotFound, [])) else Inr ())
              (t\<lparr>bk_disk := d\<rparr>)
        | _ \<Rightarrow>
          t\<lparr>bk_disk := d,
            bk_call := Some (MoveFile (temporary_of (bk_store t)) (bs_path (bk_store t)))\<rparr>))"

definition fail_call :: "job \<Rightarrow> disk_error \<Rightarrow> bookmark_tasks \<Rightarrow> bookmark_tasks" where
  "fail_call job e t =
    finish_call
      (Inl (BookmarkWrite
        (case job of MoveFile p q \<Rightarrow> q | _ \<Rightarrow> temporary_of (bk_store t)) e)) t"

text \<open>What can happen next; \<open>None\<close> is an action that cannot.\<close>

datatype action =
    Call string u64
  | Work
  | Fail disk_error
  | Cancel
  | Background nat
  | BackgroundFails nat

definition act ::
  "(positions \<Rightarrow> string + string) \<Rightarrow> action \<Rightarrow> bookmark_tasks \<Rightarrow> bookmark_tasks option" where
  "act to_toml a t =
    (case a of
       Call obj position \<Rightarrow>
         (if bk_call t = None then Some (begin_call to_toml obj position t) else None)
     | Work \<Rightarrow> map_option (\<lambda>job. work_call job t) (bk_call t)
     | Fail e \<Rightarrow> map_option (\<lambda>job. fail_call job e t) (bk_call t)
     | Cancel \<Rightarrow>
         map_option (\<lambda>job. t\<lparr>bk_call := None, bk_detached := bk_detached t @ [job]\<rparr>) (bk_call t)
     | Background n \<Rightarrow>
         (if n < length (bk_detached t) then
            Some (case job_step (bk_detached t ! n) (bk_disk t) of
               (Some job, d) \<Rightarrow> t\<lparr>bk_disk := d, bk_detached := (bk_detached t)[n := job]\<rparr>
             | (None, d) \<Rightarrow>
               t\<lparr>bk_disk := d,
                 bk_detached := take n (bk_detached t) @ drop (Suc n) (bk_detached t)\<rparr>)
          else None)
     | BackgroundFails n \<Rightarrow>
         (if n < length (bk_detached t) then
            Some (t\<lparr>bk_detached := take n (bk_detached t) @ drop (Suc n) (bk_detached t)\<rparr>)
          else None))"

fun acts ::
  "(positions \<Rightarrow> string + string) \<Rightarrow> action list \<Rightarrow> bookmark_tasks \<Rightarrow> bookmark_tasks option" where
  "acts to_toml [] t = Some t"
| "acts to_toml (a # as) t = Option.bind (act to_toml a t) (acts to_toml as)"

definition idle :: "inodes \<Rightarrow> bookmark_store \<Rightarrow> bookmark_tasks" where
  "idle d st =
    \<lparr>bk_disk = d, bk_store = st, bk_call = None, bk_detached = [], bk_results = []\<rparr>"

lemma acts_append: "acts to_toml (as @ bs) t = Option.bind (acts to_toml as t) (acts to_toml bs)"
proof (induction "as" arbitrary: t)
  case (Cons a "as")
  then show ?case by (cases "act to_toml a t") simp_all
qed simp

lemma acts_trans: "acts to_toml as t = Some t' \<Longrightarrow> acts to_toml bs t' = r \<Longrightarrow> acts to_toml (as @ bs) t = r"
  by (simp add: acts_append)

section \<open>What the operations show\<close>

lemma ino_okD:
  "ino_ok d \<Longrightarrow> ino_names d p = Some i \<Longrightarrow> i < ino_next d"
  "ino_ok d \<Longrightarrow> ino_names d p = Some i \<Longrightarrow> ino_names d q = Some i \<Longrightarrow> p = q"
  unfolding ino_ok_def by blast+

text \<open>Changing the content of one file changes what its only name shows.\<close>

lemma visible_content:
  assumes "ino_ok d" and "ino_names d p = Some i"
  shows "visible (d\<lparr>ino_contents := (ino_contents d)(i := s)\<rparr>) = (visible d)(p \<mapsto> s)"
proof
  fix q
  show "visible (d\<lparr>ino_contents := (ino_contents d)(i := s)\<rparr>) q = ((visible d)(p \<mapsto> s)) q"
    using assms(2) ino_okD(2) [OF assms, of q] by (cases "ino_names d q") (auto simp: visible_def)
qed

lemma ino_ok_content [simp]: "ino_ok (d\<lparr>ino_contents := f\<rparr>) = ino_ok d"
  by (simp add: ino_ok_def)

lemma open_truncated_facts:
  assumes ok: "ino_ok d" and "open_truncated p d = (i, d')"
  shows "ino_ok d' \<and> ino_names d' p = Some i \<and> visible d' = (visible d)(p \<mapsto> [])"
proof (cases "ino_names d p")
  case None
  have fresh: "ino_names d q \<noteq> Some (ino_next d)" for q using ino_okD(1) [OF ok, of q] by fastforce
  from None assms(2) have d': "i = ino_next d" "d' = d\<lparr>ino_names := (ino_names d)(p \<mapsto> ino_next d),
      ino_contents := (ino_contents d)(ino_next d := []), ino_next := Suc (ino_next d)\<rparr>"
    by (auto simp: open_truncated_def)
  have "ino_ok d'" unfolding ino_ok_def
  proof (intro conjI allI impI)
    fix q j
    show "ino_names d' q = Some j \<Longrightarrow> j < ino_next d'"
      using ino_okD(1) [OF ok, of q] by (fastforce simp: d' split: if_splits)
    fix r
    show "ino_names d' q = Some j \<Longrightarrow> ino_names d' r = Some j \<Longrightarrow> q = r"
      using ino_okD(2) [OF ok, of q j r] fresh by (auto simp: d' split: if_splits)
  qed
  moreover have "visible d' = (visible d)(p \<mapsto> [])"
  proof
    fix q
    show "visible d' q = ((visible d)(p \<mapsto> [])) q"
      using fresh [of q] by (cases "ino_names d q") (auto simp: visible_def d')
  qed
  ultimately show ?thesis by (simp add: d')
next
  case (Some j)
  with assms(2) have "i = j" "d' = d\<lparr>ino_contents := (ino_contents d)(j := [])\<rparr>"
    by (auto simp: open_truncated_def)
  then show ?thesis using Some ok visible_content [OF ok Some] by simp
qed

lemma put_byte_facts:
  assumes "ino_ok d" and "ino_names d p = Some i" and "ino_contents d i = s" and "length s = k"
  shows "ino_ok (put_byte i k c d) \<and> ino_names (put_byte i k c d) p = Some i
    \<and> visible (put_byte i k c d) = (visible d)(p \<mapsto> s @ [c])"
  using assms(3,4) visible_content [OF assms(1,2)] assms(1,2) by (simp add: put_byte_def Let_def)

lemma move_name_facts:
  assumes ok: "ino_ok d" and "visible d p = Some s" and "p \<noteq> q"
  shows "ino_ok (move_name p q d) \<and> visible (move_name p q d) = (visible d)(p := None, q \<mapsto> s)"
proof -
  obtain i where i: "ino_names d p = Some i" "ino_contents d i = s"
    using assms(2) by (auto simp: visible_def)
  then have d': "move_name p q d = d\<lparr>ino_names := (ino_names d)(p := None, q \<mapsto> i)\<rparr>"
    by (simp add: move_name_def)
  have other: "x = p" if "ino_names d x = Some i" for x using ino_okD(2) [OF ok that i(1)] .
  have names: "ino_names (move_name p q d) x =
      (if x = q then Some i else if x = p then None else ino_names d x)" for x
    using assms(3) by (simp add: d')
  have "x = y" if "ino_names (move_name p q d) x = Some j" "ino_names (move_name p q d) y = Some j" for x y j
    using that other [of x] other [of y] ino_okD(2) [OF ok, of x j y]
    by (simp add: names split: if_splits)
  moreover have "j < ino_next (move_name p q d)" if "ino_names (move_name p q d) x = Some j" for x j
    using that ino_okD(1) [OF ok i(1)] ino_okD(1) [OF ok, of x j] by (simp add: names d' split: if_splits)
  ultimately have "ino_ok (move_name p q d)" unfolding ino_ok_def by blast
  then show ?thesis using assms(3) i by (auto simp: d' visible_def fun_eq_iff)
qed

section \<open>Calls that are not dropped\<close>

text \<open>
  The call under way, against the calls of \<open>set_run\<close> that are over: \<open>st\<close> and \<open>fs\<close> are the store and
  the files those calls left.
\<close>

definition follows ::
  "(positions \<Rightarrow> string + string) \<Rightarrow> bookmark_store \<Rightarrow> files \<Rightarrow> bookmark_tasks \<Rightarrow> bool" where
  "follows to_toml st fs t =
    (case bk_call t of
       None \<Rightarrow> bk_store t = st \<and> visible (bk_disk t) = fs
     | Some job \<Rightarrow>
       (\<exists>obj position s.
          bk_store t = st\<lparr>bs_positions := update_position obj position (bs_positions st)\<rparr>
          \<and> to_toml (bs_positions (bk_store t)) = Inr s
          \<and> (case job of
               OpenFile p u \<Rightarrow> p = temporary_of st \<and> u = s \<and> visible (bk_disk t) = fs
             | WriteBytes i k u \<Rightarrow>
               ino_names (bk_disk t) (temporary_of st) = Some i \<and> k \<le> length s \<and> u = drop k s
               \<and> visible (bk_disk t) = fs(temporary_of st \<mapsto> take k s)
             | MoveFile p q \<Rightarrow>
               p = temporary_of st \<and> q = bs_path st
               \<and> visible (bk_disk t) = fs(temporary_of st \<mapsto> s))))"

text \<open>What \<open>set_position\<close> makes of the files, for each way a call can end.\<close>

lemma set_position_files:
  assumes "to_toml (update_position obj position (bs_positions st)) = Inr s"
  defines "st' \<equiv> st\<lparr>bs_positions := update_position obj position (bs_positions st)\<rparr>"
    and "tmp \<equiv> temporary_of st"
  shows "\<exists>d'. set_position to_toml False (no_faults\<lparr>write_fault := Some (e, None)\<rparr>) obj position st d =
      (Inl (BookmarkWrite tmp e), st', d') \<and> files d' = files d"
    and "\<exists>d'. set_position to_toml False (no_faults\<lparr>write_fault := Some (e, Some k)\<rparr>) obj position st d =
      (Inl (BookmarkWrite tmp e), st', d') \<and> files d' = (files d)(tmp \<mapsto> take k s)"
    and "\<exists>d'. set_position to_toml False (no_faults\<lparr>rename_fault := Some e\<rparr>) obj position st d =
      (Inl (BookmarkWrite (bs_path st) e), st', d') \<and> files d' = (files d)(tmp \<mapsto> s)"
    and "\<exists>d'. set_position to_toml False no_faults obj position st d =
      (Inr (), st', d') \<and> files d' = (files d)(tmp := None, bs_path st \<mapsto> s)"
  using assms(1)
  by (auto simp: set_position_def Let_def st'_def tmp_def temporary_of_def no_faults_def disk_write_def
      fold_disk_pass replace_file_def disk_rename_def simp del: upt_Suc)

lemma set_run_append:
  "set_run to_toml w (ops @ ops') st d =
    (case set_run to_toml w ops st d of (rs, st1, d1) \<Rightarrow>
     case set_run to_toml w ops' st1 d1 of (rs', st2, d2) \<Rightarrow> (rs @ rs', st2, d2))"
  by (induction ops arbitrary: st d) (auto split: prod.splits)

lemma set_run_snoc:
  "set_run to_toml w ops st0 d0 = (rs, st, d) \<Longrightarrow> set_position to_toml w f obj position st d = (r, st', d') \<Longrightarrow>
    set_run to_toml w (ops @ [(obj, position, f)]) st0 d0 = (rs @ [r], st', d')"
  by (simp add: set_run_append)

definition simulated ::
  "(positions \<Rightarrow> string + string) \<Rightarrow> bookmark_store \<Rightarrow> disk \<Rightarrow> bookmark_tasks \<Rightarrow> bool" where
  "simulated to_toml st0 d0 t =
    (ino_ok (bk_disk t) \<and> bk_detached t = []
     \<and> (\<exists>ops st d. set_run to_toml False ops st0 d0 = (bk_results t, st, d)
          \<and> follows to_toml st (files d) t))"

text \<open>A call that ends has done what \<open>set_position\<close> does with some faults.\<close>

lemma simulated_finish:
  assumes run: "set_run to_toml False ops st0 d0 = (bk_results t, st, d)"
    and ends: "\<exists>d'. set_position to_toml False f obj position st d = (r, bk_store t, d')
      \<and> files d' = visible (bk_disk t)"
    and "ino_ok (bk_disk t)" "bk_detached t = []"
  shows "simulated to_toml st0 d0 (finish_call r t)"
proof -
  obtain d' where d': "set_position to_toml False f obj position st d = (r, bk_store t, d')"
    "files d' = visible (bk_disk t)" using ends by blast
  from set_run_snoc [OF run d'(1)] show ?thesis
    using assms(3,4) d'(2) [symmetric] by (fastforce simp: simulated_def finish_call_def follows_def)
qed

lemma simulated_begin:
  assumes sim: "simulated to_toml st0 d0 t" and idle: "bk_call t = None"
  shows "simulated to_toml st0 d0 (begin_call to_toml obj position t)"
proof -
  obtain ops st d where run: "set_run to_toml False ops st0 d0 = (bk_results t, st, d)"
    "bk_store t = st" "visible (bk_disk t) = files d" "ino_ok (bk_disk t)" "bk_detached t = []"
    using sim idle by (auto simp: simulated_def follows_def)
  let ?st = "st\<lparr>bs_positions := update_position obj position (bs_positions st)\<rparr>"
  show ?thesis
  proof (cases "to_toml (update_position obj position (bs_positions st))")
    case (Inl e)
    have "set_position to_toml False no_faults obj position st d = (Inl (BookmarkSerialize e), ?st, d)"
      using Inl by (simp add: set_position_def)
    then have "simulated to_toml st0 d0 (finish_call (Inl (BookmarkSerialize e)) (t\<lparr>bk_store := ?st\<rparr>))"
      using run by (intro simulated_finish [where f = no_faults and obj = obj and position = position]) auto
    then show ?thesis using Inl run(2) by (simp add: begin_call_def)
  next
    case (Inr s)
    have "follows to_toml st (files d)
        (t\<lparr>bk_store := ?st, bk_call := Some (OpenFile (temporary_of ?st) s)\<rparr>)"
      using Inr run(3) by (auto simp: follows_def temporary_of_def)
    with Inr run show ?thesis by (auto simp: begin_call_def simulated_def Let_def)
  qed
qed

text \<open>The parts of a call under way.\<close>

lemma simulated_call:
  assumes "simulated to_toml st0 d0 t" and "bk_call t = Some job" and "bs_path st0 \<noteq> []"
  obtains ops st d obj position s where
    "set_run to_toml False ops st0 d0 = (bk_results t, st, d)" "ino_ok (bk_disk t)" "bk_detached t = []"
    "bk_store t = st\<lparr>bs_positions := update_position obj position (bs_positions st)\<rparr>"
    "to_toml (update_position obj position (bs_positions st)) = Inr s"
    "temporary_of (bk_store t) = temporary_of st" "temporary_of st \<noteq> bs_path st"
    "case job of
        OpenFile p u \<Rightarrow> p = temporary_of st \<and> u = s \<and> visible (bk_disk t) = files d
      | WriteBytes i k u \<Rightarrow>
        ino_names (bk_disk t) (temporary_of st) = Some i \<and> k \<le> length s \<and> u = drop k s
        \<and> visible (bk_disk t) = (files d)(temporary_of st \<mapsto> take k s)
      | MoveFile p q \<Rightarrow>
        p = temporary_of st \<and> q = bs_path st \<and> visible (bk_disk t) = (files d)(temporary_of st \<mapsto> s)"
proof -
  obtain ops st d where run: "set_run to_toml False ops st0 d0 = (bk_results t, st, d)"
    "follows to_toml st (files d) t" "ino_ok (bk_disk t)" "bk_detached t = []"
    using assms(1) by (auto simp: simulated_def)
  have "bs_path st \<noteq> []" using set_run_unix [OF run(1) assms(3)] assms(3) by simp
  then have "temporary_of st \<noteq> bs_path st" by (simp add: temporary_of_def path_with_extension_neq)
  with run assms(2) show thesis
    by (auto simp: follows_def temporary_of_def intro!: that)
qed

lemma simulated_work:
  assumes sim: "simulated to_toml st0 d0 t" and job: "bk_call t = Some job" and path: "bs_path st0 \<noteq> []"
  shows "simulated to_toml st0 d0 (work_call job t)"
proof -
  obtain ops st d obj position s where run: "set_run to_toml False ops st0 d0 = (bk_results t, st, d)"
    and ok: "ino_ok (bk_disk t)" and none: "bk_detached t = []"
    and st: "bk_store t = st\<lparr>bs_positions := update_position obj position (bs_positions st)\<rparr>"
    and s: "to_toml (update_position obj position (bs_positions st)) = Inr s"
    and tmp: "temporary_of (bk_store t) = temporary_of st" "temporary_of st \<noteq> bs_path st"
    and at: "case job of
        OpenFile p u \<Rightarrow> p = temporary_of st \<and> u = s \<and> visible (bk_disk t) = files d
      | WriteBytes i k u \<Rightarrow>
        ino_names (bk_disk t) (temporary_of st) = Some i \<and> k \<le> length s \<and> u = drop k s
        \<and> visible (bk_disk t) = (files d)(temporary_of st \<mapsto> take k s)
      | MoveFile p q \<Rightarrow>
        p = temporary_of st \<and> q = bs_path st \<and> visible (bk_disk t) = (files d)(temporary_of st \<mapsto> s)"
    by (rule simulated_call [OF sim job path])
  have go_on: "simulated to_toml st0 d0 t'"
    if "bk_store t' = bk_store t" "bk_results t' = bk_results t" "bk_detached t' = []"
      "ino_ok (bk_disk t')" "follows to_toml st (files d) t'" for t'
    using that run by (auto simp: simulated_def)
  show ?thesis
  proof (cases job)
    case (OpenFile p u)
    obtain i d' where open': "open_truncated p (bk_disk t) = (i, d')" by fastforce
    from open_truncated_facts [OF ok open'] at show ?thesis
      using open' none s st OpenFile by (intro go_on) (auto simp: work_call_def follows_def)
  next
    case (WriteBytes i k u)
    with at have w: "ino_names (bk_disk t) (temporary_of st) = Some i" "k \<le> length s" "u = drop k s"
      "visible (bk_disk t) = (files d)(temporary_of st \<mapsto> take k s)" by simp_all
    show ?thesis
    proof (cases u)
      case Nil
      with w show ?thesis using none s st tmp WriteBytes ok
        by (intro go_on) (auto simp: work_call_def follows_def)
    next
      case (Cons c cs)
      have drop: "drop k s = c # cs" using w(3) Cons by simp
      then have "k < length s" by (metis drop_all leI list.distinct(1))
      with drop have c: "k < length s" "s ! k = c" "cs = drop (Suc k) s"
        by (simp_all add: Cons_nth_drop_Suc [symmetric])
      have "ino_contents (bk_disk t) i = take k s"
        using w(1,4) by (auto simp: visible_def fun_eq_iff split: if_splits dest: spec [of _ "temporary_of st"])
      then have "visible (put_byte i k c (bk_disk t)) = (files d)(temporary_of st \<mapsto> take (Suc k) s)"
        "ino_ok (put_byte i k c (bk_disk t))"
        "ino_names (put_byte i k c (bk_disk t)) (temporary_of st) = Some i"
        using put_byte_facts [OF ok w(1), of "take k s" k c] w(2,4) c by (simp_all add: take_Suc_conv_app_nth)
      then show ?thesis using none s st WriteBytes Cons c
        by (intro go_on) (auto simp: work_call_def follows_def)
    qed
  next
    case (MoveFile p q)
    with at have m: "p = temporary_of st" "q = bs_path st"
      "visible (bk_disk t) = (files d)(temporary_of st \<mapsto> s)" by simp_all
    have "visible (bk_disk t) p = Some s" by (simp add: m)
    from move_name_facts [OF ok this] tmp(2) m
    have moved: "ino_ok (move_name p q (bk_disk t))"
      "visible (move_name p q (bk_disk t)) = (files d)(temporary_of st := None, bs_path st \<mapsto> s)" by auto
    have "ino_names (bk_disk t) p \<noteq> None" using \<open>visible (bk_disk t) p = Some s\<close> by (auto simp: visible_def)
    then have "work_call job t = finish_call (Inr ()) (t\<lparr>bk_disk := move_name p q (bk_disk t)\<rparr>)"
      by (auto simp: work_call_def MoveFile)
    moreover have "simulated to_toml st0 d0 \<dots>"
      using run moved none st set_position_files(4) [where to_toml = to_toml and obj = obj and position = position and st = st, OF s]
      by (intro simulated_finish [where f = no_faults and obj = obj and position = position]) auto
    ultimately show ?thesis by simp
  qed
qed

lemma simulated_fail:
  assumes sim: "simulated to_toml st0 d0 t" and job: "bk_call t = Some job" and path: "bs_path st0 \<noteq> []"
  shows "simulated to_toml st0 d0 (fail_call job e t)"
proof -
  obtain ops st d obj position s where run: "set_run to_toml False ops st0 d0 = (bk_results t, st, d)"
    and ok: "ino_ok (bk_disk t)" and none: "bk_detached t = []"
    and st: "bk_store t = st\<lparr>bs_positions := update_position obj position (bs_positions st)\<rparr>"
    and s: "to_toml (update_position obj position (bs_positions st)) = Inr s"
    and tmp: "temporary_of (bk_store t) = temporary_of st" "temporary_of st \<noteq> bs_path st"
    and at: "case job of
        OpenFile p u \<Rightarrow> p = temporary_of st \<and> u = s \<and> visible (bk_disk t) = files d
      | WriteBytes i k u \<Rightarrow>
        ino_names (bk_disk t) (temporary_of st) = Some i \<and> k \<le> length s \<and> u = drop k s
        \<and> visible (bk_disk t) = (files d)(temporary_of st \<mapsto> take k s)
      | MoveFile p q \<Rightarrow>
        p = temporary_of st \<and> q = bs_path st \<and> visible (bk_disk t) = (files d)(temporary_of st \<mapsto> s)"
    by (rule simulated_call [OF sim job path])
  note result = set_position_files(1-3) [where to_toml = to_toml and obj = obj and position = position and st = st and e = e, OF s]
  define r where "r = (Inl (BookmarkWrite
    (case job of MoveFile p q \<Rightarrow> q | _ \<Rightarrow> temporary_of (bk_store t)) e) :: bookmark_error + unit)"
  have "\<exists>f d'. set_position to_toml False f obj position st d = (r, bk_store t, d')
      \<and> files d' = visible (bk_disk t)"
  proof (cases job)
    case (OpenFile p u)
    with result(1) [of d] at st tmp(1) show ?thesis by (fastforce simp: r_def)
  next
    case (WriteBytes i k u)
    with result(2) [of k d] at st tmp(1) show ?thesis by (fastforce simp: r_def)
  next
    case (MoveFile p q)
    with result(3) [of d] at st show ?thesis by (fastforce simp: r_def)
  qed
  then show ?thesis using simulated_finish [OF run _ ok none] unfolding fail_call_def r_def by blast
qed

lemma acts_simulated:
  assumes "simulated to_toml st0 d0 t" and "acts to_toml as t = Some t'" and "Cancel \<notin> set as"
    and "bs_path st0 \<noteq> []"
  shows "simulated to_toml st0 d0 t'"
  using assms(1-3)
proof (induction "as" arbitrary: t)
  case (Cons a "as")
  obtain t1 where t1: "act to_toml a t = Some t1" "acts to_toml as t1 = Some t'"
    using Cons.prems(2) by (cases "act to_toml a t") simp_all
  have none: "bk_detached t = []" using Cons.prems(1) by (simp add: simulated_def)
  have "simulated to_toml st0 d0 t1"
    using t1(1) Cons.prems(3) simulated_begin [OF Cons.prems(1)] none
      simulated_work [OF Cons.prems(1) _ assms(4)] simulated_fail [OF Cons.prems(1) _ assms(4)]
    by (cases a) (auto simp: act_def split: if_splits)
  with Cons.IH t1(2) Cons.prems(3) show ?case by simp
qed simp

section \<open>Dropped calls\<close>

definition overwritten :: "nat \<Rightarrow> string \<Rightarrow> inodes \<Rightarrow> inodes" where
  "overwritten i s d = d\<lparr>ino_contents := (ino_contents d)(i := s)\<rparr>"

lemma overwritten_simps [simp]:
  "ino_names (overwritten i s d) = ino_names d" "ino_contents (overwritten i s d) i = s"
  "overwritten i s (overwritten i s' d) = overwritten i s d"
  by (simp_all add: overwritten_def)

lemma put_byte_end: "ino_contents d i = s \<Longrightarrow> put_byte i (length s) c d = overwritten i (s @ [c]) d"
  by (simp add: put_byte_def overwritten_def)

lemma overwritten_same: "ino_contents d i = s \<Longrightarrow> overwritten i s d = d"
  by (auto simp: overwritten_def)

text \<open>A thread that is alone with its file writes all of its text.\<close>

lemma work_bytes:
  "bk_call t = Some (WriteBytes i (length w) u) \<Longrightarrow> ino_contents (bk_disk t) i = w \<Longrightarrow>
    acts to_toml (replicate (length u) Work) t =
      Some (t\<lparr>bk_disk := overwritten i (w @ u) (bk_disk t),
              bk_call := Some (WriteBytes i (length w + length u) [])\<rparr>)"
proof (induction u arbitrary: t w)
  case Nil
  then show ?case by (cases t) (simp add: overwritten_same)
next
  case (Cons c u)
  let ?t = "t\<lparr>bk_disk := overwritten i (w @ [c]) (bk_disk t),
    bk_call := Some (WriteBytes i (length (w @ [c])) u)\<rparr>"
  have "act to_toml Work t = Some ?t"
    using Cons.prems put_byte_end [OF Cons.prems(2)] by (simp add: act_def work_call_def)
  with Cons.IH [of ?t "w @ [c]"] show ?case by simp
qed

lemma background_bytes:
  "bk_detached t = [WriteBytes i (length w) u] \<Longrightarrow> ino_contents (bk_disk t) i = w \<Longrightarrow>
    acts to_toml (replicate (length u) (Background 0) @ [Background 0]) t =
      Some (t\<lparr>bk_disk := overwritten i (w @ u) (bk_disk t), bk_detached := []\<rparr>)"
proof (induction u arbitrary: t w)
  case Nil
  then show ?case by (cases t) (simp add: act_def overwritten_same)
next
  case (Cons c u)
  let ?t = "t\<lparr>bk_disk := overwritten i (w @ [c]) (bk_disk t),
    bk_detached := [WriteBytes i (length (w @ [c])) u]\<rparr>"
  have "act to_toml (Background 0) t = Some ?t"
    using Cons.prems put_byte_end [OF Cons.prems(2)] by (simp add: act_def)
  with Cons.IH [of ?t "w @ [c]"] show ?case by simp
qed

section \<open>Properties\<close>

text \<open>C39. Calls that are not dropped are the calls of the specification: whatever the tasks and the
  disk do step by step, with any failures, as long as no task is dropped, some history of whole calls
  has the same results; between calls store and files are as that history leaves them, and during a
  call only the temporary file differs, so the bookmarks on disk are those of the last successful
  call.\<close>

theorem undropped_calls:
  assumes "acts to_toml as (idle d st) = Some t" and "Cancel \<notin> set as"
    and "ino_ok d" and "bs_path st \<noteq> []"
  shows "\<exists>ops st' d'. set_run to_toml False ops st \<lparr>files = visible d, moments = []\<rparr> =
      (bk_results t, st', d')
    \<and> (if bk_call t = None then bk_store t = st' \<and> visible (bk_disk t) = files d'
       else \<forall>q. q \<noteq> temporary_of st \<longrightarrow> visible (bk_disk t) q = files d' q)
    \<and> visible (bk_disk t) (bs_path st) = files d' (bs_path st)"
proof -
  let ?d = "\<lparr>files = visible d, moments = []\<rparr>"
  have "set_run to_toml False [] st ?d = (bk_results (idle d st), st, ?d)"
    "follows to_toml st (files ?d) (idle d st)" by (simp_all add: idle_def follows_def)
  then have "simulated to_toml st ?d (idle d st)"
    using assms(3) unfolding simulated_def
    by (intro conjI exI [of _ "[]"] exI [of _ st] exI [of _ ?d]) (simp_all add: idle_def)
  from acts_simulated [OF this assms(1,2,4)] obtain ops st' d' where
    run: "set_run to_toml False ops st ?d = (bk_results t, st', d')" and at: "follows to_toml st' (files d') t"
    by (auto simp: simulated_def)
  have "bs_path st' = bs_path st" using set_run_unix [OF run assms(4)] by simp
  then have tmp: "temporary_of st' = temporary_of st" by (simp add: temporary_of_def)
  have neq: "temporary_of st \<noteq> bs_path st" using path_with_extension_neq [OF assms(4)] by (simp add: temporary_of_def)
  show ?thesis
  proof (cases "bk_call t")
    case None
    with run at show ?thesis by (auto simp: follows_def)
  next
    case (Some job)
    with at have "visible (bk_disk t) q = files d' q" if "q \<noteq> temporary_of st" for q
      using that by (cases job) (auto simp: follows_def tmp)
    with run Some neq show ?thesis by (auto intro!: exI [of _ ops] exI [of _ st'] exI [of _ d'])
  qed
qed

definition example_inodes :: inodes where
  "example_inodes = \<lparr>ino_names = (\<lambda>_. None), ino_contents = (\<lambda>_. []), ino_next = 0\<rparr>"

lemma example_inodes_ok: "ino_ok example_inodes" "visible example_inodes = (\<lambda>_. None)"
  by (simp_all add: ino_ok_def example_inodes_def visible_def)

text \<open>A call whose write fails after the file was opened.\<close>

theorem undropped_calls_witness:
  "\<exists>t ops st' d'. acts example_to_toml [Call ''v'' 5, Work, Fail (OtherKind, ''full'')]
      (idle example_inodes example_store) = Some t
    \<and> set_run example_to_toml False ops example_store \<lparr>files = (\<lambda>_. None), moments = []\<rparr> =
        (bk_results t, st', d')
    \<and> length ops = 1 \<and> bs_positions st' = [(''v'', 5)]
    \<and> visible (bk_disk t) [''bookmarks.toml''] = files d' [''bookmarks.toml'']"
proof -
  let ?as = "[Call ''v'' 5, Work, Fail (OtherKind, ''full'')]"
  obtain t where t: "acts example_to_toml ?as (idle example_inodes example_store) = Some t"
    "length (bk_results t) = 1" "bk_call t = None" "bs_positions (bk_store t) = [(''v'', 5)]"
    by (simp add: act_def idle_def begin_call_def Let_def example_store_def update_position_def
        example_to_toml_def work_call_def fail_call_def finish_call_def open_truncated_def example_inodes_def)
  have path: "bs_path example_store \<noteq> []" "bs_path example_store = [''bookmarks.toml'']"
    by (simp_all add: example_store_def)
  have "Cancel \<notin> set ?as" by simp
  from undropped_calls [OF t(1) this example_inodes_ok(1) path(1)] obtain ops st' d' where
    run: "set_run example_to_toml False ops example_store \<lparr>files = (\<lambda>_. None), moments = []\<rparr> =
      (bk_results t, st', d')" "bk_store t = st'"
    "visible (bk_disk t) [''bookmarks.toml''] = files d' [''bookmarks.toml'']"
    using t(3) path(2) by (auto simp: example_inodes_ok(2))
  have "length ops = 1" using set_run_unix [OF run(1) path(1)] t(2) by simp
  with t run show ?thesis by blast
qed

text \<open>C40. A dropped call can undo a later one: if the task of a call is dropped before its thread has
  opened the temporary file, and another call follows, then the other call can succeed while the
  bookmarks on disk are first an empty file and then those of the dropped call, so that the position
  reported as saved is not on disk.\<close>

theorem dropped_call_overwrites:
  assumes "ino_ok d" and "bs_path st \<noteq> []"
    and "to_toml (update_position obj position (bs_positions st)) = Inr s"
    and "to_toml (update_position obj' position' (update_position obj position (bs_positions st))) = Inr s'"
  shows "\<exists>as as' t t'. acts to_toml as (idle d st) = Some t \<and> acts to_toml as' t = Some t'
    \<and> count_list (as @ as') Cancel = 1 \<and> list_all (\<lambda>a. \<forall>e. a \<noteq> Fail e) (as @ as')
    \<and> bk_results t = [Inr ()] \<and> visible (bk_disk t) (bs_path st) = Some []
    \<and> bk_results t' = [Inr ()] \<and> visible (bk_disk t') (bs_path st) = Some s
    \<and> bk_call t' = None \<and> bk_detached t' = [] \<and> bs_positions (bk_store t') =
        update_position obj' position' (update_position obj position (bs_positions st))"
proof -
  let ?tmp = "temporary_of st" and ?path = "bs_path st"
  obtain i d1 where open1: "open_truncated ?tmp d = (i, d1)" by fastforce
  from open_truncated_facts [OF assms(1) this] have d1: "ino_names d1 ?tmp = Some i" by simp
  have "ino_contents d1 i = []" using open1 by (auto simp: open_truncated_def split: option.splits)
  note d1 = d1 this
  define st2 where "st2 = st\<lparr>bs_positions :=
    update_position obj' position' (update_position obj position (bs_positions st))\<rparr>"
  define t1 where "t1 = \<lparr>bk_disk = d1, bk_store = st2, bk_call = Some (WriteBytes i 0 s'),
    bk_detached = [OpenFile ?tmp s], bk_results = []\<rparr>"
  define t2 where "t2 = \<lparr>bk_disk = move_name ?tmp ?path (overwritten i [] d1), bk_store = st2,
    bk_call = None, bk_detached = [WriteBytes i 0 s], bk_results = [Inr ()]\<rparr>"
  have tmp: "temporary_of st2 = ?tmp" "bs_path st2 = ?path" by (simp_all add: st2_def temporary_of_def)
  have begun: "acts to_toml [Call obj position, Cancel, Call obj' position', Work] (idle d st) = Some t1"
    using assms(3,4)
    by (simp add: act_def idle_def begin_call_def Let_def work_call_def open1 temporary_of_def t1_def
        st2_def open1 [unfolded temporary_of_def])
  have written: "acts to_toml (replicate (length s') Work) t1 =
      Some (t1\<lparr>bk_disk := overwritten i s' d1, bk_call := Some (WriteBytes i (length s') [])\<rparr>)"
    using work_bytes [of t1 i "[]" s'] d1 by (simp add: t1_def)
  have again: "open_truncated ?tmp (overwritten i s' d1) = (i, overwritten i [] d1)"
    using d1 by (simp add: open_truncated_def overwritten_def)
  have moved: "acts to_toml [Work, Background 0, Work]
      (t1\<lparr>bk_disk := overwritten i s' d1, bk_call := Some (WriteBytes i (length s') [])\<rparr>) = Some t2"
    using d1 by (simp add: act_def work_call_def t1_def t2_def tmp again finish_call_def)
  let ?as = "[Call obj position, Cancel, Call obj' position', Work] @ replicate (length s') Work
    @ [Work, Background 0, Work]"
  let ?as' = "replicate (length s) (Background 0) @ [Background 0]"
  have first: "acts to_toml ?as (idle d st) = Some t2"
    by (rule acts_trans [OF begun acts_trans [OF written moved]])
  have d2: "bk_disk t2 = (overwritten i [] d1)\<lparr>ino_names := (ino_names d1)(?tmp := None, ?path \<mapsto> i)\<rparr>"
    using d1 by (simp add: t2_def move_name_def)
  then have "acts to_toml ?as' t2 = Some (t2\<lparr>bk_disk := overwritten i s (bk_disk t2), bk_detached := []\<rparr>)"
    using background_bytes [of t2 i "[]" s] by (simp add: t2_def overwritten_def)
  moreover have "visible (bk_disk t2) ?path = Some []" "visible (overwritten i s (bk_disk t2)) ?path = Some s"
    by (simp_all add: visible_def d2 overwritten_def)
  moreover have "count_list (?as @ ?as') Cancel = 1" by (simp add: count_list_0_iff)
  moreover have "list_all (\<lambda>a. \<forall>e. a \<noteq> Fail e) (?as @ ?as')" by (auto simp: list_all_iff)
  ultimately show ?thesis using first
    by (intro exI [of _ ?as] exI [of _ ?as'] exI [of _ t2]
        exI [of _ "t2\<lparr>bk_disk := overwritten i s (bk_disk t2), bk_detached := []\<rparr>"] conjI)
      (simp_all add: t2_def st2_def)
qed

text \<open>A position of 5 seconds is sent, its request dropped, then 7 is saved; a restart gives 5.\<close>

theorem dropped_call_overwrites_witness:
  "\<exists>as t. acts example_to_toml as (idle example_inodes example_store) = Some t
    \<and> bk_results t = [Inr ()] \<and> snapshot (bk_store t) = [(''v'', 7)]
    \<and> load_bookmarks example_from_toml None [''bookmarks.toml''] (visible (bk_disk t)) =
        Inr \<lparr>bs_path = [''bookmarks.toml''], bs_positions = [(''v'', 5)]\<rparr>"
proof -
  have path: "bs_path example_store \<noteq> []" "bs_path example_store = [''bookmarks.toml'']"
    by (simp_all add: example_store_def)
  have maps: "update_position ''v'' 5 (bs_positions example_store) = [(''v'', 5)]"
    "update_position ''v'' 7 [(''v'', 5)] = [(''v'', 7)]"
    by (simp_all add: example_store_def update_position_def)
  have toml: "example_to_toml (update_position ''v'' 5 (bs_positions example_store)) = Inr ''v=5''"
    "example_to_toml (update_position ''v'' 7 (update_position ''v'' 5 (bs_positions example_store))) =
      Inr ''v=7''"
    unfolding maps by (simp_all add: example_to_toml_def)
  obtain as as' t t' where run: "acts example_to_toml as (idle example_inodes example_store) = Some t"
    "acts example_to_toml as' t = Some t'" "bk_results t' = [Inr ()]"
    "visible (bk_disk t') [''bookmarks.toml''] = Some ''v=5''" "bs_positions (bk_store t') = [(''v'', 7)]"
    using dropped_call_overwrites [OF example_inodes_ok(1) path(1) toml] unfolding maps path(2) by blast
  have one: "bt_ok [(''v'', 5 :: u64)]" "example_to_toml [(''v'', 5)] = Inr ''v=5''"
    by (simp_all add: bt_ok_def example_to_toml_def)
  have "load_bookmarks example_from_toml None [''bookmarks.toml''] (visible (bk_disk t')) =
      Inr \<lparr>bs_path = [''bookmarks.toml''], bs_positions = [(''v'', 5)]\<rparr>"
    by (rule load_written [where fs = "visible (bk_disk t')", OF example_codec one run(4)])
  with run acts_trans [OF run(1,2)] show ?thesis unfolding snapshot_def by blast
qed

end
