(* ===== verification/Scan_Tests.thy ===== *)
theory Scan_Tests
  imports Core_Properties Xml
begin

text \<open>
  The unit tests of \<open>crates/joedlna-core/src/catalog.rs\<close> that scan a temporary directory, as predicates
  on the model, and that they hold for every path such a directory may have.  Each has the name of the
  Rust test; \<open>unwrap\<close> on an error or a missing value makes it fail.  One depends on a hash value, and
  is shown to hold exactly where that is not folded to 0.
\<close>

section \<open>Temporary directories\<close>

text \<open>
  A directory at \<open>root\<close> with the given relative paths, where \<open>None\<close> is a directory and \<open>Some\<close> a file
  with its content, all modified at one time and looked at later.
\<close>

type_synonym temp_tree = "(string list \<times> string option) list"

definition temp_metadata :: "path \<Rightarrow> temp_tree \<Rightarrow> sys_time \<Rightarrow> path \<Rightarrow> io_error + metadata" where
  "temp_metadata root tree modified p =
    (case path_strip_prefix p root of
       None \<Rightarrow> Inl ''not found''
     | Some rel \<Rightarrow>
       if rel = [] then Inr \<lparr>md_type = Dir, md_len = 0, md_modified = Some modified\<rparr>
       else
         (case map_of tree rel of
            None \<Rightarrow> Inl ''not found''
          | Some None \<Rightarrow> Inr \<lparr>md_type = Dir, md_len = 0, md_modified = Some modified\<rparr>
          | Some (Some content) \<Rightarrow>
            Inr \<lparr>md_type = File, md_len = word_of_nat (length content), md_modified = Some modified\<rparr>))"

definition temp_dir :: "path \<Rightarrow> temp_tree \<Rightarrow> sys_time \<Rightarrow> sys_time \<Rightarrow> file_system" where
  "temp_dir root tree modified now =
    \<lparr>fs_resolve = (\<lambda>_. Inr root),
     fs_stat = (\<lambda>_. temp_metadata root tree modified root),
     fs_canonicalize = Some,
     fs_metadata = temp_metadata root tree modified,
     fs_symlink_metadata = temp_metadata root tree modified,
     fs_read_dir = (\<lambda>p.
       Some (map (\<lambda>(rel, _). Some (last rel)) (filter (\<lambda>(rel, _). root @ butlast rel = p) tree))),
     fs_now = (\<lambda>_. now)\<rparr>"

definition temp_share :: "string \<Rightarrow> path \<Rightarrow> media_category list \<Rightarrow> share_config" where
  "temp_share name root media = \<lparr>sh_name = name, sh_path = abs_os_str root, sh_media = media\<rparr>"

definition temp_config :: "scanner_config \<Rightarrow> share_config \<Rightarrow> config" where
  "temp_config opts share =
    \<lparr>friendly_name = ''Test'', network = default_network, scanner = opts, shares = [share]\<rparr>"

text \<open>\<open>catalog.children(id).unwrap().next().unwrap()\<close>.\<close>

definition first_child :: "catalog \<Rightarrow> string \<Rightarrow> entry option" where
  "first_child c i = (case catalog_children c i of Some (e # _) \<Rightarrow> Some e | _ \<Rightarrow> None)"

section \<open>The tests\<close>

definition builds_virtual_share_hierarchy :: "path \<Rightarrow> sys_time \<Rightarrow> sys_time \<Rightarrow> bool" where
  "builds_virtual_share_hierarchy root modified now =
    (case scan
        (temp_dir root
          [([''Season 1''], None), ([''Season 1'', ''Episode.mkv''], Some ''video''),
           ([''ignore.txt''], Some ''text'')] modified now)
        (temp_config default_scanner (temp_share ''Shows'' root ALL_CATEGORIES)) of
       Some (Inr c) \<Rightarrow>
         file_count c = 1 \<and> map_option length (catalog_children c ROOT_ID) = Some 1
         \<and> (case first_child c ROOT_ID of
              None \<Rightarrow> False
            | Some share \<Rightarrow> e_title share = ''Shows'' \<and> e_kind share = Container)
     | _ \<Rightarrow> False)"

definition share_filters_media_categories :: "path \<Rightarrow> sys_time \<Rightarrow> sys_time \<Rightarrow> bool" where
  "share_filters_media_categories root modified now =
    (case scan
        (temp_dir root [([''movie.mp4''], Some ''video''), ([''song.mp3''], Some ''audio'')] modified now)
        (temp_config default_scanner (temp_share ''Videos'' root [Video])) of
       Some (Inr c) \<Rightarrow>
         file_count c = 1
         \<and> (case Option.bind (first_child c ROOT_ID) (\<lambda>share. first_child c (e_id share)) of
              None \<Rightarrow> False
            | Some item \<Rightarrow> e_title item = ''movie'')
     | _ \<Rightarrow> False)"

definition non_recursive_scan_only_includes_root_files :: "path \<Rightarrow> sys_time \<Rightarrow> sys_time \<Rightarrow> bool" where
  "non_recursive_scan_only_includes_root_files root modified now =
    (case scan
        (temp_dir root
          [([''nested''], None), ([''root.mp4''], Some ''video''),
           ([''nested'', ''child.mp4''], Some ''video'')] modified now)
        (temp_config (default_scanner\<lparr>recursive := False\<rparr>) (temp_share ''Videos'' root [Video])) of
       Some (Inr c) \<Rightarrow>
         file_count c = 1
         \<and> (case first_child c ROOT_ID of
              None \<Rightarrow> False
            | Some share \<Rightarrow> map_option (map e_title) (catalog_children c (e_id share)) = Some [''root''])
     | _ \<Rightarrow> False)"

definition settled_scan_withholds_recently_modified_media :: "path \<Rightarrow> sys_time \<Rightarrow> sys_time \<Rightarrow> bool" where
  "settled_scan_withholds_recently_modified_media root modified now =
    (let fs = temp_dir root [([''encoding.mp4''], Some ''partial video'')] modified now;
         cfg = temp_config default_scanner (temp_share ''Videos'' root [Video]) in
     case (scan_settled fs cfg, scan fs cfg) of
       (Some (Inr r), Some (Inr c)) \<Rightarrow>
         unsettled_files r = 1 \<and> file_count (scan_catalog r) = 0 \<and> file_count c = 1
     | _ \<Rightarrow> False)"

text \<open>The scans take place at times \<open>now\<close> and \<open>later\<close>.\<close>

definition update_id_is_stable_for_unchanged_content ::
  "path \<Rightarrow> sys_time \<Rightarrow> sys_time \<Rightarrow> sys_time \<Rightarrow> bool" where
  "update_id_is_stable_for_unchanged_content root modified now later =
    (let fs = temp_dir root [([''song.mp3''], Some ''audio'')] modified;
         cfg = temp_config default_scanner (temp_share ''Music'' root ALL_CATEGORIES) in
     case (scan (fs now) cfg, scan (fs later) cfg) of
       (Some (Inr first), Some (Inr second)) \<Rightarrow> update_id first = update_id second \<and> update_id first \<noteq> 0
     | _ \<Rightarrow> False)"

section \<open>They hold\<close>

definition rooted_catalog :: "entry \<Rightarrow> catalog" where
  "rooted_catalog e =
    \<lparr>entries = [(e_id e, e)], children = [(ROOT_ID, [e_id e]), (e_id e, [])],
     update_id = 0, file_count = 0, total_bytes = 0\<rparr>"

lemma root_entry_not_root: "e_id (root_entry share root m) \<noteq> ROOT_ID" "ROOT_ID \<noteq> e_id (root_entry share root m)"
  by (simp_all add: root_entry_def not_sym [OF object_id_not_root])

lemma insert_root: "insert_entry (root_entry share root m) empty_catalog =
    Inr (rooted_catalog (root_entry share root m))"
  using root_entry_not_root [of share root m]
  by (simp add: insert_entry_def empty_catalog_def rooted_catalog_def hm_or_default_def)

lemma temp_root: "fs_resolve (temp_dir root tree modified now) p = Inr root"
  "fs_metadata (temp_dir root tree modified now) root =
    Inr \<lparr>md_type = Dir, md_len = 0, md_modified = Some modified\<rparr>"
  by (simp_all add: temp_dir_def temp_metadata_def path_strip_prefix_join [where rel = "[]", simplified])

text \<open>A scan of one share, from its walk.\<close>

lemma temp_scan:
  fixes root share modified
  defines "e \<equiv> root_entry share root \<lparr>md_type = Dir, md_len = 0, md_modified = Some modified\<rparr>"
  assumes "scan_loop (temp_dir root tree modified now) (share_ctx share opts age root)
      \<lparr>st_catalog = rooted_catalog e, st_pending = [(root, e_id e)], st_visited = [], st_unsettled = 0\<rparr> =
        Some (Inr s)"
    and "sort_children (st_catalog s) = Some c"
  shows "scan_with_minimum_age (temp_dir root tree modified now) (temp_config opts share) age =
    Some (Inr \<lparr>scan_catalog = c\<lparr>update_id := content_fingerprint c\<rparr>, unsettled_files = st_unsettled s\<rparr>)"
  using assms(2,3)
  by (simp add: scan_with_minimum_age_def temp_config_def scan_share_def temp_root
      insert_root [of share root "\<lparr>md_type = Dir, md_len = 0, md_modified = Some modified\<rparr>", folded e_def] bind_scan_def e_def [symmetric])

text \<open>The walk, one directory at a time.\<close>

lemma scan_loop_done: "st_pending s = [] \<Longrightarrow> scan_loop fs ctx s = Some (Inr s)"
  by (subst scan_loop.simps) simp

lemma scan_loop_next:
  "st_pending s \<noteq> [] \<Longrightarrow> scan_step fs ctx s = Inr s' \<Longrightarrow> scan_loop fs ctx s = scan_loop fs ctx s'"
  by (subst scan_loop.simps) simp

lemma path_last: "media_kind (p @ [name]) = media_kind [name]" "path_file_stem (p @ [name]) = path_file_stem [name]"
  by (simp_all add: media_kind_def path_extension_def path_file_stem_def path_file_name_def)

lemma path_last2: "media_kind (p @ [d, name]) = media_kind [name]"
    "path_file_stem (p @ [d, name]) = path_file_stem [name]"
  using path_last [of "p @ [d]" name] by simp_all

lemma temp_names:
  "media_kind [''movie.mp4''] = Some (video_kind ''video/mp4'')"
  "media_kind [''song.mp3''] = Some (audio_kind ''audio/mpeg'')"
  "media_kind [''root.mp4''] = Some (video_kind ''video/mp4'')"
  "media_kind [''encoding.mp4''] = Some (video_kind ''video/mp4'')"
  "media_kind [''Episode.mkv''] = Some (video_kind ''video/x-matroska'')"
  "media_kind [''ignore.txt''] = None"
  by code_simp+

lemma temp_stems:
  "path_file_stem [''movie.mp4''] = Some ''movie''" "path_file_stem [''root.mp4''] = Some ''root''"
  by code_simp+

lemma temp_fields [simp]:
  "recursive default_scanner" "\<not> follow_symlinks default_scanner" "\<not> include_hidden default_scanner"
  "sh_name (temp_share name root media) = name" "sh_media (temp_share name root media) = media"
  "mk_category (video_kind mime) = Video" "mk_category (audio_kind mime) = Audio"
  by (simp_all add: default_scanner_def temp_share_def video_kind_def audio_kind_def)

lemma sorted_single: "sort_children \<lparr>entries = es, children = kids, update_id = u, file_count = n,
    total_bytes = b\<rparr> = Some \<lparr>entries = es, children = kids, update_id = u, file_count = n, total_bytes = b\<rparr>"
  if "list_all (\<lambda>(_, ids). length ids < 2) kids"
proof -
  from that have "sort_all es kids = Some kids"
    by (induction kids) (auto simp: sort_child_ids_def)
  then show ?thesis by (simp add: sort_children_def)
qed

lemma season_hash: "stable_os_hash ''Season 1'' \<noteq> stable_os_hash []"
  by (simp add: stable_os_hash_def FNV_OFFSET_def FNV_PRIME_def)

lemmas temp_walk = scan_step_def enter_directory_def scan_entry_def inspect_def path_join_def
  temp_dir_def temp_metadata_def path_last path_last2 temp_names is_symlink_def is_dir_def is_file_def
  is_settled_def is_hidden_def Let_def

abbreviation temp_root_entry :: "share_config \<Rightarrow> path \<Rightarrow> sys_time \<Rightarrow> entry" where
  "temp_root_entry share root modified \<equiv>
    root_entry share root \<lparr>md_type = Dir, md_len = 0, md_modified = Some modified\<rparr>"

text \<open>A scan whose walk ends with the first directory.\<close>

lemma flat_scan:
  assumes "scan_step (temp_dir root tree modified now) (share_ctx share opts age root)
      (share_start share root \<lparr>md_type = Dir, md_len = 0, md_modified = Some modified\<rparr>
        (rooted_catalog (temp_root_entry share root modified))) =
      Inr \<lparr>st_catalog = c, st_pending = [], st_visited = [], st_unsettled = n\<rparr>"
    and "sort_children c = Some c"
  shows "scan_with_minimum_age (temp_dir root tree modified now) (temp_config opts share) age =
    Some (Inr \<lparr>scan_catalog = c\<lparr>update_id := content_fingerprint c\<rparr>, unsettled_files = n\<rparr>)"
  using temp_scan [of root tree modified now share opts age] scan_loop_next [OF _ assms(1)] assms(2)
  by (simp add: scan_loop_done)

text \<open>The catalog of a share with one file.\<close>

definition one_file :: "entry \<Rightarrow> entry \<Rightarrow> catalog" where
  "one_file e f =
    \<lparr>entries = [(e_id e, e), (e_id f, f)], children = [(ROOT_ID, [e_id e]), (e_id e, [e_id f])],
     update_id = 0, file_count = 1, total_bytes = e_size f\<rparr>"

lemma one_file_sorted: "sort_children (one_file e f) = Some (one_file e f)"
  unfolding one_file_def by (rule sorted_single) simp

lemma one_file_children:
  assumes "e_id f \<noteq> e_id e" "e_id e \<noteq> ROOT_ID"
  shows "catalog_children (one_file e f\<lparr>update_id := u\<rparr>) ROOT_ID = Some [e]"
    and "catalog_children (one_file e f\<lparr>update_id := u\<rparr>) (e_id e) = Some [f]"
    and "file_count (one_file e f\<lparr>update_id := u\<rparr>) = 1"
  using assms by (simp_all add: catalog_children_def one_file_def List.map_filter_simps)

lemma insert_one_file:
  assumes "e_id f \<noteq> e_id e" "e_id e \<noteq> ROOT_ID" "e_parent_id f = e_id e" "e_kind f = Media k" "e_size f = len"
  shows "insert_entry f (count_file len (rooted_catalog e)) = Inr (one_file e f)"
proof -
  have "saturating_add 0 len = len"
    using unsigned_less [where ?'a = nat, of len] by (simp add: saturating_add_def)
  then show ?thesis
    using assms
    by (simp add: insert_entry_def rooted_catalog_def one_file_def count_file_def Let_def)
qed

text \<open>The entry that a file directly in the directory of the share becomes.\<close>

definition temp_media ::
  "share_config \<Rightarrow> scanner_config \<Rightarrow> path \<Rightarrow> sys_time \<Rightarrow> string \<Rightarrow> u64 \<Rightarrow> media_kind_info \<Rightarrow> entry" where
  "temp_media share opts root modified name len k =
    media_entry (share_ctx share opts 0 root) (e_id (temp_root_entry share root modified))
      (to_string_lossy name) (root @ [name])
      \<lparr>md_type = File, md_len = len, md_modified = Some modified\<rparr> k"

lemma temp_media_facts:
  fixes share opts root modified name len k
  defines "f \<equiv> temp_media share opts root modified name len k"
    and "e \<equiv> temp_root_entry share root modified"
  shows "e_id f \<noteq> e_id e" "e_id e \<noteq> ROOT_ID" "e_parent_id f = e_id e" "e_kind f = Media k" "e_size f = len"
  by (simp_all add: f_def e_def temp_media_def root_entry_def media_entry_def object_id_eq_iff)

lemmas insert_temp_media = insert_one_file [OF temp_media_facts, unfolded temp_media_def]

lemma temp_media_title:
  assumes "path_file_stem [name] = Some stem" and "\<forall>c \<in> set stem. byte c < 0x80"
  shows "e_title (temp_media share opts root modified name len k) = stem"
  using assms by (simp add: temp_media_def media_entry_def path_last to_string_lossy_ascii)

text \<open>The scan of a directory with one media file.\<close>

lemma one_file_scan:
  fixes title root media modified name content k
  assumes "media_kind [name] = Some k" and "mk_category k \<in> set media" and "\<not> is_hidden name"
  defines "share \<equiv> temp_share title root media"
    and "e \<equiv> temp_root_entry (temp_share title root media) root modified"
    and "f \<equiv> temp_media (temp_share title root media) default_scanner root modified name
      (word_of_nat (length content)) k"
  shows "scan (temp_dir root [([name], Some content)] modified now) (temp_config default_scanner share) =
    Some (Inr ((one_file e f)\<lparr>update_id := content_fingerprint (one_file e f)\<rparr>))"
proof -
  have "scan_step (temp_dir root [([name], Some content)] modified now)
      (share_ctx share default_scanner 0 root)
      (share_start share root \<lparr>md_type = Dir, md_len = 0, md_modified = Some modified\<rparr> (rooted_catalog e)) =
    Inr \<lparr>st_catalog = one_file e f, st_pending = [], st_visited = [], st_unsettled = 0\<rparr>"
    using assms(1-3) unfolding share_def e_def f_def
    by (simp add: temp_walk insert_temp_media, simp add: temp_media_def)
  from flat_scan [OF this [unfolded e_def f_def share_def] one_file_sorted] show ?thesis
    by (simp add: scan_def bind_scan_def e_def f_def share_def)
qed

lemma share_filters_media_categories_holds: "share_filters_media_categories root modified now"
proof -
  let ?share = "temp_share ''Videos'' root [Video]"
  let ?e = "temp_root_entry ?share root modified"
  let ?f = "temp_media ?share default_scanner root modified ''movie.mp4'' 5 (video_kind ''video/mp4'')"
  let ?fs = "temp_dir root [([''movie.mp4''], Some ''video''), ([''song.mp3''], Some ''audio'')] modified now"
  have "scan_step ?fs (share_ctx ?share default_scanner 0 root)
      (share_start ?share root \<lparr>md_type = Dir, md_len = 0, md_modified = Some modified\<rparr> (rooted_catalog ?e)) =
    Inr \<lparr>st_catalog = one_file ?e ?f, st_pending = [], st_visited = [], st_unsettled = 0\<rparr>"
    by (simp add: temp_walk insert_temp_media, simp add: temp_media_def)
  note scanned = flat_scan [OF this one_file_sorted]
  have "e_title ?f = ''movie''" by (rule temp_media_title) (simp_all add: temp_stems)
  then show ?thesis
    by (simp add: share_filters_media_categories_def scan_def scanned bind_scan_def first_child_def
        one_file_children [OF temp_media_facts(1,2)])
qed

lemma non_recursive_scan_only_includes_root_files_holds:
  "non_recursive_scan_only_includes_root_files root modified now"
proof -
  let ?share = "temp_share ''Videos'' root [Video]" and ?opts = "default_scanner\<lparr>recursive := False\<rparr>"
  let ?e = "temp_root_entry ?share root modified"
  let ?f = "temp_media ?share ?opts root modified ''root.mp4'' 5 (video_kind ''video/mp4'')"
  let ?fs = "temp_dir root [([''nested''], None), ([''root.mp4''], Some ''video''),
    ([''nested'', ''child.mp4''], Some ''video'')] modified now"
  have opts: "\<not> follow_symlinks ?opts" "\<not> include_hidden ?opts" "\<not> recursive ?opts"
    by (simp_all add: default_scanner_def)
  have "scan_step ?fs (share_ctx ?share ?opts 0 root)
      (share_start ?share root \<lparr>md_type = Dir, md_len = 0, md_modified = Some modified\<rparr> (rooted_catalog ?e)) =
    Inr \<lparr>st_catalog = one_file ?e ?f, st_pending = [], st_visited = [], st_unsettled = 0\<rparr>"
    using opts by (simp add: temp_walk insert_temp_media, simp add: temp_media_def)
  note scanned = flat_scan [OF this one_file_sorted]
  have "e_title ?f = ''root''" by (rule temp_media_title) (simp_all add: temp_stems)
  then show ?thesis
    by (simp add: non_recursive_scan_only_includes_root_files_def scan_def scanned bind_scan_def
        first_child_def one_file_children [OF temp_media_facts(1,2)])
qed

text \<open>The test runs within the settle time of thirty seconds after it wrote the file.\<close>

lemma settled_scan_withholds_recently_modified_media_holds:
  assumes "now - modified < 30000000000"
  shows "settled_scan_withholds_recently_modified_media root modified now"
proof -
  let ?share = "temp_share ''Videos'' root [Video]"
  let ?e = "temp_root_entry ?share root modified"
  let ?fs = "temp_dir root [([''encoding.mp4''], Some ''partial video'')] modified now"
  let ?cfg = "temp_config default_scanner ?share"
  have age: "settle_time ?cfg = 30000000000"
    by (simp add: settle_time_def from_secs_def temp_config_def default_scanner_def)
  have "scan_step ?fs (share_ctx ?share default_scanner (settle_time ?cfg) root)
      (share_start ?share root \<lparr>md_type = Dir, md_len = 0, md_modified = Some modified\<rparr> (rooted_catalog ?e)) =
    Inr \<lparr>st_catalog = rooted_catalog ?e, st_pending = [], st_visited = [], st_unsettled = 1\<rparr>"
    using assms by (simp add: temp_walk age)
  moreover have "sort_children (rooted_catalog ?e) = Some (rooted_catalog ?e)"
    unfolding rooted_catalog_def by (rule sorted_single) simp
  ultimately have settled: "scan_settled ?fs ?cfg = Some (Inr
      \<lparr>scan_catalog = (rooted_catalog ?e)\<lparr>update_id := content_fingerprint (rooted_catalog ?e)\<rparr>,
       unsettled_files = 1\<rparr>)"
    unfolding scan_settled_def by (rule flat_scan)
  obtain f u where scanned: "scan ?fs ?cfg = Some (Inr (one_file ?e f\<lparr>update_id := u\<rparr>))"
    using one_file_scan [of "''encoding.mp4''" "video_kind ''video/mp4''" "[Video]"]
    by (fastforce simp: temp_names is_hidden_def)
  show ?thesis
    by (simp add: settled_scan_withholds_recently_modified_media_def Let_def settled scanned
        rooted_catalog_def) (simp add: one_file_def)
qed

text \<open>
  The update identifiers are always equal.  That they are not 0 is a fact of the one hash value that the
  directory and its time happen to give, and is all that the test adds.
\<close>

lemma update_id_is_stable_exact:
  fixes root modified
  defines "share \<equiv> temp_share ''Music'' root ALL_CATEGORIES"
  shows "update_id_is_stable_for_unchanged_content root modified now later \<longleftrightarrow>
    content_fingerprint (one_file (temp_root_entry share root modified)
      (temp_media share default_scanner root modified ''song.mp3'' 5 (audio_kind ''audio/mpeg''))) \<noteq> 0"
proof -
  have "scan (temp_dir root [([''song.mp3''], Some ''audio'')] modified t) (temp_config default_scanner share) =
      Some (Inr ((one_file e f)\<lparr>update_id := content_fingerprint (one_file e f)\<rparr>))"
    if "e = temp_root_entry share root modified"
      "f = temp_media share default_scanner root modified ''song.mp3'' 5 (audio_kind ''audio/mpeg'')" for t e f
    using that one_file_scan [OF temp_names(2), where media = ALL_CATEGORIES and root = root and title = "''Music''"
        and content = "''audio''" and modified = modified and now = t]
    by (simp add: is_hidden_def ALL_CATEGORIES_def share_def)
  then show ?thesis
    by (simp add: update_id_is_stable_for_unchanged_content_def Let_def share_def)
qed

text \<open>The directory of the first test: its file is found in the second turn of the walk.\<close>

definition season_entry :: "share_config \<Rightarrow> path \<Rightarrow> sys_time \<Rightarrow> entry" where
  "season_entry share root modified =
    directory_entry (share_ctx share default_scanner 0 root) (e_id (temp_root_entry share root modified))
      (to_string_lossy ''Season 1'') (root @ [''Season 1''])
      \<lparr>md_type = Dir, md_len = 0, md_modified = Some modified\<rparr>"

definition episode_entry :: "share_config \<Rightarrow> path \<Rightarrow> sys_time \<Rightarrow> entry" where
  "episode_entry share root modified =
    media_entry (share_ctx share default_scanner 0 root) (e_id (season_entry share root modified))
      (to_string_lossy ''Episode.mkv'') (root @ [''Season 1'', ''Episode.mkv''])
      \<lparr>md_type = File, md_len = 5, md_modified = Some modified\<rparr> (video_kind ''video/x-matroska'')"

definition season_catalog :: "entry \<Rightarrow> entry \<Rightarrow> entry list \<Rightarrow> nat \<Rightarrow> u64 \<Rightarrow> catalog" where
  "season_catalog e d fs n b =
    \<lparr>entries = [(e_id e, e), (e_id d, d)] @ map (\<lambda>f. (e_id f, f)) fs,
     children = [(ROOT_ID, [e_id e]), (e_id e, [e_id d]), (e_id d, map e_id fs)],
     update_id = 0, file_count = n, total_bytes = b\<rparr>"

lemma season_facts:
  fixes share root modified
  defines "e \<equiv> temp_root_entry share root modified" and "d \<equiv> season_entry share root modified"
    and "f \<equiv> episode_entry share root modified"
  shows "e_id d \<noteq> e_id e" "e_id f \<noteq> e_id e" "e_id f \<noteq> e_id d" "e_id e \<noteq> ROOT_ID" "e_id d \<noteq> ROOT_ID"
    "e_parent_id d = e_id e" "e_parent_id f = e_id d" "e_kind d = Container"
    "e_kind f = Media (video_kind ''video/x-matroska'')"
  using season_hash
  by (simp_all add: e_def d_def f_def episode_entry_def season_entry_def root_entry_def media_entry_def
      directory_entry_def object_id_eq_iff relative_os_str_def share_ctx_def path_strip_prefix_join
      rel_os_str_def)

lemma insert_season:
  assumes "e_id d \<noteq> e_id e" "e_id e \<noteq> ROOT_ID" "e_id d \<noteq> ROOT_ID" "e_parent_id d = e_id e" "e_kind d = Container"
  shows "insert_entry d (rooted_catalog e) = Inr (season_catalog e d [] 0 0)"
  using assms
  by (simp add: insert_entry_def rooted_catalog_def season_catalog_def hm_or_default_def Let_def)

lemma insert_episode:
  assumes "e_id d \<noteq> e_id e" "e_id f \<noteq> e_id e" "e_id f \<noteq> e_id d" "e_id e \<noteq> ROOT_ID" "e_id d \<noteq> ROOT_ID"
    "e_parent_id f = e_id d" "e_kind f = Media k"
  shows "insert_entry f (count_file 5 (season_catalog e d [] 0 0)) = Inr (season_catalog e d [f] 1 5)"
  using assms
  by (simp add: insert_entry_def season_catalog_def count_file_def saturating_add_def Let_def)

lemmas insert_temp_season =
  insert_season [OF season_facts(1,4,5,6,8), unfolded season_entry_def]

lemmas insert_temp_episode =
  insert_episode [OF season_facts(1-5,7,9), unfolded episode_entry_def]

lemma builds_virtual_share_hierarchy_holds: "builds_virtual_share_hierarchy root modified now"
proof -
  let ?share = "temp_share ''Shows'' root ALL_CATEGORIES"
  let ?e = "temp_root_entry ?share root modified"
  let ?d = "season_entry ?share root modified" and ?f = "episode_entry ?share root modified"
  let ?tree = "[([''Season 1''], None), ([''Season 1'', ''Episode.mkv''], Some ''video''),
    ([''ignore.txt''], Some ''text'')]"
  let ?fs = "temp_dir root ?tree modified now" and ?ctx = "share_ctx ?share default_scanner 0 root"
  let ?first = "\<lparr>st_catalog = season_catalog ?e ?d [] 0 0,
    st_pending = [(root @ [''Season 1''], e_id ?d)], st_visited = [], st_unsettled = 0\<rparr>"
  let ?second = "\<lparr>st_catalog = season_catalog ?e ?d [?f] 1 5, st_pending = [], st_visited = [],
    st_unsettled = 0\<rparr>"
  note seasons = season_facts [of ?share root modified]
  have first: "scan_step ?fs ?ctx (share_start ?share root
      \<lparr>md_type = Dir, md_len = 0, md_modified = Some modified\<rparr> (rooted_catalog ?e)) = Inr ?first"
    by (simp add: temp_walk insert_temp_season, simp add: season_entry_def)
  have second: "scan_step ?fs ?ctx ?first = Inr ?second"
    by (simp add: temp_walk insert_temp_episode ALL_CATEGORIES_def, simp add: episode_entry_def ALL_CATEGORIES_def)
  have "sort_children (season_catalog ?e ?d [?f] 1 5) = Some (season_catalog ?e ?d [?f] 1 5)"
    unfolding season_catalog_def by (rule sorted_single) simp
  then have scanned: "scan_with_minimum_age ?fs (temp_config default_scanner ?share) 0 =
      Some (Inr \<lparr>scan_catalog = (season_catalog ?e ?d [?f] 1 5)
        \<lparr>update_id := content_fingerprint (season_catalog ?e ?d [?f] 1 5)\<rparr>, unsettled_files = 0\<rparr>)"
    using temp_scan [of root ?tree modified now ?share default_scanner 0 ?second]
      scan_loop_next [OF _ first] scan_loop_next [OF _ second] by (simp add: scan_loop_done)
  have "catalog_children (season_catalog ?e ?d [?f] 1 5\<lparr>update_id := u\<rparr>) ROOT_ID = Some [?e]" for u
    using seasons by (simp add: catalog_children_def season_catalog_def List.map_filter_simps)
  then show ?thesis
    by (simp add: builds_virtual_share_hierarchy_def scan_def scanned bind_scan_def first_child_def)
      (simp add: season_catalog_def root_entry_def)
qed

end
