(* ===== verification/Browse_Tests.thy ===== *)
theory Browse_Tests
  imports Scan_Tests Repository_Tests Server_Properties "HOL-Library.Sublist"
begin

text \<open>
  The unit tests of \<open>crates/joedlna-core/src/soap.rs\<close> that browse a scanned directory, as predicates on
  the model, and that they hold for every path and time of the directory.  They search the whole
  response, in which the description of the objects is escaped text, for a text.
\<close>

section \<open>The tests\<close>

text \<open>The arguments of a request for all of an object, without sorting.\<close>

definition browse_arguments :: "string \<Rightarrow> string \<Rightarrow> string \<Rightarrow> arguments" where
  "browse_arguments obj flag f =
    [(''ObjectID'', obj), (''BrowseFlag'', flag), (''Filter'', f), (''StartingIndex'', ''0''),
     (''RequestedCount'', ''0''), (''SortCriteria'', [])]"

definition browse_filters_resource_fields :: "path \<Rightarrow> sys_time \<Rightarrow> sys_time \<Rightarrow> bool" where
  "browse_filters_resource_fields root modified now =
    (case scan (temp_dir root [([''song & dance.mp3''], Some ''audio'')] modified now)
        (temp_config default_scanner (temp_share ''Music'' root ALL_CATEGORIES)) of
       Some (Inr c) \<Rightarrow>
         (case first_child c ROOT_ID of
            None \<Rightarrow> False
          | Some share \<Rightarrow>
            (case content_directory_response ''Browse''
                (browse_arguments (e_id share) ''BrowseDirectChildren'' ''dc:title,upnp:class'')
                c [] ''http://127.0.0.1:1'' of
               Inl _ \<Rightarrow> False
             | Inr body \<Rightarrow>
               contains body ''song &amp;amp; dance'' \<and> \<not> contains body ''&lt;res''))
     | _ \<Rightarrow> False)"

definition browse_returns_samsung_resume_position :: "path \<Rightarrow> sys_time \<Rightarrow> sys_time \<Rightarrow> bool" where
  "browse_returns_samsung_resume_position root modified now =
    (case scan (temp_dir root [([''episode.mp4''], Some ''video'')] modified now)
        (temp_config default_scanner (temp_share ''Shows'' root ALL_CATEGORIES)) of
       Some (Inr c) \<Rightarrow>
         (case Option.bind (first_child c ROOT_ID) (\<lambda>share. first_child c (e_id share)) of
            None \<Rightarrow> False
          | Some item \<Rightarrow>
            (case content_directory_response ''Browse''
                (browse_arguments (e_id item) ''BrowseMetadata'' ''*'')
                c [(e_id item, 196147)] ''http://127.0.0.1:1'' of
               Inl _ \<Rightarrow> False
             | Inr body \<Rightarrow> contains body ''sec:dcmInfo'' \<and> contains body ''BM=196147''))
     | _ \<Rightarrow> False)"

section \<open>Searching a text\<close>

lemma contains_sublist: "contains s t \<longleftrightarrow> sublist t s"
proof
  assume "contains s t"
  then obtain n where "take (length t) (drop n s) = t" by (auto simp: contains_def list_ex_iff)
  then have "s = take n s @ t @ drop (length t) (drop n s)" by (metis append_take_drop_id)
  then show "sublist t s" unfolding sublist_def by blast
next
  assume "sublist t s"
  then obtain u v where s: "s = u @ t @ v" by (auto simp: sublist_def)
  then have "length u < Suc (length s)" "take (length t) (drop (length u) s) = t" by simp_all
  then show "contains s t" unfolding contains_def list_ex_iff by force
qed

lemma sublist_middle: "sublist t s \<Longrightarrow> sublist t (u @ s @ v)"
  unfolding sublist_def by (metis append.assoc)

lemma sublist_skip: "c \<notin> set u \<Longrightarrow> sublist (c # t) (u @ s) \<longleftrightarrow> sublist (c # t) s"
  by (induction u) (auto simp: sublist_Cons_right)

section \<open>Searching an escaped text\<close>

abbreviation printable :: "string \<Rightarrow> bool" where
  "printable s \<equiv> \<forall>c \<in> set s. 0x20 \<le> byte c \<and> byte c < 0x80"

lemma escape_text_append: "printable s \<Longrightarrow> printable t \<Longrightarrow> escape_text (s @ t) = escape_text s @ escape_text t"
proof -
  assume "printable s" "printable t"
  then have "chars (s @ t) = map byte (s @ t)" "chars s = map byte s" "chars t = map byte t"
    by (blast intro!: chars_ascii dest: set_append [THEN equalityD1, THEN subsetD])+
  then show ?thesis by (simp add: escape_text_def)
qed

definition escaped :: "char \<Rightarrow> string" where
  "escaped c =
    (if c = CHR ''&'' then ''&amp;'' else if c = CHR ''<'' then ''&lt;'' else if c = CHR ''>'' then ''&gt;''
     else if c = CHR 0x27 then ''&apos;'' else if c = CHR 0x22 then ''&quot;'' else [c])"

lemma escape_char_printable:
  assumes "0x20 \<le> byte c" "byte c < 0x80"
  shows "escape_char (byte c) = escaped c"
proof -
  have "byte c = byte d \<longleftrightarrow> c = d" for d by simp
  from this [of "CHR ''&''"] this [of "CHR ''<''"] this [of "CHR ''>''"] this [of "CHR 0x27"] this [of "CHR 0x22"]
  show ?thesis
    using assms by (simp add: escape_char_def escaped_def xml_char_def push_char_ascii del: byte_eq_iff)
qed

lemma escape_text_printable_Cons:
  "printable (c # s) \<Longrightarrow> escape_text (c # s) = escaped c @ escape_text s"
  using escape_text_append [of "[c]" s] by (simp add: escape_text_def chars_ascii escape_char_printable)

text \<open>A tag name read behind an escaped text is already there in the text.\<close>

lemma prefix_escaped:
  assumes "printable d" and "list_all is_ascii_alphanumeric t" and "prefix t (escape_text d @ CHR ''<'' # s)"
  shows "prefix t d"
  using assms
proof (induction t arbitrary: d)
  case (Cons x t)
  then have x: "is_ascii_alphanumeric x" by simp
  then have "x \<noteq> CHR ''<''" "x \<noteq> CHR ''&''" by (auto simp: is_ascii_alphanumeric_def is_ascii_digit_def)
  with Cons.prems obtain c d' where d: "d = c # d'" by (cases d) auto
  have "escape_text d = escaped c @ escape_text d'" using Cons.prems(1) d escape_text_printable_Cons by simp
  with Cons.prems \<open>x \<noteq> CHR ''&''\<close> have "c = x" "prefix t (escape_text d' @ CHR ''<'' # s)"
    by (auto simp: escaped_def split: if_splits)
  with Cons d show ?case by simp
qed simp

lemma no_escaped_tag:
  assumes "printable d" and "list_all is_ascii_alphanumeric t" and "CHR ''&'' \<notin> set s"
    and "\<not> sublist (CHR ''<'' # t) d"
  shows "\<not> sublist (''&lt;'' @ t) (escape_text d @ CHR ''<'' # s)"
  using assms
proof (induction d)
  case Nil
  then show ?case using sublist_skip [of "CHR ''&''" "CHR ''<'' # s" "''lt;'' @ t" "[]"] by simp
next
  case (Cons c d)
  have esc: "escape_text (c # d) = escaped c @ escape_text d" using Cons.prems(1) by (rule escape_text_printable_Cons)
  have no: "\<not> sublist (''&lt;'' @ t) (escape_text d @ CHR ''<'' # s)"
    using Cons by (auto simp: sublist_Cons_right)
  have "\<not> prefix t (escape_text d @ CHR ''<'' # s)" if "c = CHR ''<''"
    using Cons.prems that prefix_escaped [of d t s] by (auto simp: sublist_Cons_right)
  with no show ?case by (auto simp: esc escaped_def sublist_Cons_right)
qed

section \<open>The response of a browse\<close>

lemma no_amp_escape: "CHR ''&'' \<notin> set (escape_text (show_word w))"
proof -
  have digit: "is_ascii_digit c" if "c \<in> set (show_word w)" for c using that by (rule show_word_digits)
  then have "printable (show_word w)" by (fastforce simp: is_ascii_digit_def)
  moreover have "CHR ''&'' \<notin> set (escape_text s)" if "printable s" "\<forall>c \<in> set s. is_ascii_digit c" for s
    using that
  proof (induction s)
    case (Cons c s)
    then have "is_ascii_digit c" by simp
    then have "escaped c = [c]" "c \<noteq> CHR ''&''" by (auto simp: escaped_def is_ascii_digit_def)
    then show ?case using Cons escape_text_printable_Cons [of c s] by simp
  qed simp
  ultimately show ?thesis using digit by blast
qed

lemma show_nat_one: "show_nat (Suc 0) = ''1''"
  by code_simp

lemma escape_one: "escape_text ''1'' = ''1''"
  by (simp add: escape_text_printable_Cons escaped_def)

text \<open>One result, and counters and an update identifier behind it.\<close>

lemma soap_result_text:
  "\<exists>a b. soap_response CONTENT_DIRECTORY_TYPE ''Browse''
      [(''Result'', d), (''NumberReturned'', ''1''), (''TotalMatches'', ''1''), (''UpdateID'', show_word w)] =
        a @ escape_text d @ ''</'' @ b
    \<and> CHR ''&'' \<notin> set a \<and> CHR ''&'' \<notin> set b"
proof (intro exI conjI)
  let ?a = \<open>''<?xml version="1.0" encoding="utf-8"?>''
       @ ''<s:Envelope xmlns:s="http://schemas.xmlsoap.org/soap/envelope/" ''
       @ ''s:encodingStyle="http://schemas.xmlsoap.org/soap/encoding/"><s:Body><u:'' @ ''Browse''
       @ ''Response xmlns:u="'' @ CONTENT_DIRECTORY_TYPE @ ''">'' @ ''<'' @ ''Result'' @ ''>''\<close>
  let ?b = "''Result'' @ ''>'' @ ''<'' @ ''NumberReturned'' @ ''>'' @ ''1'' @ ''</'' @ ''NumberReturned'' @ ''>''
       @ ''<'' @ ''TotalMatches'' @ ''>'' @ ''1'' @ ''</'' @ ''TotalMatches'' @ ''>''
       @ ''<'' @ ''UpdateID'' @ ''>'' @ escape_text (show_word w) @ ''</'' @ ''UpdateID'' @ ''>''
       @ ''</u:'' @ ''Browse'' @ ''Response></s:Body></s:Envelope>''"
  show "soap_response CONTENT_DIRECTORY_TYPE ''Browse''
      [(''Result'', d), (''NumberReturned'', ''1''), (''TotalMatches'', ''1''), (''UpdateID'', show_word w)] =
        ?a @ escape_text d @ ''</'' @ ?b"
    by (simp only: soap_response_def element_def append_values.simps escape_one append_assoc)
  show "CHR ''&'' \<notin> set ?a"
    by (simp only: CONTENT_DIRECTORY_TYPE_def set_append Un_iff de_Morgan_disj, intro conjI) simp_all
  show "CHR ''&'' \<notin> set ?b"
    by (simp only: set_append Un_iff de_Morgan_disj, intro conjI) (simp_all add: no_amp_escape)
qed

lemma parse_zero: "parse_word ''0'' = Some (0 :: u32)"
  by (simp add: parse_word_def parse_uint_def is_ascii_digit_def)

text \<open>Browsing the container of a catalog with one file, and the file itself.\<close>

lemma browse_one_file:
  fixes e f u
  defines "c \<equiv> one_file e f\<lparr>update_id := u\<rparr>"
  assumes "e_id f \<noteq> e_id e" "e_id e \<noteq> ROOT_ID" "e_id f \<noteq> ROOT_ID" "e_kind e = Container"
  shows "\<exists>w :: u32. content_directory_response ''Browse'' (browse_arguments (e_id e) ''BrowseDirectChildren'' flt)
      c bookmarks base = Inr (soap_response CONTENT_DIRECTORY_TYPE ''Browse''
        [(''Result'', append_entry didl_header f c bookmarks base flt @ ''</DIDL-Lite>''),
         (''NumberReturned'', ''1''), (''TotalMatches'', ''1''), (''UpdateID'', show_word w)])"
    and "\<exists>w :: u32. content_directory_response ''Browse'' (browse_arguments (e_id f) ''BrowseMetadata'' flt)
      c bookmarks base = Inr (soap_response CONTENT_DIRECTORY_TYPE ''Browse''
        [(''Result'', append_entry didl_header f c bookmarks base flt @ ''</DIDL-Lite>''),
         (''NumberReturned'', ''1''), (''TotalMatches'', ''1''), (''UpdateID'', show_word w)])"
proof -
  have stored: "catalog_entry c (e_id e) = Some e" "catalog_entry c (e_id f) = Some f"
    using assms(2) by (simp_all add: c_def catalog_entry_def one_file_def)
  have "catalog_children c (e_id e) = Some [f]"
    using one_file_children(2) [OF assms(2,3)] by (simp add: c_def)
  then have "listing c (e_id e) None = Inr [f]"
    using assms(3,5) stored by (simp add: listing_def ok_or_def)
  note listed = this and unfolded = content_directory_response_def content_directory_output_def
    browse_def browse_arguments_def required_def ok_or_def parse_u32_def parse_zero title_sort_def
    page_def show_nat_one
  show "\<exists>w :: u32. content_directory_response ''Browse'' (browse_arguments (e_id e) ''BrowseDirectChildren'' flt)
      c bookmarks base = Inr (soap_response CONTENT_DIRECTORY_TYPE ''Browse''
        [(''Result'', append_entry didl_header f c bookmarks base flt @ ''</DIDL-Lite>''),
         (''NumberReturned'', ''1''), (''TotalMatches'', ''1''), (''UpdateID'', show_word w)])"
    by (intro exI [of _ "object_update_id c (e_id e)"]) (simp add: unfolded listed)
  show "\<exists>w :: u32. content_directory_response ''Browse'' (browse_arguments (e_id f) ''BrowseMetadata'' flt)
      c bookmarks base = Inr (soap_response CONTENT_DIRECTORY_TYPE ''Browse''
        [(''Result'', append_entry didl_header f c bookmarks base flt @ ''</DIDL-Lite>''),
         (''NumberReturned'', ''1''), (''TotalMatches'', ''1''), (''UpdateID'', show_word w)])"
    by (intro exI [of _ "object_update_id c (e_id f)"]) (simp add: unfolded assms(4) stored)
qed

text \<open>What is in the escaped description is in the response.\<close>

lemma result_contains:
  assumes "printable d1" "printable m" "printable d2" and "t = escape_text m"
  shows "contains (soap_response CONTENT_DIRECTORY_TYPE ''Browse''
    [(''Result'', d1 @ m @ d2), (''NumberReturned'', ''1''), (''TotalMatches'', ''1''), (''UpdateID'', show_word w)]) t"
proof -
  have "printable (m @ d2)" using assms(2,3) by auto
  then have "escape_text (d1 @ m @ d2) = escape_text d1 @ escape_text m @ escape_text d2"
    using assms(1-3) by (simp only: escape_text_append)
  with soap_result_text [of "d1 @ m @ d2" w] show ?thesis
    unfolding contains_sublist assms(4) by (metis append.assoc sublist_appendI)
qed

section \<open>They hold\<close>

lemma filters_some:
  "\<not> filter_has ''dc:title,upnp:class'' ''res''" "\<not> filter_has ''dc:title,upnp:class'' ''sec:dcmInfo''"
  by code_simp+

lemma filters_all: "filter_has ''*'' p"
  by (simp add: filter_has_def)

lemma printable_object_id: "is_ascii_alphanumeric k \<Longrightarrow> printable (object_id k r p)"
  using object_id_plain [of k r p] by (fastforce simp: list_all_iff is_ascii_alphanumeric_def is_ascii_digit_def)

lemma one_file_ids:
  fixes share root modified name len k
  defines "f \<equiv> temp_media share default_scanner root modified name len k"
    and "e \<equiv> temp_root_entry share root modified"
  shows "e_id f \<noteq> ROOT_ID" "e_kind e = Container" "printable (e_id f)" "printable (e_id e)"
proof -
  have kinds: "is_ascii_alphanumeric CHR ''f''" "is_ascii_alphanumeric CHR ''d''" by code_simp+
  from printable_object_id [OF kinds(1)] printable_object_id [OF kinds(2)]
  show "e_id f \<noteq> ROOT_ID" "e_kind e = Container" "printable (e_id f)" "printable (e_id e)"
    by (simp_all add: e_def f_def temp_media_def media_entry_def root_entry_def)
qed

lemma song_escape: "escape_text ''song & dance'' = ''song &amp; dance''"
  "escape_text ''song &amp; dance'' = ''song &amp;amp; dance''"
  by (simp_all add: escape_text_printable_Cons escaped_def)

text \<open>The description of a file, around its title.\<close>

definition item_start :: "entry \<Rightarrow> string" where
  \<open>item_start f = didl_header @ ''<item id="'' @ escape_text (e_id f) @ ''" parentID="''
    @ escape_text (e_parent_id f) @ ''" restricted="1"><dc:title>''\<close>

definition item_finish :: string where
  "item_finish = ''</dc:title><upnp:class>'' @ ''object.item.audioItem.musicTrack'' @ ''</upnp:class>''
    @ ''</item>'' @ ''</DIDL-Lite>''"

lemma item_start_printable:
  assumes "printable (e_id f)" "printable (e_parent_id f)"
  shows "printable (item_start f)"
  unfolding item_start_def didl_header_def
  by (simp only: set_append Ball_def Un_iff, intro allI impI, elim disjE)
    (use escape_text_printable [OF assms(1)] escape_text_printable [OF assms(2)] in auto)

lemma item_start_no_res: "\<not> sublist ''<res'' (item_start f @ escape_text t @ item_finish)"
  using sublist_skip [of "CHR ''<''" _ "''res''", OF escape_text_no_markup]
  by (simp add: item_start_def item_finish_def didl_header_def sublist_Cons_right)

lemma song_names: "media_kind [''song & dance.mp3''] = Some (audio_kind ''audio/mpeg'')"
  "path_file_stem [''song & dance.mp3''] = Some ''song & dance''"
  "media_kind [''episode.mp4''] = Some (video_kind ''video/mp4'')"
  "path_file_stem [''episode.mp4''] = Some ''episode''"
  by code_simp+

text \<open>What both tests need of the catalog of a directory with one file.\<close>

lemma one_file_catalog:
  assumes "media_kind [name] = Some k" and "\<not> is_hidden name"
    and "path_file_stem [name] = Some stem" and "\<forall>c \<in> set stem. byte c < 0x80"
  obtains c e f u where "c = one_file e f\<lparr>update_id := u\<rparr>"
    and "scan (temp_dir root [([name], Some content)] modified now)
      (temp_config default_scanner (temp_share title root ALL_CATEGORIES)) = Some (Inr c)"
    and "first_child c ROOT_ID = Some e" and "first_child c (e_id e) = Some f"
    and "e_id f \<noteq> e_id e" and "e_id e \<noteq> ROOT_ID" and "e_id f \<noteq> ROOT_ID" and "e_kind e = Container"
    and "e_kind f = Media k" and "e_title f = stem" and "printable (e_id f)" and "printable (e_parent_id f)"
proof -
  let ?share = "temp_share title root ALL_CATEGORIES"
  define e where "e = temp_root_entry ?share root modified"
  define f where "f = temp_media ?share default_scanner root modified name (word_of_nat (length content)) k"
  define u where "u = content_fingerprint (one_file e f)"
  have "mk_category k \<in> set ALL_CATEGORIES" by (cases "mk_category k") (simp_all add: ALL_CATEGORIES_def)
  from one_file_scan [OF assms(1) this assms(2)]
  have scan: "scan (temp_dir root [([name], Some content)] modified now) (temp_config default_scanner ?share) =
      Some (Inr (one_file e f\<lparr>update_id := u\<rparr>))"
    by (simp add: e_def f_def u_def)
  have facts: "e_id f \<noteq> e_id e" "e_id e \<noteq> ROOT_ID" "e_parent_id f = e_id e" "e_kind f = Media k"
    unfolding e_def f_def by (rule temp_media_facts)+
  have ids: "e_id f \<noteq> ROOT_ID" "e_kind e = Container" "printable (e_id f)" "printable (e_id e)"
    unfolding e_def f_def by (rule one_file_ids)+
  have "e_title f = stem" unfolding f_def by (rule temp_media_title [OF assms(3,4)])
  moreover have "first_child (one_file e f\<lparr>update_id := u\<rparr>) ROOT_ID = Some e"
    "first_child (one_file e f\<lparr>update_id := u\<rparr>) (e_id e) = Some f"
    using one_file_children(1,2) [OF facts(1,2)] by (simp_all add: first_child_def)
  ultimately show thesis using that scan facts ids by metis
qed

lemma browse_filters_resource_fields_holds: "browse_filters_resource_fields root modified now"
proof -
  let ?base = "''http://127.0.0.1:1''" and ?filter = "''dc:title,upnp:class''"
  have plain: "\<not> is_hidden ''song & dance.mp3''" "\<forall>c \<in> set ''song & dance''. byte c < 0x80"
    by (simp_all add: is_hidden_def)
  obtain c e f u where c: "c = one_file e f\<lparr>update_id := u\<rparr>"
    and scanned: "scan (temp_dir root [([''song & dance.mp3''], Some ''audio'')] modified now)
      (temp_config default_scanner (temp_share ''Music'' root ALL_CATEGORIES)) = Some (Inr c)"
    and first: "first_child c ROOT_ID = Some e"
    and ids: "e_id f \<noteq> e_id e" "e_id e \<noteq> ROOT_ID" "e_id f \<noteq> ROOT_ID" "e_kind e = Container"
    and kind: "e_kind f = Media (audio_kind ''audio/mpeg'')" and title: "e_title f = ''song & dance''"
    and texts: "printable (e_id f)" "printable (e_parent_id f)"
    by (rule one_file_catalog [OF song_names(1) plain(1) song_names(2) plain(2)])
  have item: "append_entry didl_header f c [] ?base ?filter @ ''</DIDL-Lite>'' =
      item_start f @ escape_text (e_title f) @ item_finish"
    by (simp only: append_entry_def kind entry_kind.case Let_def filters_some if_False audio_kind_def
        media_kind_info.simps item_start_def item_finish_def append_assoc append_Nil)
  obtain w :: u32 where answer: "content_directory_response ''Browse''
      (browse_arguments (e_id e) ''BrowseDirectChildren'' ?filter) c [] ?base =
      Inr (soap_response CONTENT_DIRECTORY_TYPE ''Browse''
        [(''Result'', item_start f @ escape_text (e_title f) @ item_finish), (''NumberReturned'', ''1''),
         (''TotalMatches'', ''1''), (''UpdateID'', show_word w)])" (is "_ = Inr ?text")
    using browse_one_file(1) [OF ids, where flt = ?filter and bookmarks = "[]" and base = ?base and u = u]
    unfolding c [symmetric] item by blast
  have printable: "printable (item_start f)" "printable ''song &amp; dance''" "printable item_finish"
    using item_start_printable [OF texts] by (simp_all add: item_finish_def)
  have "contains ?text ''song &amp;amp; dance''"
    unfolding title song_escape(1)
    by (rule result_contains [OF printable]) (simp add: song_escape)
  moreover have "\<not> contains ?text ''&lt;res''"
  proof -
    let ?d = "item_start f @ escape_text (e_title f) @ item_finish"
    obtain a b where whole: "?text = a @ escape_text ?d @ CHR ''<'' # CHR ''/'' # b"
      "CHR ''&'' \<notin> set a" "CHR ''&'' \<notin> set b"
      using soap_result_text [of ?d w] by auto
    have "printable ?d" using printable unfolding title song_escape(1) by auto
    from no_escaped_tag [OF this _ _ item_start_no_res] whole(3)
    have "\<not> sublist (''&lt;'' @ ''res'') (escape_text ?d @ CHR ''<'' # CHR ''/'' # b)"
      by (simp add: is_ascii_alphanumeric_def is_ascii_digit_def)
    then show ?thesis using sublist_skip [OF whole(2)] by (simp add: contains_sublist whole(1))
  qed
  ultimately show ?thesis
    by (simp only: browse_filters_resource_fields_def scanned first answer option.case sum.case simp_thms)
qed

text \<open>What follows the position in the description of a file.\<close>

definition item_resource :: "entry \<Rightarrow> string \<Rightarrow> string \<Rightarrow> string" where
  \<open>item_resource f base info =
    ''<res protocolInfo="'' @ escape_text info @ ''"'' @ '' size="'' @ show_word (e_size f) @ ''"''
    @ ''>'' @ escape_text (resource_url base f) @ ''</res>'' @ ''</item>'' @ ''</DIDL-Lite>''\<close>

lemma printable_append: "printable (s @ t) \<longleftrightarrow> printable s \<and> printable t"
  by auto

lemma printable_digits: "printable (show_word w)"
  using show_word_digits by (fastforce simp: is_ascii_digit_def)

lemma item_resource_printable:
  assumes "printable (e_id f)" "printable base" "printable info"
  shows "printable (item_resource f base info)"
proof -
  have "printable (url_extension (e_path f))"
    using url_extension_plain [of "e_path f"]
    by (fastforce simp: list_all_iff is_ascii_alphanumeric_def is_ascii_digit_def)
  then have "printable (resource_url base f)"
    using assms(1,2) by (simp only: resource_url_def printable_append) simp
  note parts = escape_text_printable [OF this] escape_text_printable [OF assms(3)] printable_digits
  show ?thesis
    by (simp only: item_resource_def printable_append, intro conjI) (simp_all add: parts)
qed

lemma browse_returns_samsung_resume_position_holds: "browse_returns_samsung_resume_position root modified now"
proof -
  let ?base = "''http://127.0.0.1:1''"
  have plain: "\<not> is_hidden ''episode.mp4''" "\<forall>c \<in> set ''episode''. byte c < 0x80"
    by (simp_all add: is_hidden_def)
  obtain c e f u where c: "c = one_file e f\<lparr>update_id := u\<rparr>"
    and scanned: "scan (temp_dir root [([''episode.mp4''], Some ''video'')] modified now)
      (temp_config default_scanner (temp_share ''Shows'' root ALL_CATEGORIES)) = Some (Inr c)"
    and first: "first_child c ROOT_ID = Some e" "first_child c (e_id e) = Some f"
    and ids: "e_id f \<noteq> e_id e" "e_id e \<noteq> ROOT_ID" "e_id f \<noteq> ROOT_ID" "e_kind e = Container"
    and kind: "e_kind f = Media (video_kind ''video/mp4'')" and title: "e_title f = ''episode''"
    and texts: "printable (e_id f)" "printable (e_parent_id f)"
    by (rule one_file_catalog [OF song_names(3) plain(1) song_names(4) plain(2)])
  define bookmarks :: "(string, u64) btree_map" where "bookmarks = [(e_id f, 196147)]"
  define T where "T = item_start f @ escape_text (e_title f) @ ''</dc:title><upnp:class>''
    @ ''object.item.videoItem'' @ ''</upnp:class>''"
  define R where "R = item_resource f ?base (protocol_info ''video/mp4'' None)"
  let ?d = "T @ ''<sec:dcmInfo>CREATIONDATE=0,FOLDER='' @ escape_text (e_title f) @ '',BM=''
    @ show_word (196147 :: u64) @ ''</sec:dcmInfo>'' @ R"
  have position: "bt_get bookmarks (e_id f) = Some 196147" by (simp add: bookmarks_def)
  have item: "append_entry didl_header f c bookmarks ?base ''*'' @ ''</DIDL-Lite>'' = ?d"
    by (simp only: append_entry_def kind entry_kind.case Let_def filters_all if_True video_kind_def
        media_kind_info.simps item_start_def T_def R_def item_resource_def position option.case append_assoc
        append_Nil simp_thms)
  obtain w :: u32 where answer: "content_directory_response ''Browse''
      (browse_arguments (e_id f) ''BrowseMetadata'' ''*'') c bookmarks ?base =
      Inr (soap_response CONTENT_DIRECTORY_TYPE ''Browse''
        [(''Result'', ?d), (''NumberReturned'', ''1''), (''TotalMatches'', ''1''), (''UpdateID'', show_word w)])"
    (is "_ = Inr ?text")
    using browse_one_file(2) [OF ids, where flt = "''*''" and bookmarks = bookmarks and base = ?base and u = u]
    unfolding c [symmetric] item by blast
  have shown: "show_word (196147 :: u64) = ''196147''" 
    by (simp add: show_word_def show_nat.simps digit_char_def) code_simp
  have "escape_text (e_title f) = ''episode''"
    by (simp add: title escape_text_printable_Cons escaped_def)
  note title = this
  have printable: "printable T" "printable R"
    unfolding T_def R_def title
    by (simp only: printable_append, intro conjI item_start_printable [OF texts], simp_all)
      (rule item_resource_printable [OF texts(1)], simp_all add: protocol_info_def)
  have "contains ?text ''sec:dcmInfo''"
    using result_contains [of "T @ ''<''" "''sec:dcmInfo''"
        "''>CREATIONDATE=0,FOLDER=episode,BM=196147</sec:dcmInfo>'' @ R" "''sec:dcmInfo''"] printable
    by (simp add: title shown escape_text_printable_Cons escaped_def)
  moreover have "contains ?text ''BM=196147''"
    using result_contains [of "T @ ''<sec:dcmInfo>CREATIONDATE=0,FOLDER=episode,''" "''BM=196147''"
        "''</sec:dcmInfo>'' @ R" "''BM=196147''"] printable
    by (simp add: title shown escape_text_printable_Cons escaped_def)
  ultimately show ?thesis
    by (simp only: browse_returns_samsung_resume_position_def scanned first answer bookmarks_def [symmetric]
        option.case sum.case simp_thms bind.bind_lunit)
qed

end
