(* ===== verification/Spec2Isabelle.thy ===== *)
theory Spec2Isabelle
  imports Protocol_Properties Events_Properties Bookmarks_Properties Ssdp_Properties
    Http_Properties Rescan_Properties Watch_Channel Server_Properties Response_Properties
    Delivery Command_Line Repository_Tests Bookmark_Tasks Scan_Tests Browse_Tests
begin

text \<open>
  JoeDLNA, a UPnP media server that publishes directories: a model of the program and the theorems
  that make it correct.  Paths below are relative to \<open>src/crates/joedlna-core/src\<close>.

  \<^bold>\<open>The program.\<close>  \<open>serve\<close> (\<open>http.rs\<close>) reads the shares of a configuration (\<open>config.rs\<close>) into a
  catalog (\<open>catalog.rs\<close>) and keeps it behind a lock, together with the configuration, the table of
  event subscriptions (\<open>events.rs\<close>) and the bookmarks (\<open>bookmarks.rs\<close>).  Three tasks share this state:
  the HTTP handlers, which answer control requests (\<open>soap.rs\<close>, \<open>xml.rs\<close>, \<open>description.rs\<close>), stream
  files and take subscriptions; the scanner, which replaces the catalog when files or the
  configuration change and has subscribers notified; and discovery (\<open>ssdp.rs\<close>), which only knows the
  server's address.

  \<^bold>\<open>Where what is modelled.\<close>

  \<^item> \<open>Prelude\<close>, \<open>Ordering\<close>, \<open>Stores\<close>, \<open>Rust_Str\<close>, \<open>Rust_Text\<close>, \<open>Filesystem\<close>: what the code uses of
    Rust's library.  Results are sums, \<open>bind_result\<close> is the question mark, machine integers are
    words, \<open>str\<close> is a list of bytes with its characters decoded where the code counts or changes
    characters.  \<open>keyed_store\<close> and \<open>retaining_store\<close> are the contracts of \<open>BTreeMap\<close> and \<open>HashMap\<close>,
    \<open>total_cmp\<close> and \<open>strict_cmp\<close> those of comparators; each is interpreted on the models.  A
    \<open>HashMap\<close> is a list of pairs in any order; results that depend on the order are shown not to, or
    stated for every order.
  \<^item> \<open>Config_Model\<close>: \<open>config.rs\<close>.  \<open>Media_Kind\<close>, \<open>Object_Id\<close>, \<open>Catalog\<close>, \<open>Catalog_Content\<close>: the data of
    \<open>catalog.rs\<close>; \<open>Scan\<close>: its directory walk, with \<open>Scan_Facts\<close>.
  \<^item> \<open>Xml\<close>: \<open>xml.rs\<close>.  \<open>Description\<close>: \<open>description.rs\<close> and \<open>platform.rs\<close>.  \<open>Soap\<close>: \<open>soap.rs\<close>, with
    \<open>Soap_Facts\<close>, where \<open>directory\<close> is the interface through which \<open>Browse\<close> sees a catalog.
  \<^item> \<open>Events\<close>: \<open>events.rs\<close>, with \<open>Events_Facts\<close> (the table as a state machine) and \<open>Events_Text\<close> (the
    texts it reads and writes); \<open>Delivery\<close>: its \<open>send_notification\<close>.  \<open>Bookmarks\<close>:
    \<open>bookmarks.rs\<close> on a disk that remembers every moment; \<open>Bookmark_Tasks\<close>: its \<open>set\<close> at the grain of
    its awaits, on numbered files, with tasks that are dropped while their writes go on.  \<open>Ssdp\<close>:
    \<open>ssdp.rs\<close>; what its loop and the tasks spawned for its answers hand to the socket, in every order
    in which they can run, is given by \<open>wire_step\<close>.
  \<^item> \<open>Media_Response\<close>, \<open>Http\<close>: responses, ranges, streaming, handlers and routes of \<open>http.rs\<close>; its
    \<open>AppState\<close> is the record \<open>app_state\<close>. \<open>Rescan\<close>, \<open>Rescan_Facts\<close>: \<open>rescan_catalog\<close>, the watches
    and the loop of \<open>run_scanner\<close>; \<open>Watch_Channel\<close>: the bounded channel that feeds it. \<open>Server\<close>:
    \<open>serve\<close>, from its start to the way its tasks end each other, and the relation \<open>served\<close> on the
    states reached when whole requests, initial notifications and rescans happen in any order.
    \<open>Interleaving\<close>: the same tasks at the grain of their awaits, where a granted subscription,
    the reading of the update identifier for it and its first notification are three steps, and
    the replacing of the catalog, the notifications and the replacing of the configuration by a
    rescan are three more; \<open>interleaved\<close> is the relation on the states reached, and
    \<open>served_interleaved\<close> shows that \<open>served\<close> is the case in which nothing comes between.
  \<^item> \<open>Command_Line\<close>: \<open>main.rs\<close> of \<open>joedlna-bin\<close>.  \<open>Repository_Tests\<close>: the unit tests that need no
    directory to scan, \<open>Scan_Tests\<close> those that scan a temporary directory, \<open>Browse_Tests\<close> those that
    browse one: predicates on the model that are proved to hold, for every path and time of the
    directory.

  \<^bold>\<open>What is shown.\<close>  The theories \<open>*_Properties\<close> hold the properties, each after a text that says what
  it means, and a small example on which it is applied.

  \<^item> \<open>Core_Properties\<close>: a scan finds exactly what the file system holds of the shares, never a hidden
    or foreign file, in a well-formed catalog, and it returns, also when links form cycles;
    comparing catalogs is exact.  \<open>Data_Properties\<close>: which configurations are accepted, what an
    identifier identifies, and that escaping is undone by reading.
  \<^item> \<open>Protocol_Properties\<close>: what \<open>Browse\<close> returns and refuses, what a reader finds in a response and
    what the code makes of a request, that the services answer what their descriptions announce, and
    that no name can add markup.
  \<^item> \<open>Events_Properties\<close>: where notifications go, how they are numbered, what a subscription, its
    renewal and a change of content do.  \<open>Bookmarks_Properties\<close>: what a crash leaves, at any moment.
    \<open>Bookmark_Tasks\<close>: that calls of \<open>set\<close> step by step are the whole calls, unless one is dropped.
    \<open>Ssdp_Properties\<close>: which searches are answered, and what is announced over the server's life,
    message by message.
  \<^item> \<open>Http_Properties\<close>: ranges, streaming, bookmarks over SOAP.  \<open>Rescan_Properties\<close>: what a rescan
    publishes and whom it notifies, and the watches.  \<open>Scanner_Properties\<close>: that the scanner waits for
    quiet, and for how long.  \<open>Watch_Channel\<close>: which changes it cannot miss, and that a burst can hide
    one until the periodic scan.
  \<^item> \<open>Server_Properties\<close>: the invariant of every state the interleaved tasks reach, that every change of
    content is sent to every subscriber once the tasks come to rest (and that they do), that what
    discovery announces is what is served and is revoked at the end, when both tasks have ended and the
    first failure is the result, and that the links of the catalog lead to the files.  \<open>Response_Properties\<close>: that every answer is a well-formed response.
    \<open>Delivery\<close>: when a notification counts as delivered.  \<open>Command_Line\<close>: what
    \<open>check-config\<close> reports.

  Some theorems show the code doing what it does not mean to: \<open>argument_truncated\<close> (text behind a
  reference in an argument is dropped), \<open>initial_event\<close> (a subscriber may end with a stale update
  identifier), \<open>interval_overflow\<close> (an accepted configuration can stop the scanner),
  \<open>bookmark_request\<close> (a position that could not be saved stays in effect),
  \<open>dropped_call_overwrites\<close> (a request that its client gives up can replace the bookmarks that a later
  one has saved), \<open>browse_response_roundtrip\<close> (a carriage return in a name is written as it is, and XML
  reads it as a line feed), \<open>parse_range_correct\<close> (a suffix range on an empty file is refused, which
  RFC 9110 has satisfiable) and \<open>windows_gap\<close> (on Windows there can be a moment without the bookmarks
  file).

  \<^bold>\<open>Parameters.\<close>  Code outside the repository is an argument: the TOML reader and writer (\<open>toml_codec\<close>
  states that reading undoes writing), the events of the XML reader (which the statements about
  requests describe for the envelope at hand), \<open>to_lowercase\<close>, version 5 UUIDs, the native watcher,
  the clock, the output of \<open>hostname\<close>, and every answer of the file system, including which operations
  of the disk fail and after how many bytes.  Of axum, the extractor that gives the control handlers
  their body as \<open>Bytes\<close> is an argument, since it may refuse (with 413 above its limit of 2 MB, or 400
  when the body cannot be read: \<open>extracts_bytes\<close>), and so is the way its server ends once it is told
  to; its routing and its treatment of \<open>HEAD\<close> follow its documentation.

  \<^bold>\<open>Bounds and recursion.\<close>  Nothing uses fuel.  The loop of the walk is a \<open>partial_function\<close>, so a scan
  that does not return is \<open>None\<close>; \<open>scan_returns\<close> gives the conditions under which it does return.
  Loops over messages (\<open>ssdp_loop\<close>, \<open>scanner_run\<close>, \<open>served\<close>, \<open>interleaved\<close>) go over what is received; the steps
  that tasks still owe are counted by \<open>work\<close>, which each of them takes down by one.  Words have the
  width of the code: 64 bits for sizes, positions and hashes, 32 for update identifiers and event
  numbers, 16 for ports; \<open>usize\<close> counters of files are natural numbers.  Instants are natural
  numbers, with the overflow of \<open>Instant\<close> written out where the code adds to one.

  \<^bold>\<open>Not modelled.\<close>  The sockets themselves: \<open>create_socket\<close> and \<open>send_notification\<close> are modelled as the
  calls they make, with what the system answers as a parameter.  The reading of the arguments is
  clap's.  Log lines and the display of errors have no effect on the state.  The model takes the Unix
  branches; the Windows branch is kept in \<open>replace_file\<close>; the properties on crashes are about
  Unix, since on Windows the bookmarks are not on disk between the removal and the second rename.  A read error in the middle
  of a stream, the poisoning of a lock, and percent-encoded paths, with the extractor's refusal of
  those that are not UTF-8, are left out.  In \<open>Interleaving\<close>, two
  places are coarser than their awaits: a bookmark request, whose writing \<open>Bookmark_Tasks\<close> takes apart
  on its own, and which looks at the catalog it read first even if a rescan replaces it meanwhile,
  and a rescan while it still reads, when it has changed nothing.  Two tests are
  about the readers of other crates and are left out, \<open>loads_minimal_config\<close> and
  \<open>descriptions_are_well_formed_xml\<close>; of \<open>update_id_is_stable_for_unchanged_content\<close> it is shown that it
  holds exactly if the hash of its one file is not folded to 0.  \<open>build.rs\<close> and \<open>lib.rs\<close> hold no logic.
\<close>

end
